(* ===== verification/Prelude.thy ===== *)
theory Prelude
  imports Complex_Main
begin

text \<open>
  Shared vocabulary of the development. A Python \<open>str\<close> is a sequence of Unicode code
  points, so it is modelled as a list of natural numbers (\<open>pystr\<close>), not as Isabelle's
  byte-sized \<open>char\<close>: \<open>\<times>\<close> (U+00D7) and \<open>\<div>\<close> (U+00F7), which the calculator
  rewrites, are single code points. \<open>ustr\<close> turns an ASCII literal into code points.
  The theory defines the string methods the sources call (\<open>str.isspace\<close>,
  \<open>str.strip\<close>, \<open>str.replace\<close>, \<open>str.join\<close>) and proves the facts about them
  that the components share.
\<close>

named_theorems pystr_simps "evaluation rules for Python strings as code-point lists"

type_synonym pystr = "nat list"

definition ustr :: "string \<Rightarrow> pystr" where
  "ustr s = map of_char s"

abbreviation times_sign :: nat where "times_sign \<equiv> 215"   \<comment> \<open>U+00D7\<close>
abbreviation divide_sign :: nat where "divide_sign \<equiv> 247"  \<comment> \<open>U+00F7\<close>

subsection \<open>\<open>str.isspace\<close> on one code point\<close>

text \<open>
  CPython's \<open>Py_UNICODE_ISSPACE\<close>: the ASCII controls 9--13 and 28--31, the space, and
  the Unicode characters of category Zs or bidirectional class WS, B or S.
\<close>

definition py_isspace :: "nat \<Rightarrow> bool" where
  "py_isspace c \<longleftrightarrow>
     (9 \<le> c \<and> c \<le> 13) \<or> (28 \<le> c \<and> c \<le> 32) \<or> c = 133 \<or> c = 160 \<or> c = 5760 \<or>
     (8192 \<le> c \<and> c \<le> 8202) \<or> c = 8232 \<or> c = 8233 \<or> c = 8239 \<or> c = 8287 \<or> c = 12288"

subsection \<open>\<open>str.strip()\<close>\<close>

definition py_strip :: "pystr \<Rightarrow> pystr" where
  "py_strip s = rev (dropWhile py_isspace (rev (dropWhile py_isspace s)))"

subsection \<open>\<open>str.replace(old, new)\<close>\<close>

text \<open>
  Non-overlapping occurrences, left to right; an empty \<open>old\<close> inserts \<open>new\<close> before
  every code point and at the end, as CPython does.
\<close>

function py_replace :: "pystr \<Rightarrow> pystr \<Rightarrow> pystr \<Rightarrow> pystr" where
  "py_replace old new [] = (if old = [] then new else [])"
| "py_replace old new (c # s) =
     (if old = [] then new @ c # py_replace old new s
      else if take (length old) (c # s) = old
      then new @ py_replace old new (drop (length old) (c # s))
      else c # py_replace old new s)"
  by pat_completeness auto
termination
  by (relation "measure (\<lambda>(old, new, s). length s)") auto

subsection \<open>\<open>sep.join(items)\<close>\<close>

fun py_join :: "pystr \<Rightarrow> pystr list \<Rightarrow> pystr" where
  "py_join sep [] = []"
| "py_join sep [x] = x"
| "py_join sep (x # y # ys) = x @ sep @ py_join sep (y # ys)"

subsection \<open>\<open>s.endswith(suffix)\<close>\<close>

definition py_endswith :: "pystr \<Rightarrow> pystr \<Rightarrow> bool" where
  "py_endswith s suf \<longleftrightarrow> length suf \<le> length s \<and> drop (length s - length suf) s = suf"

subsection \<open>Facts shared by the components\<close>

lemma ustr_simps [simp, pystr_simps]:
  "ustr [] = []" "ustr (c # s) = of_char c # ustr s" "ustr (s @ t) = ustr s @ ustr t"
  by (simp_all add: ustr_def)

lemma length_ustr [simp]: "length (ustr s) = length s"
  by (simp add: ustr_def)

lemma py_strip_no_leading_space:
  "py_strip s = c # r \<Longrightarrow> \<not> py_isspace c"
proof -
  assume eq: "py_strip s = c # r"
  let ?d = "dropWhile py_isspace s"
  have "rev (dropWhile py_isspace (rev ?d)) \<noteq> []" using eq by (simp add: py_strip_def)
  then obtain u where u: "?d = c # u"
    using eq by (cases ?d) (auto simp: py_strip_def dropWhile_append3 split: if_splits)
  have "\<not> py_isspace (hd ?d)" if "?d \<noteq> []" using that hd_dropWhile by blast
  then show ?thesis using u by simp
qed

lemma py_strip_no_trailing_space:
  "py_strip s = r @ [c] \<Longrightarrow> \<not> py_isspace c"
proof -
  assume eq: "py_strip s = r @ [c]"
  let ?d = "dropWhile py_isspace (rev (dropWhile py_isspace s))"
  have "rev ?d = r @ [c]" using eq by (simp add: py_strip_def)
  then have "?d = c # rev r" by (metis rev_append rev_rev_ident rev_singleton_conv append_Cons append_Nil)
  then show ?thesis by (metis hd_dropWhile list.distinct(1) list.sel(1))
qed

lemma set_py_strip: "set (py_strip s) \<subseteq> set s"
  unfolding py_strip_def by (auto dest!: set_dropWhileD)

lemma dropWhile_app: "v = [] \<or> \<not> P (hd v) \<Longrightarrow> dropWhile P (u @ v) = dropWhile P u @ v"
  by (induction u) (cases v, auto)+

lemma takeWhile_app: "v = [] \<or> \<not> P (hd v) \<Longrightarrow> takeWhile P (u @ v) = takeWhile P u"
  by (induction u) (cases v, auto)+

lemma py_replace_absent: "a \<notin> set s \<Longrightarrow> py_replace [a] new s = s"
  by (induction s) auto

lemma py_replace_char [simp]:
  "py_replace [a] [b] s = map (\<lambda>c. if c = a then b else c) s"
  by (induction s) auto

lemma py_replace_single:
  "py_replace [a] new s = concat (map (\<lambda>c. if c = a then new else [c]) s)"
  by (induction s) auto

lemma py_replace_removes:
  "a \<notin> set new \<Longrightarrow> a \<notin> set (py_replace [a] new s)"
  by (induction s) auto

lemma set_py_replace_single:
  "set (py_replace [a] new s) \<subseteq> (set s - {a}) \<union> set new"
  by (induction s) auto

lemma py_endswith_append [simp]: "py_endswith (p @ suf) suf"
  by (simp add: py_endswith_def)

lemma py_join_append_sep:
  "py_join sep (x # xs) = x @ concat (map (\<lambda>y. sep @ y) xs)"
  by (induction xs arbitrary: x) auto

end
