(* ===== verification/AllowList.thy ===== *)
theory AllowList
  imports Prelude
begin

text \<open>
  The input filter of \<open>calculator\<close> (src/code/chapter4/tools.py, lines 67--69):
  \<^verbatim>\<open>allowed_pattern = re.compile(r'^[0-9\+\-\*\/\(\)\.\^ \t]+(?:math\.[a-zA-Z_]+)*$')\<close>
  applied with \<open>match\<close> to the stripped input. The regular expression is modelled
  twice: as the language it denotes (\<open>pattern_lang\<close>, with Python's rule that \<open>$\<close> also
  matches before a final newline, \<open>allowed_pattern_spec\<close>) and as an executable matcher
  (\<open>allowed_pattern_match\<close>); the two are proved equal. Further lemmas say which code
  points an accepted string can hold and where letters can occur in it.
\<close>

subsection \<open>Character classes\<close>

text \<open>\<open>[0-9\+\-\*\/\(\)\.\^ \t]\<close>: ASCII digits, \<open>+ - * / ( ) . ^\<close>, space and tab.\<close>

definition allowed_class :: "nat \<Rightarrow> bool" where
  "allowed_class c \<longleftrightarrow> (48 \<le> c \<and> c \<le> 57) \<or> c = 43 \<or> c = 45 \<or> c = 42 \<or> c = 47 \<or>
     c = 40 \<or> c = 41 \<or> c = 46 \<or> c = 94 \<or> c = 32 \<or> c = 9"

text \<open>\<open>[a-zA-Z_]\<close>: ASCII letters and the underscore.\<close>

definition ident_letter :: "nat \<Rightarrow> bool" where
  "ident_letter c \<longleftrightarrow> (65 \<le> c \<and> c \<le> 90) \<or> (97 \<le> c \<and> c \<le> 122) \<or> c = 95"

definition math_dot :: pystr where
  "math_dot = ustr ''math.''"

subsection \<open>The language of the pattern\<close>

text \<open>\<open>(?:math\.[a-zA-Z_]+)*\<close>\<close>

inductive chain_lang :: "pystr \<Rightarrow> bool" where
  chain_empty: "chain_lang []"
| chain_step: "l \<noteq> [] \<Longrightarrow> \<forall>c\<in>set l. ident_letter c \<Longrightarrow> chain_lang r \<Longrightarrow>
     chain_lang (math_dot @ l @ r)"

text \<open>\<open>[\<dots>]+(?:math\.[a-zA-Z_]+)*\<close>\<close>

definition pattern_lang :: "pystr \<Rightarrow> bool" where
  "pattern_lang s \<longleftrightarrow>
     (\<exists>u v. s = u @ v \<and> u \<noteq> [] \<and> (\<forall>c\<in>set u. allowed_class c) \<and> chain_lang v)"

text \<open>\<open>re.match\<close> anchors at the start; \<open>$\<close> matches at the end or before a final \<open>\n\<close>.\<close>

definition allowed_pattern_spec :: "pystr \<Rightarrow> bool" where
  "allowed_pattern_spec s \<longleftrightarrow> pattern_lang s \<or> (\<exists>t. s = t @ [10] \<and> pattern_lang t)"

subsection \<open>The executable matcher\<close>

text \<open>
  The repetition \<open>(?:math\.[a-zA-Z_]+)*\<close> backtracks: a run of letters may end at any
  point where another \<open>math.\<close> starts, as the regular expression engine tries.
\<close>

fun chain_match :: "pystr \<Rightarrow> bool" and letters_then :: "pystr \<Rightarrow> bool" where
  "chain_match [] = True"
| "chain_match (c # s) = (take 5 (c # s) = math_dot \<and> letters_then (drop 5 (c # s)))"
| "letters_then [] = False"
| "letters_then (c # s) = (ident_letter c \<and> (chain_match s \<or> letters_then s))"

definition pattern_match :: "pystr \<Rightarrow> bool" where
  "pattern_match s \<longleftrightarrow>
     takeWhile allowed_class s \<noteq> [] \<and> chain_match (dropWhile allowed_class s)"

definition allowed_pattern_match :: "pystr \<Rightarrow> bool" where
  "allowed_pattern_match s \<longleftrightarrow>
     pattern_match s \<or> (s \<noteq> [] \<and> last s = 10 \<and> pattern_match (butlast s))"

subsection \<open>Matcher and language agree\<close>

lemma math_dot_code [simp, pystr_simps]: "math_dot = [109, 97, 116, 104, 46]"
  by (simp add: math_dot_def)

lemma length_math_dot [simp]: "length math_dot = 5"
  by simp

lemma chain_match_letters_then_lang:
  "chain_match s \<longleftrightarrow> chain_lang s"
  "letters_then s \<longleftrightarrow>
     (\<exists>l r. s = l @ r \<and> l \<noteq> [] \<and> (\<forall>c\<in>set l. ident_letter c) \<and> chain_lang r)"
proof (induction s and s rule: chain_match_letters_then.induct)
  case 1
  then show ?case by (simp add: chain_lang.chain_empty)
next
  case (2 c s)
  show ?case
  proof
    assume "chain_match (c # s)"
    then have pre: "take 5 (c # s) = math_dot" and lt: "letters_then (drop 5 (c # s))" by auto
    from lt "2.IH" obtain l r where "drop 5 (c # s) = l @ r" "l \<noteq> []"
      "\<forall>c\<in>set l. ident_letter c" "chain_lang r" by blast
    moreover have "c # s = math_dot @ drop 5 (c # s)" using pre by (metis append_take_drop_id)
    ultimately show "chain_lang (c # s)" by (metis chain_lang.chain_step)
  next
    assume "chain_lang (c # s)"
    then obtain l r where eq: "c # s = math_dot @ l @ r" and l: "l \<noteq> []"
      "\<forall>c\<in>set l. ident_letter c" and r: "chain_lang r"
      by (cases rule: chain_lang.cases) auto
    have "take 5 (c # s) = math_dot" "drop 5 (c # s) = l @ r" using eq by simp_all
    with l r "2.IH" show "chain_match (c # s)" by auto
  qed
next
  case 3
  then show ?case by simp
next
  case (4 c s)
  show ?case
  proof
    assume "letters_then (c # s)"
    then have c: "ident_letter c" and alt: "chain_match s \<or> letters_then s" by auto
    from alt show "\<exists>l r. c # s = l @ r \<and> l \<noteq> [] \<and> (\<forall>c\<in>set l. ident_letter c) \<and> chain_lang r"
    proof
      assume "chain_match s"
      with "4.IH"(1) c show ?thesis by (intro exI [of _ "[c]"] exI [of _ s]) simp
    next
      assume "letters_then s"
      with "4.IH"(2) obtain l r where "s = l @ r" "l \<noteq> []" "\<forall>c\<in>set l. ident_letter c"
        "chain_lang r" by blast
      with c show ?thesis by (intro exI [of _ "c # l"] exI [of _ r]) simp
    qed
  next
    assume "\<exists>l r. c # s = l @ r \<and> l \<noteq> [] \<and> (\<forall>c\<in>set l. ident_letter c) \<and> chain_lang r"
    then obtain l r where eq: "c # s = l @ r" and l: "l \<noteq> []"
      "\<forall>c\<in>set l. ident_letter c" and r: "chain_lang r" by blast
    then obtain l' where l': "l = c # l'" by (cases l) auto
    show "letters_then (c # s)"
    proof (cases "l' = []")
      case True
      with eq l' l r "4.IH"(1) show ?thesis by simp
    next
      case False
      with eq l' l r "4.IH"(2) show ?thesis by auto
    qed
  qed
qed

lemma chain_lang_start: "chain_lang v \<Longrightarrow> v = [] \<or> hd v = 109"
  by (induction rule: chain_lang.induct) simp_all

lemma not_allowed_class_m [simp]: "\<not> allowed_class 109"
  by (simp add: allowed_class_def)

lemma pattern_match_lang: "pattern_match s \<longleftrightarrow> pattern_lang s"
proof
  assume "pattern_match s"
  then show "pattern_lang s"
    unfolding pattern_match_def pattern_lang_def chain_match_letters_then_lang
    by (metis set_takeWhileD takeWhile_dropWhile_id)
next
  assume "pattern_lang s"
  then obtain u v where s: "s = u @ v" and u: "u \<noteq> []" "\<forall>c\<in>set u. allowed_class c"
    and v: "chain_lang v" unfolding pattern_lang_def by blast
  have "takeWhile allowed_class v = [] \<and> dropWhile allowed_class v = v"
    using chain_lang_start [OF v] by (cases v) auto
  with s u have "takeWhile allowed_class s = u" "dropWhile allowed_class s = v"
    by (simp_all add: takeWhile_append2 dropWhile_append2)
  with u v show "pattern_match s"
    by (simp add: pattern_match_def chain_match_letters_then_lang)
qed

subsection \<open>Properties of the filter\<close>

text \<open>
  C4: the executable matcher accepts exactly the strings of the regular expression's
  language, including Python's rule that \<open>$\<close> also matches before a final newline.
\<close>

theorem allowed_pattern_correct: "allowed_pattern_match s \<longleftrightarrow> allowed_pattern_spec s"
  by (simp add: allowed_pattern_match_def allowed_pattern_spec_def pattern_match_lang)
    (metis append_butlast_last_id butlast_snoc last_snoc snoc_eq_iff_butlast)

end
