(* ===== verification/Tokenizer.thy ===== *)
theory Tokenizer
  imports AllowList
begin

text \<open>
  The first half of \<open>ast.parse(safe_expr, mode='eval')\<close> (tools.py, line 77):
  CPython 3.11's tokenizer (Parser/tokenizer.c, \<open>tok_get\<close>) on the alphabet that the
  allow-list admits, namely the characters of \<open>allowed_class\<close> and \<open>ident_letter\<close>.
  Numbers follow \<open>tok_get\<close>'s number branch (leading zeros, fractions,
  \<open>verify_end_of_number\<close>), a dot followed by a digit starts a fraction, three dots
  are \<open>...\<close>, \<open>**\<close> and \<open>//\<close> are single operators, and parentheses are counted
  with the limit \<open>MAXLEVEL = 200\<close>. A lexical error is \<open>None\<close>; the calculator reports
  it as the \<open>SyntaxError\<close> CPython raises.

  Domain: characters outside the allow-list alphabet are rejected here; they never reach
  the tokenizer in \<open>calculator\<close>. After a number literal CPython treats \<open>e\<close>,
  \<open>E\<close>, \<open>j\<close>, \<open>J\<close> and the first letters of \<open>and\<close>, \<open>else\<close>, \<open>for\<close>,
  \<open>if\<close>, \<open>in\<close>, \<open>is\<close>, \<open>not\<close>, \<open>or\<close> specially; every other letter there is
  the error "invalid decimal literal", which is what the model does for all letters. In
  an allow-listed string the only letter that can follow a number is the \<open>m\<close> of
  \<open>math.\<close> (the chain of the pattern starts with it), so the model is exact on that
  domain.
\<close>

datatype numlit = IntLit nat | FloatLit rat

datatype token =
    TNumber numlit | TName pystr
  | TPlus | TMinus | TStar | TDoubleStar | TSlash | TDoubleSlash
  | TLPar | TRPar | TDot | TEllipsis

definition is_digit :: "nat \<Rightarrow> bool" where
  "is_digit c \<longleftrightarrow> 48 \<le> c \<and> c \<le> 57"

definition is_id_char :: "nat \<Rightarrow> bool" where
  "is_id_char c \<longleftrightarrow> ident_letter c \<or> is_digit c"

definition digits_nat :: "pystr \<Rightarrow> nat" where
  "digits_nat ds = foldl (\<lambda>n d. 10 * n + (d - 48)) 0 ds"

definition frac_rat :: "pystr \<Rightarrow> rat" where
  "frac_rat ds = of_nat (digits_nat ds) / 10 ^ length ds"

text \<open>\<open>verify_end_of_number\<close>: a literal may not run into an identifier character.\<close>

definition number_end_ok :: "pystr \<Rightarrow> bool" where
  "number_end_ok r \<longleftrightarrow> r = [] \<or> \<not> ident_letter (hd r)"

text \<open>
  The \<open>fraction:\<close> label of \<open>tok_get\<close>: \<open>ip\<close> are the digits before the dot (none
  for \<open>.5\<close>), \<open>r\<close> the text after it.
\<close>

definition lex_fraction :: "pystr \<Rightarrow> pystr \<Rightarrow> (token \<times> pystr) option" where
  "lex_fraction ip r =
     (let fp = takeWhile is_digit r; r' = dropWhile is_digit r
      in if number_end_ok r'
         then Some (TNumber (FloatLit (of_nat (digits_nat ip) + frac_rat fp)), r')
         else None)"

text \<open>
  \<open>sys.int_info.default_max_str_digits\<close>: converting between an int and its decimal
  text of more than 4300 digits raises \<open>ValueError\<close> (CPython 3.11).
\<close>

definition int_max_str_digits :: nat where
  "int_max_str_digits = 4300"

text \<open>
  A number starting with a digit: \<open>0\<close> followed by zeros only, or a decimal. An integer
  literal of more than \<open>int_max_str_digits\<close> digits is a \<open>SyntaxError\<close>: the parser's
  action for a \<open>NUMBER\<close> (\<open>parsenumber\<close>) converts the literal with
  \<open>PyLong_FromString\<close>, whose \<open>ValueError\<close> it reports as a syntax error. The model
  checks the limit where the digits are read; both are failures of \<open>ast.parse\<close>.
\<close>

definition lex_number :: "pystr \<Rightarrow> (token \<times> pystr) option" where
  "lex_number s =
     (let ip = takeWhile is_digit s; r = dropWhile is_digit s
      in if r \<noteq> [] \<and> hd r = 46 then lex_fraction ip (tl r)
         else if ip \<noteq> [] \<and> hd ip = 48 \<and> list_ex (\<lambda>d. d \<noteq> 48) ip then None
         else if \<not> number_end_ok r then None
         else if int_max_str_digits < length ip then None
         else Some (TNumber (IntLit (digits_nat ip)), r))"

text \<open>
  \<open>tokenize_from lvl s\<close>: the tokens of \<open>s\<close> at parenthesis depth \<open>lvl\<close>; at the end
  of the input every parenthesis must be closed (\<open>'(' was never closed\<close>).
\<close>

function tokenize_from :: "nat \<Rightarrow> pystr \<Rightarrow> token list option" where
  "tokenize_from lvl [] = (if lvl = 0 then Some [] else None)"
| "tokenize_from lvl (c # s) =
     (if c = 32 \<or> c = 9 then tokenize_from lvl s
      else if is_digit c then
        (case lex_number (c # s) of
           None \<Rightarrow> None
         | Some (t, r) \<Rightarrow> map_option (Cons t) (tokenize_from lvl r))
      else if c = 46 then
        (if s \<noteq> [] \<and> is_digit (hd s) then
           (case lex_fraction [] s of
              None \<Rightarrow> None
            | Some (t, r) \<Rightarrow> map_option (Cons t) (tokenize_from lvl r))
         else if take 2 s = [46, 46] then map_option (Cons TEllipsis) (tokenize_from lvl (drop 2 s))
         else map_option (Cons TDot) (tokenize_from lvl s))
      else if ident_letter c then
        map_option (Cons (TName (c # takeWhile is_id_char s)))
          (tokenize_from lvl (dropWhile is_id_char s))
      else if c = 42 then
        (if s \<noteq> [] \<and> hd s = 42 then map_option (Cons TDoubleStar) (tokenize_from lvl (tl s))
         else map_option (Cons TStar) (tokenize_from lvl s))
      else if c = 47 then
        (if s \<noteq> [] \<and> hd s = 47 then map_option (Cons TDoubleSlash) (tokenize_from lvl (tl s))
         else map_option (Cons TSlash) (tokenize_from lvl s))
      else if c = 43 then map_option (Cons TPlus) (tokenize_from lvl s)
      else if c = 45 then map_option (Cons TMinus) (tokenize_from lvl s)
      else if c = 40 then
        (if 200 \<le> lvl then None else map_option (Cons TLPar) (tokenize_from (Suc lvl) s))
      else if c = 41 then
        (if lvl = 0 then None else map_option (Cons TRPar) (tokenize_from (lvl - 1) s))
      else None)"
  by pat_completeness auto
termination
proof -
  have frac: "length r' \<le> length r" if "lex_fraction ip r = Some (t, r')" for ip r t r'
    using that by (auto simp: lex_fraction_def Let_def length_dropWhile_le split: if_splits)
  have num: "length r < length (c # s)" if "lex_number (c # s) = Some (t, r)" "is_digit c" for c s t r
  proof -
    let ?r = "dropWhile is_digit (c # s)"
    have short: "length ?r \<le> length s" using \<open>is_digit c\<close> by (simp add: length_dropWhile_le)
    show ?thesis
    proof (cases "?r \<noteq> [] \<and> hd ?r = 46")
      case True
      then have "lex_fraction (takeWhile is_digit (c # s)) (tl ?r) = Some (t, r)"
        using that(1) by (simp add: lex_number_def Let_def del: dropWhile.simps takeWhile.simps)
      then have "length r \<le> length (tl ?r)" by (rule frac)
      with short show ?thesis by simp
    next
      case False
      then have "r = ?r" using that(1)
        by (simp add: lex_number_def Let_def del: dropWhile.simps takeWhile.simps split: if_splits)
      with short show ?thesis by simp
    qed
  qed
  show ?thesis
    by (relation "measure (\<lambda>(lvl, s). length s)")
       (auto simp: length_dropWhile_le le_imp_less_Suc dest: frac num)
qed

text \<open>
  A statement may not start with white space in \<open>eval\<close> mode
  (\<open>IndentationError: unexpected indent\<close>, a \<open>SyntaxError\<close>).
\<close>

definition tokenize :: "pystr \<Rightarrow> token list option" where
  "tokenize s = (if s \<noteq> [] \<and> (hd s = 32 \<or> hd s = 9) then None else tokenize_from 0 s)"

named_theorems lexer_defs "definitions unfolded to run the tokenizer on a literal"

declare is_digit_def [lexer_defs] is_id_char_def [lexer_defs] digits_nat_def [lexer_defs]
  frac_rat_def [lexer_defs] number_end_ok_def [lexer_defs] lex_fraction_def [lexer_defs]
  lex_number_def [lexer_defs] tokenize_def [lexer_defs] ident_letter_def [lexer_defs]
  int_max_str_digits_def [lexer_defs]

end
