(* ===== verification/Parser.thy ===== *)
theory Parser
  imports Tokenizer
begin

text \<open>
  The second half of \<open>ast.parse(safe_expr, mode='eval')\<close> (tools.py, line 77):
  CPython 3.11's PEG parser (Grammar/python.gram) restricted to the tokens that
  \<open>Tokenizer\<close> produces. On these tokens the rules from \<open>expression\<close> down to
  \<open>sum\<close> (conditional expression, \<open>or\<close>, \<open>and\<close>, \<open>not\<close>, comparisons, bitwise and
  shift operators) each reduce to their last alternative, so \<open>eval: expressions
  ENDMARKER\<close> becomes \<open>sum ENDMARKER\<close>. The parsing functions follow the rules
  \<open>sum\<close>, \<open>term\<close>, \<open>factor\<close>, \<open>power\<close>, \<open>primary\<close>, \<open>atom\<close> and
  \<open>arguments\<close>; left recursion is a loop over the rest of the input, and a failed
  alternative backtracks to the tokens before it, as PEG ordered choice does.

  The AST is the fragment of CPython's \<open>ast\<close> module these rules build:
  \<open>Constant\<close>, \<open>Name\<close>, \<open>Attribute\<close>, \<open>BinOp\<close>, \<open>UnaryOp\<close>, \<open>Call\<close> with its
  positional arguments (\<open>StarArg\<close>, CPython's \<open>Starred\<close>, for \<open>f(*x)\<close>) and its \<open>**\<close> keyword values,
  and \<open>Tuple\<close> for \<open>()\<close>. A float literal keeps its exact decimal value; the
  evaluator rounds it.

  Every function takes fuel, spent one unit per call; \<open>PNoFuel\<close> is running out.
  The lemmas at the end show that \<open>parse_fuel toks\<close> units always suffice, so the
  parser never runs out and decides every token list.
\<close>

datatype unop = UAdd | USub
datatype binop = Add | Sub | Mult | Div | FloorDiv | PowOp
datatype const = CNum numlit | CEllipsis

datatype expr =
    Constant const
  | Name pystr
  | Attribute expr pystr
  | BinOp expr binop expr
  | UnaryOp unop expr
  | Call expr "callarg list" "expr list"
  | Tuple "expr list"
and callarg = Arg expr | StarArg expr

datatype 'a presult = POk 'a "token list" | PFail | PNoFuel

text \<open>The hard keywords of Python 3.11 (\<open>keyword.kwlist\<close>); they are never a \<open>NAME\<close>.\<close>

definition py_keywords :: "pystr list" where
  "py_keywords = map ustr [''False'', ''None'', ''True'', ''and'', ''as'', ''assert'',
     ''async'', ''await'', ''break'', ''class'', ''continue'', ''def'', ''del'', ''elif'',
     ''else'', ''except'', ''finally'', ''for'', ''from'', ''global'', ''if'', ''import'',
     ''in'', ''is'', ''lambda'', ''nonlocal'', ''not'', ''or'', ''pass'', ''raise'',
     ''return'', ''try'', ''while'', ''with'', ''yield'']"

definition is_keyword :: "pystr \<Rightarrow> bool" where
  "is_keyword nm \<longleftrightarrow> nm \<in> set py_keywords"

fun sum_op :: "token \<Rightarrow> binop option" where
  "sum_op TPlus = Some Add"
| "sum_op TMinus = Some Sub"
| "sum_op _ = None"

fun term_op :: "token \<Rightarrow> binop option" where
  "term_op TStar = Some Mult"
| "term_op TSlash = Some Div"
| "term_op TDoubleSlash = Some FloorDiv"
| "term_op _ = None"

fun unary_op :: "token \<Rightarrow> unop option" where
  "unary_op TPlus = Some UAdd"
| "unary_op TMinus = Some USub"
| "unary_op _ = None"

fun name_tok :: "token \<Rightarrow> pystr option" where
  "name_tok (TName nm) = Some nm"
| "name_tok _ = None"

text \<open>\<open>atom\<close> on one token: \<open>NAME\<close> (not a keyword), \<open>NUMBER\<close>, \<open>'...'\<close>.\<close>

fun atom_tok :: "token \<Rightarrow> expr option" where
  "atom_tok (TName nm) = (if is_keyword nm then None else Some (Name nm))"
| "atom_tok (TNumber l) = Some (Constant (CNum l))"
| "atom_tok TEllipsis = Some (Constant CEllipsis)"
| "atom_tok _ = None"

text \<open>
  The nonterminals of the grammar fragment; the loops of the left-recursive rules carry
  the expression parsed so far. Every nonterminal yields an expression except the call
  arguments, which yield the positional and the \<open>**\<close> arguments.
\<close>

datatype nt =
    NSum | NSumLoop expr | NTerm | NTermLoop expr | NFactor | NPower
  | NPrimary | NPrimaryLoop expr | NCallArgs | NAtom

datatype pval = PExpr expr | PArgs "callarg list" "expr list"

text \<open>Sequencing: continue with the expression a rule returned; a failure propagates.\<close>

definition then_expr :: "pval presult \<Rightarrow> (expr \<Rightarrow> token list \<Rightarrow> pval presult) \<Rightarrow> pval presult" where
  "then_expr res k =
     (case res of POk (PExpr e) r \<Rightarrow> k e r | POk (PArgs _ _) _ \<Rightarrow> PFail
      | PFail \<Rightarrow> PFail | PNoFuel \<Rightarrow> PNoFuel)"

text \<open>
  An optional continuation: when the rule after the operator fails, PEG ordered choice
  falls back to the expression before the operator (\<open>sum: sum '+' term | term\<close>).
\<close>

definition or_keep :: "pval presult \<Rightarrow> (expr \<Rightarrow> token list \<Rightarrow> pval presult) \<Rightarrow>
    pval presult \<Rightarrow> pval presult" where
  "or_keep res k fallback =
     (case res of POk (PExpr e) r \<Rightarrow> k e r | POk (PArgs _ _) _ \<Rightarrow> fallback
      | PFail \<Rightarrow> fallback | PNoFuel \<Rightarrow> PNoFuel)"

text \<open>The closing parenthesis after a parenthesised expression or a call argument.\<close>

definition close_paren :: "pval presult \<Rightarrow> (expr \<Rightarrow> pval) \<Rightarrow> pval presult" where
  "close_paren res f =
     (case res of
        POk (PExpr e) r \<Rightarrow> (if r \<noteq> [] \<and> hd r = TRPar then POk (f e) (tl r) else PFail)
      | PNoFuel \<Rightarrow> PNoFuel
      | _ \<Rightarrow> PFail)"

text \<open>
  One step of the grammar: \<open>parse_step p nt toks\<close> applies the rule of \<open>nt\<close> to
  \<open>toks\<close>, calling \<open>p\<close> for the nonterminals on its right-hand side.
\<close>

definition parse_step :: "(nt \<Rightarrow> token list \<Rightarrow> pval presult) \<Rightarrow> nt \<Rightarrow> token list \<Rightarrow> pval presult" where
  "parse_step p nt toks =
    (case nt of
       \<comment> \<open>\<open>sum: sum '+' term | sum '-' term | term\<close>\<close>
       NSum \<Rightarrow> then_expr (p NTerm toks) (\<lambda>e r. p (NSumLoop e) r)
     | NSumLoop acc \<Rightarrow>
         (case toks of
            [] \<Rightarrow> POk (PExpr acc) []
          | t # r \<Rightarrow>
              (case sum_op t of
                 None \<Rightarrow> POk (PExpr acc) toks
               | Some op \<Rightarrow> or_keep (p NTerm r)
                   (\<lambda>e r'. p (NSumLoop (BinOp acc op e)) r') (POk (PExpr acc) toks)))
       \<comment> \<open>\<open>term: term '*' factor | term '/' factor | term '//' factor | factor\<close>\<close>
     | NTerm \<Rightarrow> then_expr (p NFactor toks) (\<lambda>e r. p (NTermLoop e) r)
     | NTermLoop acc \<Rightarrow>
         (case toks of
            [] \<Rightarrow> POk (PExpr acc) []
          | t # r \<Rightarrow>
              (case term_op t of
                 None \<Rightarrow> POk (PExpr acc) toks
               | Some op \<Rightarrow> or_keep (p NFactor r)
                   (\<lambda>e r'. p (NTermLoop (BinOp acc op e)) r') (POk (PExpr acc) toks)))
       \<comment> \<open>\<open>factor: '+' factor | '-' factor | power\<close>\<close>
     | NFactor \<Rightarrow>
         (case toks of
            [] \<Rightarrow> p NPower toks
          | t # r \<Rightarrow>
              (case unary_op t of
                 None \<Rightarrow> p NPower toks
               | Some op \<Rightarrow> then_expr (p NFactor r) (\<lambda>e r'. POk (PExpr (UnaryOp op e)) r')))
       \<comment> \<open>\<open>power: await_primary '**' factor | await_primary\<close>\<close>
     | NPower \<Rightarrow>
         then_expr (p NPrimary toks) (\<lambda>e r.
           if r \<noteq> [] \<and> hd r = TDoubleStar
           then or_keep (p NFactor (tl r)) (\<lambda>e' r'. POk (PExpr (BinOp e PowOp e')) r')
                  (POk (PExpr e) r)
           else POk (PExpr e) r)
       \<comment> \<open>\<open>primary: primary '.' NAME | primary '(' [arguments] ')' | atom\<close>\<close>
     | NPrimary \<Rightarrow> then_expr (p NAtom toks) (\<lambda>e r. p (NPrimaryLoop e) r)
     | NPrimaryLoop acc \<Rightarrow>
         (case toks of
            [] \<Rightarrow> POk (PExpr acc) []
          | t # r \<Rightarrow>
              (if t = TDot then
                 (case r of
                    [] \<Rightarrow> POk (PExpr acc) toks
                  | t' # r' \<Rightarrow>
                      (case name_tok t' of
                         Some nm \<Rightarrow>
                           (if is_keyword nm then POk (PExpr acc) toks
                            else p (NPrimaryLoop (Attribute acc nm)) r')
                       | None \<Rightarrow> POk (PExpr acc) toks))
               else if t = TLPar then
                 (case p NCallArgs r of
                    POk (PArgs args kws) r' \<Rightarrow> p (NPrimaryLoop (Call acc args kws)) r'
                  | PNoFuel \<Rightarrow> PNoFuel
                  | _ \<Rightarrow> POk (PExpr acc) toks)
               else POk (PExpr acc) toks))
       \<comment> \<open>\<open>'(' [arguments] ')'\<close> after the \<open>'('\<close>: no argument, \<open>*e\<close>, \<open>**e\<close> or \<open>e\<close>\<close>
     | NCallArgs \<Rightarrow>
         (case toks of
            [] \<Rightarrow> PFail
          | t # r \<Rightarrow>
              (if t = TRPar then POk (PArgs [] []) r
               else if t = TStar then close_paren (p NSum r) (\<lambda>e. PArgs [StarArg e] [])
               else if t = TDoubleStar then close_paren (p NSum r) (\<lambda>e. PArgs [] [e])
               else close_paren (p NSum toks) (\<lambda>e. PArgs [Arg e] [])))
       \<comment> \<open>\<open>atom: NAME | NUMBER | '...' | tuple | group\<close>\<close>
     | NAtom \<Rightarrow>
         (case toks of
            [] \<Rightarrow> PFail
          | t # r \<Rightarrow>
              (if t = TLPar then
                 (if r \<noteq> [] \<and> hd r = TRPar then POk (PExpr (Tuple [])) (tl r)
                  else close_paren (p NSum r) PExpr)
               else (case atom_tok t of Some e \<Rightarrow> POk (PExpr e) r | None \<Rightarrow> PFail))))"

text \<open>The parser: the grammar step iterated with \<open>n\<close> units of fuel.\<close>

primrec parse_nt :: "nat \<Rightarrow> nt \<Rightarrow> token list \<Rightarrow> pval presult" where
  "parse_nt 0 nt toks = PNoFuel"
| "parse_nt (Suc n) nt toks = parse_step (parse_nt n) nt toks"

text \<open>Fuel enough for any token list (lemma \<open>parse_fuel_enough\<close>).\<close>

definition parse_fuel :: "token list \<Rightarrow> nat" where
  "parse_fuel toks = 10 * length toks + 8"

text \<open>\<open>eval: expressions NEWLINE* ENDMARKER\<close>: the whole token list is one expression.\<close>

definition parse_eval :: "token list \<Rightarrow> expr option" where
  "parse_eval toks =
     (case parse_nt (parse_fuel toks) NSum toks of POk (PExpr e) [] \<Rightarrow> Some e | _ \<Rightarrow> None)"

text \<open>Measures for the fuel argument of \<open>parse_fuel_enough\<close>.\<close>

fun is_loop :: "nt \<Rightarrow> bool" where
  "is_loop (NSumLoop _) = True"
| "is_loop (NTermLoop _) = True"
| "is_loop (NPrimaryLoop _) = True"
| "is_loop _ = False"

fun nt_rank :: "nt \<Rightarrow> nat" where
  "nt_rank NSum = 7" | "nt_rank (NSumLoop _) = 7" | "nt_rank NTerm = 6"
| "nt_rank (NTermLoop _) = 6" | "nt_rank NFactor = 5" | "nt_rank NPower = 4"
| "nt_rank NPrimary = 3" | "nt_rank (NPrimaryLoop _) = 9" | "nt_rank NCallArgs = 8"
| "nt_rank NAtom = 2"

definition res_ok :: "bool \<Rightarrow> token list \<Rightarrow> pval presult \<Rightarrow> bool" where
  "res_ok strict toks res \<longleftrightarrow> res \<noteq> PNoFuel \<and>
     (\<forall>v r. res = POk v r \<longrightarrow> (if strict then length r < length toks else length r \<le> length toks))"

text \<open>
  One equation per nonterminal and list shape, for proofs by induction on the fuel.
\<close>

lemma parse_nt_Suc [simp]:
  "parse_nt (Suc n) NSum toks = then_expr (parse_nt n NTerm toks) (\<lambda>e r. parse_nt n (NSumLoop e) r)"
  "parse_nt (Suc n) (NSumLoop acc) [] = POk (PExpr acc) []"
  "parse_nt (Suc n) (NSumLoop acc) (t # r) =
     (case sum_op t of
        None \<Rightarrow> POk (PExpr acc) (t # r)
      | Some op \<Rightarrow> or_keep (parse_nt n NTerm r)
          (\<lambda>e r'. parse_nt n (NSumLoop (BinOp acc op e)) r') (POk (PExpr acc) (t # r)))"
  "parse_nt (Suc n) NTerm toks = then_expr (parse_nt n NFactor toks) (\<lambda>e r. parse_nt n (NTermLoop e) r)"
  "parse_nt (Suc n) (NTermLoop acc) [] = POk (PExpr acc) []"
  "parse_nt (Suc n) (NTermLoop acc) (t # r) =
     (case term_op t of
        None \<Rightarrow> POk (PExpr acc) (t # r)
      | Some op \<Rightarrow> or_keep (parse_nt n NFactor r)
          (\<lambda>e r'. parse_nt n (NTermLoop (BinOp acc op e)) r') (POk (PExpr acc) (t # r)))"
  "parse_nt (Suc n) NFactor [] = parse_nt n NPower []"
  "parse_nt (Suc n) NFactor (t # r) =
     (case unary_op t of
        None \<Rightarrow> parse_nt n NPower (t # r)
      | Some op \<Rightarrow> then_expr (parse_nt n NFactor r) (\<lambda>e r'. POk (PExpr (UnaryOp op e)) r'))"
  "parse_nt (Suc n) NPower toks =
     then_expr (parse_nt n NPrimary toks) (\<lambda>e r.
       if r \<noteq> [] \<and> hd r = TDoubleStar
       then or_keep (parse_nt n NFactor (tl r)) (\<lambda>e' r'. POk (PExpr (BinOp e PowOp e')) r')
              (POk (PExpr e) r)
       else POk (PExpr e) r)"
  "parse_nt (Suc n) NPrimary toks = then_expr (parse_nt n NAtom toks) (\<lambda>e r. parse_nt n (NPrimaryLoop e) r)"
  "parse_nt (Suc n) (NPrimaryLoop acc) [] = POk (PExpr acc) []"
  "parse_nt (Suc n) (NPrimaryLoop acc) (t # r) =
     (if t = TDot then
        (case r of
           [] \<Rightarrow> POk (PExpr acc) (t # r)
         | t' # r' \<Rightarrow>
             (case name_tok t' of
                Some nm \<Rightarrow>
                  (if is_keyword nm then POk (PExpr acc) (t # r)
                   else parse_nt n (NPrimaryLoop (Attribute acc nm)) r')
              | None \<Rightarrow> POk (PExpr acc) (t # r)))
      else if t = TLPar then
        (case parse_nt n NCallArgs r of
           POk (PArgs args kws) r' \<Rightarrow> parse_nt n (NPrimaryLoop (Call acc args kws)) r'
         | PNoFuel \<Rightarrow> PNoFuel
         | _ \<Rightarrow> POk (PExpr acc) (t # r))
      else POk (PExpr acc) (t # r))"
  "parse_nt (Suc n) NCallArgs [] = PFail"
  "parse_nt (Suc n) NCallArgs (t # r) =
     (if t = TRPar then POk (PArgs [] []) r
      else if t = TStar then close_paren (parse_nt n NSum r) (\<lambda>e. PArgs [StarArg e] [])
      else if t = TDoubleStar then close_paren (parse_nt n NSum r) (\<lambda>e. PArgs [] [e])
      else close_paren (parse_nt n NSum (t # r)) (\<lambda>e. PArgs [Arg e] []))"
  "parse_nt (Suc n) NAtom [] = PFail"
  "parse_nt (Suc n) NAtom (t # r) =
     (if t = TLPar then
        (if r \<noteq> [] \<and> hd r = TRPar then POk (PExpr (Tuple [])) (tl r)
         else close_paren (parse_nt n NSum r) PExpr)
      else (case atom_tok t of Some e \<Rightarrow> POk (PExpr e) r | None \<Rightarrow> PFail))"
  by (simp_all add: parse_step_def)

declare parse_nt.simps(2) [simp del]

text \<open>
  Running the parser on a literal token list: the fuel is a numeral, so one unit is
  taken off by subtraction, and the sequencing combinators are evaluated on their first
  argument before their continuation is looked at (the congruence rules), so that only
  the alternatives that are taken get unfolded.
\<close>

lemma parse_nt_pos: "0 < n \<Longrightarrow> parse_nt n nt toks = parse_step (parse_nt (n - 1)) nt toks"
  by (cases n) (simp_all add: parse_nt.simps(2))

lemma then_expr_cong [cong]: "res = res' \<Longrightarrow> then_expr res k = then_expr res' k"
  by simp

lemma or_keep_cong [cong]: "res = res' \<Longrightarrow> or_keep res k fb = or_keep res' k fb"
  by simp

lemma close_paren_cong [cong]: "res = res' \<Longrightarrow> close_paren res f = close_paren res' f"
  by simp

lemma combinator_simps [simp]:
  "then_expr (POk (PExpr e) r) k = k e r" "then_expr (POk (PArgs a b) r) k = PFail"
  "then_expr PFail k = PFail" "then_expr PNoFuel k = PNoFuel"
  "or_keep (POk (PExpr e) r) k fb = k e r" "or_keep (POk (PArgs a b) r) k fb = fb"
  "or_keep PFail k fb = fb" "or_keep PNoFuel k fb = PNoFuel"
  "close_paren (POk (PExpr e) r) f = (if r \<noteq> [] \<and> hd r = TRPar then POk (f e) (tl r) else PFail)"
  "close_paren (POk (PArgs a b) r) f = PFail"
  "close_paren PFail f = PFail" "close_paren PNoFuel f = PNoFuel"
  by (simp_all add: then_expr_def or_keep_def close_paren_def)

lemmas parse_run = parse_nt_pos parse_step_def parse_eval_def parse_fuel_def
  is_keyword_def py_keywords_def

lemmas parse_run_congs = presult.case_cong_weak pval.case_cong_weak option.case_cong_weak
  list.case_cong_weak nt.case_cong_weak

subsection \<open>Fuel adequacy\<close>

text \<open>
  Every call either consumes a token or descends one level from \<open>sum\<close> towards
  \<open>atom\<close>, so \<open>10 * length toks + nt_rank nt\<close> bounds the depth of the calls from
  \<open>parse_nt _ nt toks\<close>. \<open>res_ok\<close> says a run neither ran out of fuel nor grew its
  input; the loops may consume nothing, every other nonterminal consumes a token.
\<close>

lemma res_ok_PFail [simp]: "res_ok s toks PFail"
  by (simp add: res_ok_def)

lemma res_ok_POk [simp]:
  "res_ok s toks (POk v r) \<longleftrightarrow> (if s then length r < length toks else length r \<le> length toks)"
  by (simp add: res_ok_def)

lemma res_ok_strict: "res_ok s r x \<Longrightarrow> length r < length toks \<Longrightarrow> res_ok s' toks x"
  by (cases x) (auto simp: res_ok_def split: if_splits)

lemma res_ok_loop: "res_ok s r x \<Longrightarrow> length r \<le> length toks \<Longrightarrow> res_ok False toks x"
  by (cases x) (auto simp: res_ok_def split: if_splits)

lemma res_ok_True: "res_ok True r x \<Longrightarrow> length r \<le> length toks \<Longrightarrow> res_ok s toks x"
  by (cases x) (auto simp: res_ok_def split: if_splits)

lemma then_expr_ok:
  assumes "res_ok True toks res"
    and "\<And>e r. res = POk (PExpr e) r \<Longrightarrow> length r < length toks \<Longrightarrow> res_ok s toks (k e r)"
  shows "res_ok s toks (then_expr res k)"
  using assms by (auto simp: then_expr_def res_ok_def split: presult.splits pval.splits)

lemma or_keep_ok:
  assumes "res_ok True rs res" "length rs < length toks"
    and "\<And>e r. res = POk (PExpr e) r \<Longrightarrow> length r < length rs \<Longrightarrow> res_ok s toks (k e r)"
    and "res_ok s toks fb"
  shows "res_ok s toks (or_keep res k fb)"
  using assms by (auto simp: or_keep_def res_ok_def split: presult.splits pval.splits)

lemma close_paren_ok:
  assumes "res_ok s rs res" "length rs \<le> length toks"
  shows "res_ok True toks (close_paren res f)"
proof (cases res)
  case (POk v r)
  with assms show ?thesis by (cases r) (auto simp: close_paren_def split: pval.splits if_splits)
qed (use assms in \<open>auto simp: close_paren_def res_ok_def\<close>)

lemma parse_nt_fuel:
  "10 * length toks + nt_rank nt < n \<Longrightarrow> res_ok (\<not> is_loop nt) toks (parse_nt n nt toks)"
proof (induction n arbitrary: nt toks)
  case 0
  then show ?case by simp
next
  case (Suc n)
  note IH = Suc.IH and fuel = Suc.prems
  show ?case
  proof (cases nt)
    case NSum
    have "res_ok True toks (parse_nt n NTerm toks)" using IH [of toks NTerm] fuel NSum by simp
    moreover have "res_ok True toks (parse_nt n (NSumLoop e) r)" if "length r < length toks" for e r
      using IH [of r "NSumLoop e"] fuel NSum that by (auto intro: res_ok_strict)
    ultimately show ?thesis using NSum by (auto intro: then_expr_ok)
  next
    case (NSumLoop acc)
    show ?thesis
    proof (cases toks)
      case (Cons t r)
      have "res_ok True r (parse_nt n NTerm r)" using IH [of r NTerm] fuel NSumLoop Cons by simp
      moreover have "res_ok False toks (parse_nt n (NSumLoop a) r')" if "length r' < length r" for a r'
        using IH [of r' "NSumLoop a"] fuel NSumLoop Cons that by (auto intro: res_ok_loop)
      ultimately show ?thesis using NSumLoop Cons
        by (auto intro!: or_keep_ok split: option.splits)
    qed (simp add: NSumLoop)
  next
    case NTerm
    have "res_ok True toks (parse_nt n NFactor toks)" using IH [of toks NFactor] fuel NTerm by simp
    moreover have "res_ok True toks (parse_nt n (NTermLoop e) r)" if "length r < length toks" for e r
      using IH [of r "NTermLoop e"] fuel NTerm that by (auto intro: res_ok_strict)
    ultimately show ?thesis using NTerm by (auto intro: then_expr_ok)
  next
    case (NTermLoop acc)
    show ?thesis
    proof (cases toks)
      case (Cons t r)
      have "res_ok True r (parse_nt n NFactor r)" using IH [of r NFactor] fuel NTermLoop Cons by simp
      moreover have "res_ok False toks (parse_nt n (NTermLoop a) r')" if "length r' < length r" for a r'
        using IH [of r' "NTermLoop a"] fuel NTermLoop Cons that by (auto intro: res_ok_loop)
      ultimately show ?thesis using NTermLoop Cons
        by (auto intro!: or_keep_ok split: option.splits)
    qed (simp add: NTermLoop)
  next
    case NFactor
    have pow: "res_ok True toks (parse_nt n NPower toks)" using IH [of toks NPower] fuel NFactor by simp
    show ?thesis
    proof (cases toks)
      case (Cons t r)
      have "res_ok True r (parse_nt n NFactor r)" using IH [of r NFactor] fuel NFactor Cons by simp
      then have "res_ok True toks (parse_nt n NFactor r)" using Cons by (auto intro: res_ok_True)
      with pow show ?thesis using NFactor Cons by (auto intro!: then_expr_ok split: option.splits)
    qed (insert pow, simp add: NFactor)
  next
    case NPower
    have prim: "res_ok True toks (parse_nt n NPrimary toks)"
      using IH [of toks NPrimary] fuel NPower by simp
    have fac: "res_ok True r' (parse_nt n NFactor r')" if "length r' < length toks" for r'
      using IH [of r' NFactor] fuel NPower that by simp
    show ?thesis unfolding NPower parse_nt.simps parse_step_def nt.case is_loop.simps simp_thms
    proof (rule then_expr_ok [OF prim])
      fix e and r :: "token list"
      assume r: "length r < length toks"
      show "res_ok True toks (if r \<noteq> [] \<and> hd r = TDoubleStar
          then or_keep (parse_nt n NFactor (tl r)) (\<lambda>e' r'. POk (PExpr (BinOp e PowOp e')) r')
                 (POk (PExpr e) r)
          else POk (PExpr e) r)"
      proof (cases "r \<noteq> [] \<and> hd r = TDoubleStar")
        case True
        then have "length (tl r) < length toks" using r by (cases r) auto
        have "res_ok True toks (or_keep (parse_nt n NFactor (tl r))
            (\<lambda>e' r'. POk (PExpr (BinOp e PowOp e')) r') (POk (PExpr e) r))"
          by (rule or_keep_ok [where rs = "tl r"]) (use fac r \<open>length (tl r) < length toks\<close> in auto)
        with True show ?thesis by simp
      qed (use r in auto)
    qed
  next
    case NPrimary
    have "res_ok True toks (parse_nt n NAtom toks)" using IH [of toks NAtom] fuel NPrimary by simp
    moreover have "res_ok True toks (parse_nt n (NPrimaryLoop e) r)" if "length r < length toks" for e r
      using IH [of r "NPrimaryLoop e"] fuel NPrimary that by (auto intro: res_ok_strict)
    ultimately show ?thesis using NPrimary by (auto intro: then_expr_ok)
  next
    case (NPrimaryLoop acc)
    show ?thesis
    proof (cases toks)
      case (Cons t r)
      have attr: "res_ok False toks (parse_nt n (NPrimaryLoop a) r')"
        if "r = t' # r'" for a t' r'
        using IH [of r' "NPrimaryLoop a"] fuel NPrimaryLoop Cons that by (auto intro: res_ok_loop)
      have args: "res_ok True r (parse_nt n NCallArgs r)"
        using IH [of r NCallArgs] fuel NPrimaryLoop Cons by simp
      have call: "res_ok False toks (parse_nt n (NPrimaryLoop a) r')"
        if "length r' < length r" for a r'
        using IH [of r' "NPrimaryLoop a"] fuel NPrimaryLoop Cons that by (auto intro: res_ok_loop)
      show ?thesis
      proof (cases "t = TDot")
        case True
        then show ?thesis using NPrimaryLoop Cons attr
          by (auto split: list.splits option.splits)
      next
        case False
        then show ?thesis using NPrimaryLoop Cons args call
          by (auto simp: res_ok_def split: presult.splits pval.splits)
      qed
    qed (simp add: NPrimaryLoop)
  next
    case NCallArgs
    show ?thesis
    proof (cases toks)
      case (Cons t r)
      have inner: "res_ok True r (parse_nt n NSum r)"
        using IH [of r NSum] fuel NCallArgs Cons by simp
      have whole: "res_ok True toks (parse_nt n NSum toks)"
        using IH [of toks NSum] fuel NCallArgs by simp
      show ?thesis using NCallArgs Cons close_paren_ok [OF inner] close_paren_ok [OF whole]
        by simp
    qed (simp add: NCallArgs)
  next
    case NAtom
    show ?thesis
    proof (cases toks)
      case (Cons t r)
      have inner: "res_ok True r (parse_nt n NSum r)"
        using IH [of r NSum] fuel NAtom Cons by simp
      show ?thesis using NAtom Cons close_paren_ok [OF inner]
        by (auto split: option.splits)
    qed (simp add: NAtom)
  qed
qed

text \<open>
  C9: the parser terminates on every token list: with \<open>parse_fuel toks\<close> units of
  fuel it never runs out, so \<open>parse_eval\<close> decides every input.
\<close>

theorem parse_fuel_enough: "parse_nt (parse_fuel toks) NSum toks \<noteq> PNoFuel"
  using parse_nt_fuel [of toks NSum "parse_fuel toks"] by (simp add: parse_fuel_def res_ok_def)

end
