(* ===== verification/Eval.thy ===== *)
theory Eval
  imports Parser
begin

text \<open>
  \<open>eval(safe_expr, {"__builtins__": None}, allowed_context)\<close> (tools.py, lines 82--91):
  CPython 3.11's evaluation of the AST that \<open>Parser\<close> builds. The context is
  \<open>allowed_context\<close> (names \<open>math\<close>, \<open>abs\<close>, \<open>pow\<close>, \<open>sqrt\<close>, \<open>sin\<close>, \<open>cos\<close>,
  \<open>log\<close>) in front of the globals \<open>{"__builtins__": None}\<close>: a name found in neither
  is looked up in \<open>None\<close>, which raises \<open>TypeError\<close> ("'NoneType' object is not
  subscriptable"), not \<open>NameError\<close>.

  Values are Python's \<open>int\<close> (unbounded, \<open>int\<close>), \<open>float\<close>, \<open>complex\<close>, \<open>str\<close>,
  \<open>tuple\<close>, \<open>Ellipsis\<close>, \<open>None\<close>, the module \<open>math\<close>, callables and other objects
  (the dictionaries and the module spec that \<open>math\<close>'s attributes reach). The binary
  and unary operators follow CPython's number protocol: integer arithmetic is exact,
  \<open>//\<close> floors, \<open>/\<close> of two integers is a correctly rounded float, a negative integer
  power goes through \<open>float_pow\<close>, a mixed operation converts its integer operand
  (\<open>OverflowError\<close> when it is too large), \<open>complex\<close> has no \<open>//\<close>, sequences
  concatenate and repeat with the \<open>Py_ssize_t\<close> limits.

  IEEE double arithmetic itself is a parameter: the record \<open>float_ops\<close> names the
  primitive operations of \<open>Objects/floatobject.c\<close> and \<open>complexobject.c\<close> that the
  operators call, and every lemma holds for any implementation of it. The evaluator
  returns \<open>Val v\<close>, \<open>Raise e\<close> for a Python exception, or \<open>Outside w\<close> where it would
  leave the modelled fragment of Python: calling a callable, or an attribute of a value
  other than the module whose name does not end in \<open>math\<close>. The theorems of
  \<open>Calculator\<close> show that no allow-listed input ever gets there.
\<close>

datatype py_exc =
    ZeroDivisionError | TypeError | AttributeError | OverflowError | MemoryError | NameError
  | ValueError

datatype 'a eres = Raise py_exc | Val 'a | Outside pystr

definition ebind :: "'a eres \<Rightarrow> ('a \<Rightarrow> 'b eres) \<Rightarrow> 'b eres" where
  "ebind r k = (case r of Raise e \<Rightarrow> Raise e | Val v \<Rightarrow> k v | Outside w \<Rightarrow> Outside w)"

definition of_option :: "py_exc \<Rightarrow> 'a option \<Rightarrow> 'a eres" where
  "of_option e x = (case x of None \<Rightarrow> Raise e | Some v \<Rightarrow> Val v)"

subsection \<open>The float primitives\<close>

text \<open>
  The errors the float and complex power routines report: \<open>ZeroDivisionError\<close> for a
  zero base with a negative (or complex) exponent, \<open>OverflowError\<close> for a result out
  of range.
\<close>

datatype arith_err = ArithZeroDiv | ArithOverflow

fun exc_of_arith :: "arith_err \<Rightarrow> py_exc" where
  "exc_of_arith ArithZeroDiv = ZeroDivisionError"
| "exc_of_arith ArithOverflow = OverflowError"

datatype 'f fpow = FPowOk 'f | FPowErr arith_err | FPowComplex

record 'f float_ops =
  fl_lit :: "rat \<Rightarrow> 'f"                 \<comment> \<open>the double of a decimal literal\<close>
  fl_of_int :: "int \<Rightarrow> 'f option"        \<comment> \<open>\<open>PyLong_AsDouble\<close>; None: OverflowError\<close>
  fl_int_div :: "int \<Rightarrow> int \<Rightarrow> 'f option" \<comment> \<open>\<open>long_true_divide\<close>, divisor \<open>\<noteq> 0\<close>\<close>
  fl_add :: "'f \<Rightarrow> 'f \<Rightarrow> 'f"
  fl_sub :: "'f \<Rightarrow> 'f \<Rightarrow> 'f"
  fl_mul :: "'f \<Rightarrow> 'f \<Rightarrow> 'f"
  fl_div :: "'f \<Rightarrow> 'f \<Rightarrow> 'f"              \<comment> \<open>divisor not zero\<close>
  fl_floordiv :: "'f \<Rightarrow> 'f \<Rightarrow> 'f"         \<comment> \<open>\<open>float_floor_div\<close>, divisor not zero\<close>
  fl_neg :: "'f \<Rightarrow> 'f"
  fl_is_zero :: "'f \<Rightarrow> bool"
  fl_pow :: "'f \<Rightarrow> 'f \<Rightarrow> 'f fpow"           \<comment> \<open>\<open>float_pow\<close>\<close>
  cx_div :: "'f \<times> 'f \<Rightarrow> 'f \<times> 'f \<Rightarrow> 'f \<times> 'f"  \<comment> \<open>\<open>_Py_c_quot\<close>, divisor not zero\<close>
  cx_pow :: "'f \<times> 'f \<Rightarrow> 'f \<times> 'f \<Rightarrow> arith_err + 'f \<times> 'f" \<comment> \<open>\<open>complex_pow\<close>\<close>
  fl_const :: "pystr \<Rightarrow> 'f"              \<comment> \<open>\<open>math.pi\<close>, \<open>e\<close>, \<open>tau\<close>, \<open>inf\<close>, \<open>nan\<close>\<close>

subsection \<open>Values\<close>

datatype 'f pyval =
    PInt int | PFloat 'f | PComplex 'f 'f | PStr pystr | PTuple "'f pyval list"
  | PEllipsis | PNone | PModule pystr | PCallable pystr | PObject pystr

datatype 'f pynum = NInt int | NFloat 'f | NComplex 'f 'f

fun as_num :: "'f pyval \<Rightarrow> 'f pynum option" where
  "as_num (PInt i) = Some (NInt i)"
| "as_num (PFloat x) = Some (NFloat x)"
| "as_num (PComplex a b) = Some (NComplex a b)"
| "as_num _ = None"

fun is_complex :: "'f pynum \<Rightarrow> bool" where
  "is_complex (NComplex _ _) = True"
| "is_complex _ = False"

text \<open>\<open>CONVERT_TO_DOUBLE\<close> and \<open>TO_COMPLEX\<close>: an int operand becomes a float.\<close>

fun to_float :: "'f float_ops \<Rightarrow> 'f pynum \<Rightarrow> 'f eres" where
  "to_float ops (NInt i) = of_option OverflowError (fl_of_int ops i)"
| "to_float ops (NFloat x) = Val x"
| "to_float ops (NComplex a b) = Raise TypeError"

fun to_complex :: "'f float_ops \<Rightarrow> 'f pynum \<Rightarrow> ('f \<times> 'f) eres" where
  "to_complex ops (NInt i) = ebind (of_option OverflowError (fl_of_int ops i)) (\<lambda>x. Val (x, fl_lit ops 0))"
| "to_complex ops (NFloat x) = Val (x, fl_lit ops 0)"
| "to_complex ops (NComplex a b) = Val (a, b)"

subsection \<open>Arithmetic\<close>

definition complex_pow :: "'f float_ops \<Rightarrow> 'f \<times> 'f \<Rightarrow> 'f \<times> 'f \<Rightarrow> 'f pyval eres" where
  "complex_pow ops p q = (case cx_pow ops p q of Inl e \<Rightarrow> Raise (exc_of_arith e) | Inr (a, b) \<Rightarrow> Val (PComplex a b))"

text \<open>\<open>float_pow\<close>: a negative base with a non-integral exponent gives a complex power.\<close>

definition float_pow :: "'f float_ops \<Rightarrow> 'f \<Rightarrow> 'f \<Rightarrow> 'f pyval eres" where
  "float_pow ops x y =
     (case fl_pow ops x y of
        FPowOk z \<Rightarrow> Val (PFloat z)
      | FPowErr e \<Rightarrow> Raise (exc_of_arith e)
      | FPowComplex \<Rightarrow> complex_pow ops (x, fl_lit ops 0) (y, fl_lit ops 0))"

text \<open>\<open>long_add\<close>, \<open>long_sub\<close>, \<open>long_mul\<close>, \<open>long_true_divide\<close>, \<open>long_div\<close>, \<open>long_pow\<close>.\<close>

fun arith_int :: "'f float_ops \<Rightarrow> binop \<Rightarrow> int \<Rightarrow> int \<Rightarrow> 'f pyval eres" where
  "arith_int ops Add a b = Val (PInt (a + b))"
| "arith_int ops Sub a b = Val (PInt (a - b))"
| "arith_int ops Mult a b = Val (PInt (a * b))"
| "arith_int ops Div a b =
     (if b = 0 then Raise ZeroDivisionError
      else ebind (of_option OverflowError (fl_int_div ops a b)) (\<lambda>x. Val (PFloat x)))"
| "arith_int ops FloorDiv a b = (if b = 0 then Raise ZeroDivisionError else Val (PInt (a div b)))"
| "arith_int ops PowOp a b =
     (if 0 \<le> b then Val (PInt (a ^ nat b))
      else ebind (to_float ops (NInt a)) (\<lambda>x. ebind (to_float ops (NInt b)) (\<lambda>y. float_pow ops x y)))"

text \<open>\<open>float_add\<close>, \<open>float_sub\<close>, \<open>float_mul\<close>, \<open>float_div\<close>, \<open>float_floor_div\<close>, \<open>float_pow\<close>.\<close>

fun arith_float :: "'f float_ops \<Rightarrow> binop \<Rightarrow> 'f \<Rightarrow> 'f \<Rightarrow> 'f pyval eres" where
  "arith_float ops Add x y = Val (PFloat (fl_add ops x y))"
| "arith_float ops Sub x y = Val (PFloat (fl_sub ops x y))"
| "arith_float ops Mult x y = Val (PFloat (fl_mul ops x y))"
| "arith_float ops Div x y =
     (if fl_is_zero ops y then Raise ZeroDivisionError else Val (PFloat (fl_div ops x y)))"
| "arith_float ops FloorDiv x y =
     (if fl_is_zero ops y then Raise ZeroDivisionError else Val (PFloat (fl_floordiv ops x y)))"
| "arith_float ops PowOp x y = float_pow ops x y"

text \<open>\<open>_Py_c_sum\<close>, \<open>_Py_c_diff\<close>, \<open>_Py_c_prod\<close>, \<open>complex_div\<close>, \<open>complex_pow\<close>.\<close>

fun arith_complex :: "'f float_ops \<Rightarrow> binop \<Rightarrow> 'f \<times> 'f \<Rightarrow> 'f \<times> 'f \<Rightarrow> 'f pyval eres" where
  "arith_complex ops Add (a, b) (c, d) = Val (PComplex (fl_add ops a c) (fl_add ops b d))"
| "arith_complex ops Sub (a, b) (c, d) = Val (PComplex (fl_sub ops a c) (fl_sub ops b d))"
| "arith_complex ops Mult (a, b) (c, d) =
     Val (PComplex (fl_sub ops (fl_mul ops a c) (fl_mul ops b d))
                   (fl_add ops (fl_mul ops a d) (fl_mul ops b c)))"
| "arith_complex ops Div p (c, d) =
     (if fl_is_zero ops c \<and> fl_is_zero ops d then Raise ZeroDivisionError
      else (case cx_div ops p (c, d) of (x, y) \<Rightarrow> Val (PComplex x y)))"
| "arith_complex ops FloorDiv p q = Raise TypeError"
| "arith_complex ops PowOp p q = complex_pow ops p q"

text \<open>
  Mixed operands: the int operand is converted, left before right; \<open>//\<close> with a complex
  operand has no implementation at all, so it fails before any conversion.
\<close>

definition arith_num :: "'f float_ops \<Rightarrow> binop \<Rightarrow> 'f pynum \<Rightarrow> 'f pynum \<Rightarrow> 'f pyval eres" where
  "arith_num ops op a b =
     (case (a, b) of
        (NInt i, NInt j) \<Rightarrow> arith_int ops op i j
      | _ \<Rightarrow>
          if is_complex a \<or> is_complex b then
            (if op = FloorDiv then Raise TypeError
             else ebind (to_complex ops a) (\<lambda>p. ebind (to_complex ops b) (\<lambda>q. arith_complex ops op p q)))
          else ebind (to_float ops a) (\<lambda>x. ebind (to_float ops b) (\<lambda>y. arith_float ops op x y)))"

subsection \<open>Sequences\<close>

text \<open>\<open>PY_SSIZE_T_MAX\<close> on a 64-bit build.\<close>

definition ssize_max :: int where
  "ssize_max = 2 ^ 63 - 1"

text \<open>
  \<open>sequence_repeat\<close>: the count goes through \<open>PyNumber_AsSsize_t(n, OverflowError)\<close>;
  \<open>unicode_repeat\<close> raises \<open>OverflowError\<close>, \<open>tuplerepeat\<close> \<open>MemoryError\<close> when the
  result would be longer than \<open>PY_SSIZE_T_MAX\<close>.
\<close>

definition str_repeat :: "pystr \<Rightarrow> int \<Rightarrow> 'f pyval eres" where
  "str_repeat s n =
     (if n < - ssize_max - 1 \<or> ssize_max < n then Raise OverflowError
      else if s \<noteq> [] \<and> ssize_max div int (length s) < n then Raise OverflowError
      else Val (PStr (concat (replicate (nat n) s))))"

definition tuple_repeat :: "'f pyval list \<Rightarrow> int \<Rightarrow> 'f pyval eres" where
  "tuple_repeat t n =
     (if n < - ssize_max - 1 \<or> ssize_max < n then Raise OverflowError
      else if t \<noteq> [] \<and> ssize_max div int (length t) < n then Raise MemoryError
      else Val (PTuple (concat (replicate (nat n) t))))"

fun as_str :: "'f pyval \<Rightarrow> pystr option" where
  "as_str (PStr s) = Some s"
| "as_str _ = None"

fun as_tuple :: "'f pyval \<Rightarrow> 'f pyval list option" where
  "as_tuple (PTuple t) = Some t"
| "as_tuple _ = None"

fun as_int :: "'f pyval \<Rightarrow> int option" where
  "as_int (PInt i) = Some i"
| "as_int _ = None"

text \<open>
  The sequence slots: \<open>sq_concat\<close> for \<open>+\<close> of two strings or two tuples,
  \<open>sq_repeat\<close> for \<open>*\<close> of a sequence and an int in either order.
\<close>

definition seq_repeat :: "'f pyval \<Rightarrow> int \<Rightarrow> 'f pyval eres" where
  "seq_repeat v n =
     (case v of PStr s \<Rightarrow> str_repeat s n | PTuple t \<Rightarrow> tuple_repeat t n | _ \<Rightarrow> Raise TypeError)"

definition seq_op :: "binop \<Rightarrow> 'f pyval \<Rightarrow> 'f pyval \<Rightarrow> 'f pyval eres" where
  "seq_op op v w =
     (if op = Add then
        (case (as_str v, as_str w) of
           (Some s, Some t) \<Rightarrow> Val (PStr (s @ t))
         | _ \<Rightarrow> (case (as_tuple v, as_tuple w) of
                  (Some s, Some t) \<Rightarrow> Val (PTuple (s @ t))
                | _ \<Rightarrow> Raise TypeError))
      else if op = Mult then
        (case (as_int v, as_int w) of
           (None, Some n) \<Rightarrow> seq_repeat v n
         | (Some n, None) \<Rightarrow> seq_repeat w n
         | _ \<Rightarrow> Raise TypeError)
      else Raise TypeError)"

text \<open>\<open>PyNumber_Add\<close> and its kin: numbers first, then the sequence slots.\<close>

definition binop_val :: "'f float_ops \<Rightarrow> binop \<Rightarrow> 'f pyval \<Rightarrow> 'f pyval \<Rightarrow> 'f pyval eres" where
  "binop_val ops op v w =
     (case (as_num v, as_num w) of
        (Some a, Some b) \<Rightarrow> arith_num ops op a b
      | _ \<Rightarrow> seq_op op v w)"

text \<open>\<open>long_pos\<close>, \<open>long_neg\<close>, \<open>float_pos\<close>, \<open>float_neg\<close>, \<open>complex_pos\<close>, \<open>complex_neg\<close>.\<close>

fun unop_val :: "'f float_ops \<Rightarrow> unop \<Rightarrow> 'f pyval \<Rightarrow> 'f pyval eres" where
  "unop_val ops UAdd (PInt i) = Val (PInt i)"
| "unop_val ops USub (PInt i) = Val (PInt (- i))"
| "unop_val ops UAdd (PFloat x) = Val (PFloat x)"
| "unop_val ops USub (PFloat x) = Val (PFloat (fl_neg ops x))"
| "unop_val ops UAdd (PComplex a b) = Val (PComplex a b)"
| "unop_val ops USub (PComplex a b) = Val (PComplex (fl_neg ops a) (fl_neg ops b))"
| "unop_val ops _ _ = Raise TypeError"

subsection \<open>Names and attributes\<close>

text \<open>\<open>allowed_context\<close> of tools.py, lines 82--90.\<close>

definition allowed_context :: "(pystr \<times> 'f pyval) list" where
  "allowed_context =
     [(ustr ''math'', PModule (ustr ''math'')), (ustr ''abs'', PCallable (ustr ''abs'')),
      (ustr ''pow'', PCallable (ustr ''pow'')), (ustr ''sqrt'', PCallable (ustr ''sqrt'')),
      (ustr ''sin'', PCallable (ustr ''sin'')), (ustr ''cos'', PCallable (ustr ''cos'')),
      (ustr ''log'', PCallable (ustr ''log''))]"

text \<open>
  \<open>LOAD_NAME\<close>: the locals, then the globals \<open>{"__builtins__": None}\<close>, then
  \<open>None[name]\<close>, which raises \<open>TypeError\<close>.
\<close>

definition lookup_name :: "pystr \<Rightarrow> 'f pyval eres" where
  "lookup_name nm =
     (case map_of allowed_context nm of
        Some v \<Rightarrow> Val v
      | None \<Rightarrow> if nm = ustr ''__builtins__'' then Val PNone else Raise TypeError)"

text \<open>The functions of CPython 3.11's \<open>math\<close> module (\<open>dir(math)\<close>).\<close>

definition math_functions :: "pystr list" where
  "math_functions = map ustr [''acos'', ''acosh'', ''asin'', ''asinh'', ''atan'', ''atan2'',
     ''atanh'', ''cbrt'', ''ceil'', ''comb'', ''copysign'', ''cos'', ''cosh'', ''degrees'',
     ''dist'', ''erf'', ''erfc'', ''exp'', ''exp2'', ''expm1'', ''fabs'', ''factorial'',
     ''floor'', ''fmod'', ''frexp'', ''fsum'', ''gamma'', ''gcd'', ''hypot'', ''isclose'',
     ''isfinite'', ''isinf'', ''isnan'', ''isqrt'', ''lcm'', ''ldexp'', ''lgamma'', ''log'',
     ''log10'', ''log1p'', ''log2'', ''modf'', ''nextafter'', ''perm'', ''pow'', ''prod'',
     ''radians'', ''remainder'', ''sin'', ''sinh'', ''sqrt'', ''tan'', ''tanh'', ''trunc'',
     ''ulp'']"

definition math_constants :: "pystr list" where
  "math_constants = map ustr [''e'', ''inf'', ''nan'', ''pi'', ''tau'']"

definition math_doc :: pystr where
  "math_doc = ustr ''This module provides access to the mathematical functions'' @ [10] @
     ustr ''defined by the C standard.''"

text \<open>
  The module's data attributes and the methods it inherits from \<open>module\<close>, for a
  CPython whose \<open>math\<close> is built into the interpreter (\<open>__loader__\<close> is
  \<open>BuiltinImporter\<close>, there is no \<open>__file__\<close>). On a build where \<open>math\<close> is an
  extension module (\<open>lib-dynload\<close>), \<open>math.__file__\<close> is a string and the loader is an
  \<open>ExtensionFileLoader\<close>; \<open>math.__file__\<close> then evaluates to that string where the
  model raises \<open>AttributeError\<close>. No theorem depends on this table beyond the fact that
  none of its names ends in \<open>math\<close>.
\<close>

definition math_dunders :: "(pystr \<times> 'f pyval) list" where
  "math_dunders =
     [(ustr ''__name__'', PStr (ustr ''math'')), (ustr ''__doc__'', PStr math_doc),
      (ustr ''__package__'', PStr []), (ustr ''__annotations__'', PObject (ustr ''dict'')),
      (ustr ''__dict__'', PObject (ustr ''dict'')), (ustr ''__spec__'', PObject (ustr ''ModuleSpec'')),
      (ustr ''__loader__'', PCallable (ustr ''BuiltinImporter'')),
      (ustr ''__class__'', PCallable (ustr ''module''))] @
     map (\<lambda>m. (m, PCallable m)) (map ustr [''__delattr__'', ''__dir__'', ''__eq__'',
       ''__format__'', ''__ge__'', ''__getattribute__'', ''__getstate__'', ''__gt__'',
       ''__hash__'', ''__init__'', ''__init_subclass__'', ''__le__'', ''__lt__'', ''__ne__'',
       ''__new__'', ''__reduce__'', ''__reduce_ex__'', ''__repr__'', ''__setattr__'',
       ''__sizeof__'', ''__str__'', ''__subclasshook__''])"

definition math_attr :: "'f float_ops \<Rightarrow> pystr \<Rightarrow> 'f pyval eres" where
  "math_attr ops nm =
     (if nm \<in> set math_constants then Val (PFloat (fl_const ops nm))
      else if nm \<in> set math_functions then Val (PCallable nm)
      else case map_of math_dunders nm of Some v \<Rightarrow> Val v | None \<Rightarrow> Raise AttributeError)"

text \<open>
  \<open>PyObject_GetAttr\<close>. The model knows the attribute table of the module \<open>math\<close>;
  of every other value it knows that no attribute name ends in \<open>math\<close> (true of
  every built-in type that \<open>math\<close> and the operators produce). Any other attribute
  of another value leaves the model.
\<close>

definition getattr_val :: "'f float_ops \<Rightarrow> 'f pyval \<Rightarrow> pystr \<Rightarrow> 'f pyval eres" where
  "getattr_val ops v nm =
     (case v of
        PModule m \<Rightarrow> (if m = ustr ''math'' then math_attr ops nm else Outside (ustr ''module''))
      | _ \<Rightarrow> if py_endswith nm (ustr ''math'') then Raise AttributeError else Outside (ustr ''attribute''))"

subsection \<open>Calls\<close>

fun is_callable :: "'f pyval \<Rightarrow> bool" where
  "is_callable (PCallable _) = True"
| "is_callable _ = False"

text \<open>\<open>f(*x)\<close> needs an iterable, \<open>f(**x)\<close> a mapping (\<open>CALL_FUNCTION_EX\<close>,
  \<open>DICT_MERGE\<close>).\<close>

fun is_iterable :: "'f pyval \<Rightarrow> bool" where
  "is_iterable (PStr _) = True"
| "is_iterable (PTuple _) = True"
| "is_iterable (PObject t) = (t = ustr ''dict'')"
| "is_iterable _ = False"

fun is_mapping :: "'f pyval \<Rightarrow> bool" where
  "is_mapping (PObject t) = (t = ustr ''dict'')"
| "is_mapping _ = False"

text \<open>Calling a non-callable raises \<open>TypeError\<close>; calling a callable leaves the model.\<close>

definition call_val :: "'f pyval \<Rightarrow> 'f pyval eres" where
  "call_val f = (if is_callable f then Outside (ustr ''call'') else Raise TypeError)"

subsection \<open>Evaluation\<close>

text \<open>
  Left to right, as CPython's bytecode runs: the operands of a binary operator, then the
  operator; the callee of a call, then its arguments, then the call.
\<close>

fun eval_expr :: "'f float_ops \<Rightarrow> expr \<Rightarrow> 'f pyval eres"
and eval_args :: "'f float_ops \<Rightarrow> callarg list \<Rightarrow> unit eres"
and eval_kwargs :: "'f float_ops \<Rightarrow> expr list \<Rightarrow> unit eres"
and eval_list :: "'f float_ops \<Rightarrow> expr list \<Rightarrow> 'f pyval list eres" where
  "eval_expr ops (Constant (CNum (IntLit n))) = Val (PInt (int n))"
| "eval_expr ops (Constant (CNum (FloatLit q))) = Val (PFloat (fl_lit ops q))"
| "eval_expr ops (Constant CEllipsis) = Val PEllipsis"
| "eval_expr ops (Name nm) = lookup_name nm"
| "eval_expr ops (Attribute e nm) = ebind (eval_expr ops e) (\<lambda>v. getattr_val ops v nm)"
| "eval_expr ops (BinOp a op b) =
     ebind (eval_expr ops a) (\<lambda>v. ebind (eval_expr ops b) (\<lambda>w. binop_val ops op v w))"
| "eval_expr ops (UnaryOp op a) = ebind (eval_expr ops a) (\<lambda>v. unop_val ops op v)"
| "eval_expr ops (Call f args kws) =
     ebind (eval_expr ops f) (\<lambda>fv.
       ebind (eval_args ops args) (\<lambda>_. ebind (eval_kwargs ops kws) (\<lambda>_. call_val fv)))"
| "eval_expr ops (Tuple es) = ebind (eval_list ops es) (\<lambda>vs. Val (PTuple vs))"
| "eval_args ops [] = Val ()"
| "eval_args ops (Arg e # as) = ebind (eval_expr ops e) (\<lambda>_. eval_args ops as)"
| "eval_args ops (StarArg e # as) =
     ebind (eval_expr ops e) (\<lambda>v. if is_iterable v then eval_args ops as else Raise TypeError)"
| "eval_kwargs ops [] = Val ()"
| "eval_kwargs ops (e # es) =
     ebind (eval_expr ops e) (\<lambda>v. if is_mapping v then eval_kwargs ops es else Raise TypeError)"
| "eval_list ops [] = Val []"
| "eval_list ops (e # es) =
     ebind (eval_expr ops e) (\<lambda>v. ebind (eval_list ops es) (\<lambda>vs. Val (v # vs)))"

subsection \<open>Integer arithmetic\<close>

text \<open>
  The abstract meaning of an expression built from integer literals with \<open>+\<close>,
  \<open>-\<close>, \<open>*\<close>, \<open>//\<close> and the signs: exact integer arithmetic with floor
  division, \<open>None\<close> when some divisor is zero.
\<close>

fun int_only :: "expr \<Rightarrow> bool" where
  "int_only (Constant (CNum (IntLit n))) = True"
| "int_only (BinOp a op b) = (op \<in> {Add, Sub, Mult, FloorDiv} \<and> int_only a \<and> int_only b)"
| "int_only (UnaryOp u a) = int_only a"
| "int_only _ = False"

fun int_value :: "expr \<Rightarrow> int option" where
  "int_value (Constant (CNum (IntLit n))) = Some (int n)"
| "int_value (BinOp a op b) =
     (case (int_value a, int_value b) of
        (Some x, Some y) \<Rightarrow>
          (if op = Add then Some (x + y) else if op = Sub then Some (x - y)
           else if op = Mult then Some (x * y) else if y = 0 then None else Some (x div y))
      | _ \<Rightarrow> None)"
| "int_value (UnaryOp UAdd a) = int_value a"
| "int_value (UnaryOp USub a) = map_option uminus (int_value a)"
| "int_value _ = None"

subsection \<open>The exceptions evaluation raises\<close>

text \<open>
  Evaluation raises only these exceptions: never \<open>NameError\<close>, since an unknown name
  is looked up in \<open>None\<close>, and never \<open>ValueError\<close>.
\<close>

definition eval_exc :: "py_exc set" where
  "eval_exc = {ZeroDivisionError, TypeError, AttributeError, OverflowError, MemoryError}"

definition exc_in :: "py_exc set \<Rightarrow> 'a eres \<Rightarrow> bool" where
  "exc_in S r \<longleftrightarrow> (\<forall>x. r = Raise x \<longrightarrow> x \<in> S)"

subsection \<open>Facts about evaluation\<close>

lemma ebind_simps [simp]:
  "ebind (Raise e) k = Raise e" "ebind (Val v) k = k v" "ebind (Outside w) k = Outside w"
  by (simp_all add: ebind_def)

lemma eval_exc_iff [simp]: "x \<in> eval_exc \<longleftrightarrow> x \<noteq> NameError \<and> x \<noteq> ValueError"
  by (cases x) (simp_all add: eval_exc_def)

lemma exc_in_simps [simp]:
  "exc_in S (Val v)" "exc_in S (Outside w)" "exc_in S (Raise x) \<longleftrightarrow> x \<in> S"
  by (simp_all add: exc_in_def)

lemma exc_in_ebind [intro!]: "exc_in S r \<Longrightarrow> (\<And>v. exc_in S (k v)) \<Longrightarrow> exc_in S (ebind r k)"
  by (cases r) simp_all

lemma exc_in_of_option [intro!]: "e \<in> S \<Longrightarrow> exc_in S (of_option e x)"
  by (cases x) (simp_all add: of_option_def)

lemma exc_of_arith_ne [simp]: "exc_of_arith a \<noteq> NameError" "exc_of_arith a \<noteq> ValueError"
  by (cases a; simp)+

lemma complex_pow_exc [intro!]: "exc_in eval_exc (complex_pow ops p q)"
  by (simp add: complex_pow_def split: sum.split prod.split)

lemma float_pow_exc [intro!]: "exc_in eval_exc (float_pow ops x y)"
  by (auto simp: float_pow_def split: fpow.split)

lemma to_float_exc [intro!]: "exc_in eval_exc (to_float ops a)"
  by (cases a) auto

lemma to_complex_exc [intro!]: "exc_in eval_exc (to_complex ops a)"
  by (cases a) auto

lemma arith_num_exc: "exc_in eval_exc (arith_num ops op a b)"
proof -
  have "exc_in eval_exc (arith_int ops op i j)" for i j
    by (cases op) auto
  moreover have "exc_in eval_exc (arith_float ops op x y)" for x y
    by (cases op) auto
  moreover have "exc_in eval_exc (arith_complex ops op p q)" for p q
    by (cases op; cases p; cases q) (auto split: prod.split)
  ultimately show ?thesis
    by (auto simp: arith_num_def split: pynum.split)
qed

lemma binop_val_exc: "exc_in eval_exc (binop_val ops op v w)"
proof -
  have "exc_in eval_exc (seq_repeat u n)" for u :: "'f pyval" and n
    by (auto simp: seq_repeat_def str_repeat_def tuple_repeat_def split: pyval.split)
  then have "exc_in eval_exc (seq_op op v w)"
    by (auto simp: seq_op_def split: option.split)
  then show ?thesis
    by (auto simp: binop_val_def arith_num_exc split: option.split)
qed

lemma unop_val_exc: "exc_in eval_exc (unop_val ops op v)"
  by (cases "(ops, op, v)" rule: unop_val.cases) simp_all

lemma lookup_name_exc: "exc_in eval_exc (lookup_name nm)"
  by (simp add: lookup_name_def split: option.split)

lemma getattr_val_exc: "exc_in eval_exc (getattr_val ops v nm)"
  by (simp add: getattr_val_def math_attr_def split: pyval.split option.split)

lemma call_val_exc: "exc_in eval_exc (call_val f)"
  by (simp add: call_val_def)

lemma eval_exc_sound:
  "exc_in eval_exc (eval_expr ops e)" "exc_in eval_exc (eval_args ops as)"
  "exc_in eval_exc (eval_kwargs ops ks)" "exc_in eval_exc (eval_list ops es)"
  by (induction ops e and ops as and ops ks and ops es rule: eval_expr_eval_args_eval_kwargs_eval_list.induct)
     (auto simp: lookup_name_exc getattr_val_exc binop_val_exc unop_val_exc call_val_exc)

text \<open>
  C6: on expressions built from integer literals with \<open>+ - * //\<close> and the signs,
  evaluation refines exact integer arithmetic with floor division: it returns the
  integer \<open>int_value\<close> computes, or raises \<open>ZeroDivisionError\<close> when a divisor is zero.
\<close>

theorem eval_int_refines:
  "int_only e \<Longrightarrow>
   eval_expr ops e = (case int_value e of Some i \<Rightarrow> Val (PInt i) | None \<Rightarrow> Raise ZeroDivisionError)"
proof (induction e rule: int_value.induct)
  case (2 a op b)
  then show ?case
    by (auto simp: binop_val_def arith_num_def split: option.split)
qed (auto split: option.split)

lemma eval_int_refines_witness:
  "int_only (BinOp (Constant (CNum (IntLit 7))) FloorDiv (UnaryOp USub (Constant (CNum (IntLit 2))))) \<and>
   (\<forall>ops. eval_expr ops (BinOp (Constant (CNum (IntLit 7))) FloorDiv
      (UnaryOp USub (Constant (CNum (IntLit 2))))) = Val (PInt (-4)))"
proof (intro conjI allI)
  fix ops :: "'f float_ops"
  show "eval_expr ops (BinOp (Constant (CNum (IntLit 7))) FloorDiv
      (UnaryOp USub (Constant (CNum (IntLit 2))))) = Val (PInt (-4))"
    using eval_int_refines [of "BinOp (Constant (CNum (IntLit 7))) FloorDiv
      (UnaryOp USub (Constant (CNum (IntLit 2))))" ops] by simp
qed simp

end
