(* ===== verification/Calculator.thy ===== *)
theory Calculator
  imports Eval
begin

text \<open>
  \<open>calculator(expression)\<close> (src/code/chapter4/tools.py, lines 56--105), composed from
  the components: the multiplication and division signs are normalised
  (\<open>normalize_signs\<close>, line 64), the stripped string must pass the allow-list
  (\<open>AllowList\<close>, lines 67--69), \<open>^\<close> becomes \<open>**\<close> (line 72), the result is
  tokenized and parsed (\<open>Tokenizer\<close>, \<open>Parser\<close>, lines 76--79), evaluated
  (\<open>Eval\<close>, lines 82--91) and formatted (lines 94--98); the \<open>except\<close> clauses of
  lines 100--105 classify the exception that evaluation or formatting raised.

  The returned string is represented by the branch that produced it
  (\<open>calc_out\<close>): one constructor per \<open>return\<close> of the source, carrying what the
  message embeds. The printed \<open>print\<close> line (60) is output only and not modelled.
\<close>

datatype 'f calc_out =
    InvalidInput                          \<comment> \<open>line 69: illegal characters\<close>
  | SyntaxErr                             \<comment> \<open>line 79: \<open>ast.parse\<close> failed\<close>
  | ResultFloat pystr 'f pystr            \<comment> \<open>line 96: input, \<open>{result:.4f}\<close>, executed text\<close>
  | ResultValue pystr "'f pyval" pystr    \<comment> \<open>line 98: input, \<open>{result}\<close>, executed text\<close>
  | DivByZero                             \<comment> \<open>line 101\<close>
  | UnknownName                           \<comment> \<open>line 103: \<open>NameError\<close>\<close>
  | CalcError py_exc                      \<comment> \<open>line 105: any other exception\<close>
  | NotModelled pystr                     \<comment> \<open>evaluation left the modelled fragment\<close>

text \<open>Line 64: \<open>expression.replace("\<times>", "*").replace("\<div>", "/")\<close>.\<close>

definition normalize_signs :: "pystr \<Rightarrow> pystr" where
  "normalize_signs expression = py_replace [divide_sign] [47] (py_replace [times_sign] [42] expression)"

text \<open>Line 72: \<open>expr_clean.strip().replace("^", "**")\<close>.\<close>

definition power_rewrite :: "pystr \<Rightarrow> pystr" where
  "power_rewrite s = py_replace [94] [42, 42] s"

text \<open>Line 77: \<open>ast.parse(safe_expr, mode='eval')\<close>; \<open>None\<close> is \<open>SyntaxError\<close>.\<close>

definition ast_parse :: "pystr \<Rightarrow> expr option" where
  "ast_parse s = (case tokenize s of None \<Rightarrow> None | Some toks \<Rightarrow> parse_eval toks)"

text \<open>
  \<open>str()\<close> of an int with more than \<open>int_max_str_digits\<close> (4300) decimal digits
  raises \<open>ValueError\<close> (CPython 3.11).
\<close>

fun decimal_digits :: "nat \<Rightarrow> nat" where
  "decimal_digits n = (if n < 10 then 1 else Suc (decimal_digits (n div 10)))"

declare decimal_digits.simps [simp del]

text \<open>Lines 94--98, with the exception the f-string may raise caught by line 104.\<close>

definition format_result :: "pystr \<Rightarrow> 'f pyval \<Rightarrow> pystr \<Rightarrow> 'f calc_out" where
  "format_result expression v safe_expr =
     (case v of
        PFloat x \<Rightarrow> ResultFloat expression x safe_expr
      | PInt i \<Rightarrow>
          (if int_max_str_digits < decimal_digits (nat \<bar>i\<bar>) then CalcError ValueError
           else ResultValue expression v safe_expr)
      | _ \<Rightarrow> ResultValue expression v safe_expr)"

text \<open>Lines 100--105: the \<open>except\<close> clauses in order.\<close>

fun handle_exc :: "py_exc \<Rightarrow> 'f calc_out" where
  "handle_exc ZeroDivisionError = DivByZero"
| "handle_exc NameError = UnknownName"
| "handle_exc e = CalcError e"

definition calculator :: "'f float_ops \<Rightarrow> pystr \<Rightarrow> 'f calc_out" where
  "calculator ops expression =
     (let expr_clean = normalize_signs expression
      in if \<not> allowed_pattern_match (py_strip expr_clean) then InvalidInput
         else
           let safe_expr = power_rewrite (py_strip expr_clean)
           in case ast_parse safe_expr of
                None \<Rightarrow> SyntaxErr
              | Some tree \<Rightarrow>
                  (case eval_expr ops tree of
                     Val v \<Rightarrow> format_result expression v safe_expr
                   | Raise e \<Rightarrow> handle_exc e
                   | Outside w \<Rightarrow> NotModelled w))"

subsection \<open>Facts about the branches\<close>

lemma decimal_digits_eval [simp]:
  "n < 10 \<Longrightarrow> decimal_digits n = 1"
  "10 \<le> n \<Longrightarrow> decimal_digits n = Suc (decimal_digits (n div 10))"
  by (simp_all add: decimal_digits.simps)

subsection \<open>Running the calculator on a literal input\<close>

lemmas calc_run = calculator_def normalize_signs_def power_rewrite_def py_isspace_def
  py_strip_def allowed_pattern_match_def pattern_match_def allowed_class_def ast_parse_def
  lexer_defs parse_run format_result_def int_max_str_digits_def binop_val_def arith_num_def
  lookup_name_def allowed_context_def getattr_val_def math_attr_def call_val_def Let_def

lemma py_strip_last_not_newline: "py_strip s \<noteq> [] \<Longrightarrow> last (py_strip s) \<noteq> 10"
  using py_strip_no_trailing_space [of s "butlast (py_strip s)" "last (py_strip s)"]
  by (auto simp: py_isspace_def)

lemma allowed_stripped: "allowed_pattern_match (py_strip s) \<longleftrightarrow> pattern_lang (py_strip s)"
  using py_strip_last_not_newline [of s] by (auto simp: allowed_pattern_match_def pattern_match_lang)

lemma format_result_ne [simp]:
  "format_result x v y \<noteq> InvalidInput" "format_result x v y \<noteq> SyntaxErr"
  "format_result x v y \<noteq> UnknownName" "format_result x v y \<noteq> DivByZero"
  "format_result x v y \<noteq> NotModelled w"
  by (simp_all add: format_result_def split: pyval.split)

lemma handle_exc_ne [simp]:
  "handle_exc e \<noteq> InvalidInput" "handle_exc e \<noteq> SyntaxErr" "handle_exc e \<noteq> NotModelled w"
  "handle_exc e \<noteq> ResultValue x v y" "handle_exc e \<noteq> ResultFloat x f y"
  by (cases e; simp)+

lemma handle_exc_unknown: "handle_exc e = UnknownName \<longleftrightarrow> e = NameError"
  by (cases e) simp_all

lemma calculator_filtered:
  "\<not> pattern_lang (py_strip (normalize_signs s)) \<Longrightarrow> calculator ops s = InvalidInput"
  by (simp add: calculator_def allowed_stripped)

text \<open>The shape of every run that passes the filter.\<close>

lemma calculator_passed:
  assumes "pattern_lang (py_strip (normalize_signs s))"
  shows "calculator ops s =
    (case ast_parse (power_rewrite (py_strip (normalize_signs s))) of
       None \<Rightarrow> SyntaxErr
     | Some tree \<Rightarrow>
         (case eval_expr ops tree of
            Val v \<Rightarrow> format_result s v (power_rewrite (py_strip (normalize_signs s)))
          | Raise e \<Rightarrow> handle_exc e
          | Outside w \<Rightarrow> NotModelled w))"
  using assms by (simp add: calculator_def allowed_stripped Let_def)

subsection \<open>Properties of the calculator\<close>

text \<open>
  C1: the calculator answers "illegal characters" exactly when the input, after the
  multiplication and division signs are normalised and the white space is stripped, is
  not in the language of the allow-list pattern; the newline alternative of \<open>$\<close> never
  matters, since stripping removes a final newline.
\<close>

theorem calculator_rejects:
  "calculator ops s = InvalidInput \<longleftrightarrow> \<not> pattern_lang (py_strip (normalize_signs s))"
proof (cases "pattern_lang (py_strip (normalize_signs s))")
  case True
  then show ?thesis by (auto simp: calculator_passed split: option.split eres.split)
qed (simp add: calculator_filtered)

text \<open>
  C5: the \<open>except NameError\<close> branch (lines 102--103, "unknown function") is dead: an
  unknown name is looked up in \<open>{"__builtins__": None}\<close> and raises \<open>TypeError\<close>,
  and no other step raises \<open>NameError\<close>.
\<close>

theorem calculator_no_unknown_name: "calculator ops s \<noteq> UnknownName"
proof (cases "pattern_lang (py_strip (normalize_signs s))")
  case True
  have "eval_expr ops t \<noteq> Raise NameError" for t
    using eval_exc_sound(1) [of ops t] by (auto simp: exc_in_def)
  then show ?thesis using True
    by (auto simp: calculator_passed handle_exc_unknown split: option.split eres.split)
qed (simp add: calculator_filtered)

end
