(* ===== verification/ToolExecutor.thy ===== *)
theory ToolExecutor
  imports Prelude "HOL-Library.AList"
begin

text \<open>
  The tool registry of src/code/chapter4/tools.py, class \<open>ToolExecutor\<close>
  (lines 110--140). The attribute \<open>self.tools\<close> is a Python \<open>dict\<close> from tool name
  to the dictionary \<open>{"description": ..., "func": ...}\<close>. A \<open>dict\<close> keeps its keys in
  insertion order and assigning to an existing key keeps its position, which is what
  \<open>AList.update\<close> does on an association list; so the registry is an association list,
  and \<open>getAvailableTools\<close> lists the tools in that order. The callable is a value of
  the type parameter \<open>'f\<close>. The two \<open>print\<close> calls of \<open>registerTool\<close> are the
  messages it returns.

  \<open>getTool\<close> returns \<open>'f option\<close>: \<open>None\<close> for a name that is not registered.
  Python's \<open>self.tools.get(name, {}).get("func")\<close> also returns \<open>None\<close> for a tool
  registered with the callable \<open>None\<close>; the model keeps the two apart, which matters
  only outside the annotation \<open>func: callable\<close>.
\<close>

record 'f tool_info =
  description :: pystr
  func :: 'f

record 'f tool_executor =
  tools :: "(pystr \<times> 'f tool_info) list"

text \<open>The lines \<open>registerTool\<close> prints (lines 122 and 125).\<close>

datatype reg_msg = OverwriteWarning pystr | Registered pystr

text \<open>\<open>__init__\<close>, lines 114--115.\<close>

definition init_executor :: "'f tool_executor" where
  "init_executor = \<lparr>tools = []\<rparr>"

text \<open>\<open>registerTool\<close>, lines 117--125.\<close>

definition registerTool :: "'f tool_executor \<Rightarrow> pystr \<Rightarrow> pystr \<Rightarrow> 'f \<Rightarrow> 'f tool_executor \<times> reg_msg list" where
  "registerTool self name desc f =
     (let warn = (if name \<in> set (map fst (tools self)) then [OverwriteWarning name] else [])
      in (self\<lparr>tools := AList.update name \<lparr>description = desc, func = f\<rparr> (tools self)\<rparr>,
          warn @ [Registered name]))"

text \<open>\<open>getTool\<close>, lines 127--131: \<open>self.tools.get(name, {}).get("func")\<close>.\<close>

definition getTool :: "'f tool_executor \<Rightarrow> pystr \<Rightarrow> 'f option" where
  "getTool self name = map_option func (map_of (tools self) name)"

text \<open>\<open>getAvailableTools\<close>, lines 133--140: one line \<open>- {name}: {description}\<close> per tool.\<close>

definition tool_line :: "pystr \<times> 'f tool_info \<Rightarrow> pystr" where
  "tool_line entry = ustr ''- '' @ fst entry @ ustr '': '' @ description (snd entry)"

definition getAvailableTools :: "'f tool_executor \<Rightarrow> pystr" where
  "getAvailableTools self = py_join [10] (map tool_line (tools self))"

end
