(* ===== verification/Graph.thy ===== *)
theory Graph
  imports Prelude
begin

text \<open>
  The LangGraph demo src/code/chapter6/Langgraph/simple_graph.py: a state with one
  string channel \<open>text\<close>, two nodes that append \<open>a\<close> and \<open>b\<close>, the edges
  \<open>START \<rightarrow> node_a \<rightarrow> node_b\<close>, and \<open>graph.compile().invoke({"text": ""})\<close>.

  The graph library is not part of the repository; the model gives the part of its
  behaviour the demo uses. \<open>add_node\<close> refuses a name twice or a reserved name,
  \<open>add_edge\<close> refuses \<open>END\<close> as a source and \<open>START\<close> as a target, and \<open>compile\<close>
  checks that every edge names a known node and that \<open>START\<close> has an edge. A run is a
  sequence of supersteps: the active nodes all read the state as it was before the step,
  their returned dictionaries are applied afterwards (a key of the state schema written
  twice in one step is \<open>InvalidUpdateError\<close>, keys outside the schema are ignored), and
  the next active nodes are the targets of the edges leaving them. The run stops when no
  node is active, or fails after \<open>recursion_limit\<close> (25) supersteps.

  None of this library is in the repository: \<open>add_node\<close>, \<open>add_edge\<close>, \<open>compile\<close>,
  \<open>invoke\<close>, \<open>run_graph\<close>, \<open>superstep\<close>, \<open>apply_updates\<close> and \<open>gstep\<close> are
  modelled from LangGraph's documented behaviour, not translated from code. What is
  translated from simple_graph.py is the state, the two nodes, the construction of the
  graph and the call of line 23.

  The superstep is also given as a step relation \<open>gstep\<close>. The lemmas compute the
  demo's result for every initial text and show liveness: from every configuration the
  demo reaches, the final configuration with no active node is reachable.
\<close>

record gstate =
  state_text :: pystr

type_synonym gupdate = "(pystr \<times> pystr) list"

datatype endpoint = START | Node pystr | END

record state_graph =
  nodes :: "(pystr \<times> (gstate \<Rightarrow> gupdate)) list"
  edges :: "(endpoint \<times> endpoint) list"

datatype graph_err =
    NodeAlreadyPresent pystr | ReservedName pystr | EndAsStart | StartAsEnd
  | UnknownNode pystr | NoEntryPoint | InvalidUpdate pystr | RecursionLimit

definition gbind :: "graph_err + 'a \<Rightarrow> ('a \<Rightarrow> graph_err + 'b) \<Rightarrow> graph_err + 'b" where
  "gbind r k = (case r of Inl e \<Rightarrow> Inl e | Inr x \<Rightarrow> k x)"

subsection \<open>The nodes (lines 9--14)\<close>

definition text_key :: pystr where
  "text_key = ustr ''text''"

definition node_a :: "gstate \<Rightarrow> gupdate" where
  "node_a state = [(text_key, state_text state @ ustr ''a'')]"

definition node_b :: "gstate \<Rightarrow> gupdate" where
  "node_b state = [(text_key, state_text state @ ustr ''b'')]"

subsection \<open>Building and checking a graph\<close>

definition empty_graph :: state_graph where
  "empty_graph = \<lparr>nodes = [], edges = []\<rparr>"

definition add_node :: "state_graph \<Rightarrow> pystr \<Rightarrow> (gstate \<Rightarrow> gupdate) \<Rightarrow> graph_err + state_graph" where
  "add_node g name f =
     (if name \<in> set (map fst (nodes g)) then Inl (NodeAlreadyPresent name)
      else if name = ustr ''__start__'' \<or> name = ustr ''__end__'' then Inl (ReservedName name)
      else Inr (g\<lparr>nodes := nodes g @ [(name, f)]\<rparr>))"

definition add_edge :: "state_graph \<Rightarrow> endpoint \<Rightarrow> endpoint \<Rightarrow> graph_err + state_graph" where
  "add_edge g a b =
     (if a = END then Inl EndAsStart else if b = START then Inl StartAsEnd
      else Inr (g\<lparr>edges := edges g @ [(a, b)]\<rparr>))"

fun known :: "state_graph \<Rightarrow> endpoint \<Rightarrow> bool" where
  "known g (Node n) = (n \<in> set (map fst (nodes g)))"
| "known g _ = True"

definition compile :: "state_graph \<Rightarrow> graph_err + state_graph" where
  "compile g =
     (case filter (\<lambda>p. \<not> known g (fst p) \<or> \<not> known g (snd p)) (edges g) of
        (a, b) # _ \<Rightarrow> Inl (UnknownNode (case (if known g a then b else a) of Node n \<Rightarrow> n | _ \<Rightarrow> []))
      | [] \<Rightarrow> if START \<in> set (map fst (edges g)) then Inr g else Inl NoEntryPoint)"

text \<open>Lines 17--21.\<close>

definition simple_graph :: "graph_err + state_graph" where
  "simple_graph =
     gbind (add_node empty_graph (ustr ''node_a'') node_a) (\<lambda>g.
     gbind (add_node g (ustr ''node_b'') node_b) (\<lambda>g.
     gbind (add_edge g START (Node (ustr ''node_a''))) (\<lambda>g.
     add_edge g (Node (ustr ''node_a'')) (Node (ustr ''node_b'')))))"

subsection \<open>Running a graph\<close>

text \<open>The nodes an edge from one of \<open>srcs\<close> leads to, each once, \<open>END\<close> dropped.\<close>

definition targets :: "state_graph \<Rightarrow> endpoint list \<Rightarrow> pystr list" where
  "targets g srcs = remdups (concat (map (\<lambda>e. case e of (a, Node n) \<Rightarrow> if a \<in> set srcs then [n] else [] | _ \<Rightarrow> []) (edges g)))"

definition next_nodes :: "state_graph \<Rightarrow> pystr list \<Rightarrow> pystr list" where
  "next_nodes g act = targets g (map Node act)"

definition run_node :: "state_graph \<Rightarrow> gstate \<Rightarrow> pystr \<Rightarrow> gupdate" where
  "run_node g st n = (case map_of (nodes g) n of Some f \<Rightarrow> f st | None \<Rightarrow> [])"

text \<open>The writes of one superstep to the channel \<open>text\<close>: at most one is allowed.\<close>

definition apply_updates :: "gstate \<Rightarrow> gupdate list \<Rightarrow> graph_err + gstate" where
  "apply_updates st ups =
     (case filter (\<lambda>kv. fst kv = text_key) (concat ups) of
        [] \<Rightarrow> Inr st
      | [(k, v)] \<Rightarrow> Inr (st\<lparr>state_text := v\<rparr>)
      | _ \<Rightarrow> Inl (InvalidUpdate text_key))"

definition superstep :: "state_graph \<Rightarrow> pystr list \<Rightarrow> gstate \<Rightarrow> graph_err + gstate" where
  "superstep g act st = apply_updates st (map (run_node g st) act)"

fun run_graph :: "nat \<Rightarrow> state_graph \<Rightarrow> pystr list \<Rightarrow> gstate \<Rightarrow> graph_err + gstate" where
  "run_graph n g [] st = Inr st"
| "run_graph 0 g (a # as) st = Inl RecursionLimit"
| "run_graph (Suc n) g (a # as) st =
     gbind (superstep g (a # as) st) (\<lambda>st'. run_graph n g (next_nodes g (a # as)) st')"

definition recursion_limit :: nat where
  "recursion_limit = 25"

definition invoke :: "state_graph \<Rightarrow> gstate \<Rightarrow> graph_err + gstate" where
  "invoke g input = run_graph recursion_limit g (targets g [START]) input"

text \<open>Line 23: \<open>graph.compile().invoke({"text": ""})\<close>.\<close>

definition main_graph :: "graph_err + gstate" where
  "main_graph = gbind simple_graph (\<lambda>g. gbind (compile g) (\<lambda>cg. invoke cg \<lparr>state_text = []\<rparr>))"

subsection \<open>Supersteps as a step relation\<close>

inductive gstep :: "state_graph \<Rightarrow> pystr list \<times> gstate \<Rightarrow> pystr list \<times> gstate \<Rightarrow> bool" where
  superstep_ok: "act \<noteq> [] \<Longrightarrow> superstep g act st = Inr st' \<Longrightarrow> gstep g (act, st) (next_nodes g act, st')"

subsection \<open>Facts about runs\<close>

lemma gbind_simps [simp]: "gbind (Inl e) k = Inl e" "gbind (Inr x) k = k x"
  by (simp_all add: gbind_def)

lemma gbind_cong [cong]: "r = r' \<Longrightarrow> gbind r k = gbind r' k"
  by simp

text \<open>The runner on a literal amount of fuel.\<close>

lemma run_graph_pos:
  "0 < n \<Longrightarrow> run_graph n g (a # as) st =
     gbind (superstep g (a # as) st) (\<lambda>st'. run_graph (n - 1) g (next_nodes g (a # as)) st')"
  by (metis run_graph.simps(3) diff_Suc_1 gr0_conv_Suc)

lemmas graph_run = simple_graph_def add_node_def add_edge_def empty_graph_def compile_def
  invoke_def recursion_limit_def targets_def next_nodes_def superstep_def run_node_def
  apply_updates_def node_a_def node_b_def text_key_def run_graph_pos

inductive_cases gstepE [elim!]: "gstep g c c'"

text \<open>The demo graph after building and compiling.\<close>

lemma demo_compiled:
  "simple_graph = Inr g \<Longrightarrow> compile g = Inr cg \<Longrightarrow>
   cg = \<lparr>nodes = [(ustr ''node_a'', node_a), (ustr ''node_b'', node_b)],
         edges = [(START, Node (ustr ''node_a'')), (Node (ustr ''node_a''), Node (ustr ''node_b''))]\<rparr>"
proof -
  assume a: "simple_graph = Inr g" "compile g = Inr cg"
  from a(1) have "g = \<lparr>nodes = [(ustr ''node_a'', node_a), (ustr ''node_b'', node_b)],
      edges = [(START, Node (ustr ''node_a'')), (Node (ustr ''node_a''), Node (ustr ''node_b''))]\<rparr>"
    by (simp add: graph_run)
  with a(2) show ?thesis by (simp add: graph_run)
qed

subsection \<open>Properties of the graph demo\<close>

text \<open>
  C10: for every initial text the compiled demo graph runs \<open>node_a\<close> and then
  \<open>node_b\<close> and returns the text with \<open>ab\<close> appended, well within the recursion limit.
\<close>

theorem simple_graph_run:
  "gbind simple_graph (\<lambda>g. gbind (compile g) (\<lambda>cg. invoke cg \<lparr>state_text = t\<rparr>)) =
     Inr \<lparr>state_text = t @ ustr ''ab''\<rparr>"
  by (simp add: graph_run)

text \<open>
  C11: liveness of the demo: whatever supersteps the compiled graph has taken from its
  entry point, for every initial text, a configuration with no active node is still
  reachable; the run cannot get stuck or loop.
\<close>

theorem simple_graph_live:
  assumes "simple_graph = Inr g" "compile g = Inr cg"
    "(gstep cg)\<^sup>*\<^sup>* (targets cg [START], \<lparr>state_text = t\<rparr>) c"
  shows "\<exists>st'. (gstep cg)\<^sup>*\<^sup>* c ([], st')"
proof -
  note cg = demo_compiled [OF assms(1,2)]
  let ?a = "ustr ''node_a''" and ?b = "ustr ''node_b''"
  have "gstep cg ([?b], \<lparr>state_text = t @ ustr ''a''\<rparr>) (next_nodes cg [?b], \<lparr>state_text = t @ ustr ''ab''\<rparr>)"
    by (rule superstep_ok) (simp_all add: cg graph_run)
  then have s2: "gstep cg ([?b], \<lparr>state_text = t @ ustr ''a''\<rparr>) ([], \<lparr>state_text = t @ ustr ''ab''\<rparr>)"
    by (simp add: cg graph_run)
  have "gstep cg ([?a], \<lparr>state_text = t\<rparr>) (next_nodes cg [?a], \<lparr>state_text = t @ ustr ''a''\<rparr>)"
    by (rule superstep_ok) (simp_all add: cg graph_run)
  then have s1: "gstep cg ([?a], \<lparr>state_text = t\<rparr>) ([?b], \<lparr>state_text = t @ ustr ''a''\<rparr>)"
    by (simp add: cg graph_run)
  have "c \<in> {([?a], \<lparr>state_text = t\<rparr>), ([?b], \<lparr>state_text = t @ ustr ''a''\<rparr>), ([], \<lparr>state_text = t @ ustr ''ab''\<rparr>)}"
    using assms(3)
  proof (induction rule: rtranclp_induct)
    case base
    then show ?case by (simp add: cg graph_run)
  next
    case (step y z)
    then show ?case by (auto simp: cg graph_run)
  qed
  moreover have "(gstep cg)\<^sup>*\<^sup>* ([?b], \<lparr>state_text = t @ ustr ''a''\<rparr>) ([], \<lparr>state_text = t @ ustr ''ab''\<rparr>)"
    using s2 by (rule r_into_rtranclp)
  moreover have "(gstep cg)\<^sup>*\<^sup>* ([?a], \<lparr>state_text = t\<rparr>) ([], \<lparr>state_text = t @ ustr ''ab''\<rparr>)"
    using s1 s2 by (meson converse_rtranclp_into_rtranclp r_into_rtranclp)
  ultimately show ?thesis by blast
qed

lemma simple_graph_live_witness:
  "\<exists>st'. (gstep \<lparr>nodes = [(ustr ''node_a'', node_a), (ustr ''node_b'', node_b)],
      edges = [(START, Node (ustr ''node_a'')), (Node (ustr ''node_a''), Node (ustr ''node_b''))]\<rparr>)\<^sup>*\<^sup>*
     ([ustr ''node_a''], \<lparr>state_text = []\<rparr>) ([], st')"
  using simple_graph_live [where g = "\<lparr>nodes = [(ustr ''node_a'', node_a), (ustr ''node_b'', node_b)],
      edges = [(START, Node (ustr ''node_a'')), (Node (ustr ''node_a''), Node (ustr ''node_b''))]\<rparr>"
    and cg = "\<lparr>nodes = [(ustr ''node_a'', node_a), (ustr ''node_b'', node_b)],
      edges = [(START, Node (ustr ''node_a'')), (Node (ustr ''node_a''), Node (ustr ''node_b''))]\<rparr>"
    and t = "[]" and c = "([ustr ''node_a''], \<lparr>state_text = []\<rparr>)"]
  by (simp add: graph_run)

end
