(* ===== verification/Search.thy ===== *)
theory Search
  imports Prelude
begin

text \<open>
  The tool \<open>search(query)\<close> of src/code/chapter4/tools.py (lines 13--53). The network
  call \<open>SerpApiClient(params).get_dict()\<close> is a parameter \<open>get_dict\<close> that returns the
  decoded JSON object or raises; the environment lookup \<open>os.getenv("SERPAPI_API_KEY")\<close>
  is the parameter \<open>api_key\<close>. What the code does with the result is modelled in full:
  the Python operations it applies to JSON values (\<open>in\<close>, indexing, truth value,
  iteration, slicing, \<open>dict.get\<close>, \<open>str.join\<close>) with the exceptions they raise on values
  of the wrong type, and the \<open>except Exception\<close> clause that turns every exception into
  the error message. Every \<open>return\<close> is a constructor of \<open>search_ret\<close>; the text of an
  f-string that embeds a JSON value that is not a string uses the parameter
  \<open>to_str\<close> (Python's \<open>str()\<close> of that value). JSON numbers are integers here.
\<close>

datatype json =
    JNull | JBool bool | JInt int | JStr pystr | JList "json list" | JObj "(pystr \<times> json) list"

text \<open>The exceptions that reach the \<open>except\<close> clause of line 52.\<close>

datatype search_err = ClientError pystr | TypeErr | AttributeErr | KeyErr

datatype search_ret =
    MissingKey                 \<comment> \<open>line 22\<close>
  | Joined pystr               \<comment> \<open>line 37: the answer list joined by newlines\<close>
  | Found json                 \<comment> \<open>lines 39 and 41: a value of the result, returned as it is\<close>
  | Snippets pystr             \<comment> \<open>line 48\<close>
  | NoInfo pystr               \<comment> \<open>line 50: the query the message names\<close>
  | SearchFailed search_err    \<comment> \<open>line 53\<close>

type_synonym 'a sres = "search_err + 'a"

definition sbind :: "'a sres \<Rightarrow> ('a \<Rightarrow> 'b sres) \<Rightarrow> 'b sres" where
  "sbind r k = (case r of Inl e \<Rightarrow> Inl e | Inr x \<Rightarrow> k x)"

subsection \<open>Python operations on JSON values\<close>

fun is_substring :: "pystr \<Rightarrow> pystr \<Rightarrow> bool" where
  "is_substring k [] = (k = [])"
| "is_substring k (c # s) = (take (length k) (c # s) = k \<or> is_substring k s)"

text \<open>\<open>k in v\<close>: a key of a dict, an element of a list, a substring of a str.\<close>

fun py_in :: "pystr \<Rightarrow> json \<Rightarrow> bool sres" where
  "py_in k (JObj kvs) = Inr (k \<in> set (map fst kvs))"
| "py_in k (JList xs) = Inr (JStr k \<in> set xs)"
| "py_in k (JStr s) = Inr (is_substring k s)"
| "py_in k _ = Inl TypeErr"

text \<open>\<open>v[k]\<close> with a string key.\<close>

fun py_getitem :: "json \<Rightarrow> pystr \<Rightarrow> json sres" where
  "py_getitem (JObj kvs) k = (case map_of kvs k of Some v \<Rightarrow> Inr v | None \<Rightarrow> Inl KeyErr)"
| "py_getitem _ k = Inl TypeErr"

fun py_truthy :: "json \<Rightarrow> bool" where
  "py_truthy JNull = False"
| "py_truthy (JBool b) = b"
| "py_truthy (JInt i) = (i \<noteq> 0)"
| "py_truthy (JStr s) = (s \<noteq> [])"
| "py_truthy (JList xs) = (xs \<noteq> [])"
| "py_truthy (JObj kvs) = (kvs \<noteq> [])"

text \<open>Iterating a value: the elements of a list, the characters of a str, the keys of a dict.\<close>

fun py_iter :: "json \<Rightarrow> json list sres" where
  "py_iter (JList xs) = Inr xs"
| "py_iter (JStr s) = Inr (map (\<lambda>c. JStr [c]) s)"
| "py_iter (JObj kvs) = Inr (map (JStr \<circ> fst) kvs)"
| "py_iter _ = Inl TypeErr"

fun as_pystr :: "json \<Rightarrow> pystr sres" where
  "as_pystr (JStr s) = Inr s"
| "as_pystr _ = Inl TypeErr"

fun all_pystr :: "json list \<Rightarrow> pystr list sres" where
  "all_pystr [] = Inr []"
| "all_pystr (x # xs) = sbind (as_pystr x) (\<lambda>s. sbind (all_pystr xs) (\<lambda>ss. Inr (s # ss)))"

text \<open>\<open>v[:3]\<close>; slicing a dict raises \<open>TypeError\<close> in Python 3.11 (a slice is unhashable).\<close>

fun py_slice3 :: "json \<Rightarrow> json list sres" where
  "py_slice3 (JList xs) = Inr (take 3 xs)"
| "py_slice3 (JStr s) = Inr (map (\<lambda>c. JStr [c]) (take 3 s))"
| "py_slice3 _ = Inl TypeErr"

text \<open>\<open>res.get(key, '')\<close>: only a dict has \<open>get\<close>.\<close>

fun py_get_default :: "json \<Rightarrow> pystr \<Rightarrow> json sres" where
  "py_get_default (JObj kvs) k = Inr (case map_of kvs k of Some v \<Rightarrow> v | None \<Rightarrow> JStr [])"
| "py_get_default _ k = Inl AttributeErr"

definition fmt_value :: "(json \<Rightarrow> pystr) \<Rightarrow> json \<Rightarrow> pystr" where
  "fmt_value to_str v = (case v of JStr s \<Rightarrow> s | _ \<Rightarrow> to_str v)"

fun nat_str :: "nat \<Rightarrow> pystr" where
  "nat_str n = (if n < 10 then [48 + n] else nat_str (n div 10) @ [48 + n mod 10])"

subsection \<open>The function \<open>search\<close>\<close>

text \<open>Lines 24--30.\<close>

definition search_params :: "pystr \<Rightarrow> pystr \<Rightarrow> (pystr \<times> pystr) list" where
  "search_params query api_key =
     [(ustr ''engine'', ustr ''google''), (ustr ''q'', query), (ustr ''api_key'', api_key),
      (ustr ''gl'', ustr ''cn''), (ustr ''hl'', ustr ''zh-cn'')]"

text \<open>Line 45: \<open>f"[{i+1}] {res.get('title', '')}\n{res.get('snippet', '')}"\<close>.\<close>

definition snippet :: "(json \<Rightarrow> pystr) \<Rightarrow> nat \<Rightarrow> json \<Rightarrow> pystr sres" where
  "snippet to_str i res =
     sbind (py_get_default res (ustr ''title'')) (\<lambda>t.
     sbind (py_get_default res (ustr ''snippet'')) (\<lambda>s.
       Inr ([91] @ nat_str (i + 1) @ [93, 32] @ fmt_value to_str t @ [10] @ fmt_value to_str s)))"

text \<open>Lines 44--47: the list comprehension over \<open>enumerate(...[:3])\<close>.\<close>

fun snippets_from :: "(json \<Rightarrow> pystr) \<Rightarrow> nat \<Rightarrow> json list \<Rightarrow> pystr list sres" where
  "snippets_from to_str i [] = Inr []"
| "snippets_from to_str i (r # rs) =
     sbind (snippet to_str i r) (\<lambda>s. sbind (snippets_from to_str (Suc i) rs) (\<lambda>ss. Inr (s # ss)))"

text \<open>\<open>k in v and k' in v[k]\<close>, evaluated left to right with short circuit.\<close>

definition has_nested :: "json \<Rightarrow> pystr \<Rightarrow> pystr \<Rightarrow> bool sres" where
  "has_nested results k k' =
     sbind (py_in k results) (\<lambda>b. if b then sbind (py_getitem results k) (py_in k') else Inr False)"

text \<open>Lines 36--50, run on the decoded result.\<close>

definition search_results :: "(json \<Rightarrow> pystr) \<Rightarrow> pystr \<Rightarrow> json \<Rightarrow> search_ret sres" where
  "search_results to_str query results =
     sbind (py_in (ustr ''answer_box_list'') results) (\<lambda>b1.
     if b1 then
       sbind (py_getitem results (ustr ''answer_box_list'')) (\<lambda>v.
       sbind (py_iter v) (\<lambda>items. sbind (all_pystr items) (\<lambda>ss. Inr (Joined (py_join [10] ss)))))
     else sbind (has_nested results (ustr ''answer_box'') (ustr ''answer'')) (\<lambda>b2.
     if b2 then
       sbind (py_getitem results (ustr ''answer_box'')) (\<lambda>ab.
       sbind (py_getitem ab (ustr ''answer'')) (\<lambda>a. Inr (Found a)))
     else sbind (has_nested results (ustr ''knowledge_graph'') (ustr ''description'')) (\<lambda>b3.
     if b3 then
       sbind (py_getitem results (ustr ''knowledge_graph'')) (\<lambda>kg.
       sbind (py_getitem kg (ustr ''description'')) (\<lambda>d. Inr (Found d)))
     else sbind (py_in (ustr ''organic_results'') results) (\<lambda>b4.
       sbind (if b4 then sbind (py_getitem results (ustr ''organic_results'')) (\<lambda>org. Inr (py_truthy org))
              else Inr False) (\<lambda>b4'.
       if b4' then
         sbind (py_getitem results (ustr ''organic_results'')) (\<lambda>org.
         sbind (py_slice3 org) (\<lambda>rs.
         sbind (snippets_from to_str 0 rs) (\<lambda>ss. Inr (Snippets (py_join [10, 10] ss)))))
       else Inr (NoInfo query))))))"

text \<open>Lines 13--53.\<close>

definition search ::
    "pystr option \<Rightarrow> ((pystr \<times> pystr) list \<Rightarrow> json sres) \<Rightarrow> (json \<Rightarrow> pystr) \<Rightarrow> pystr \<Rightarrow> search_ret" where
  "search api_key get_dict to_str query =
     (case api_key of
        None \<Rightarrow> MissingKey
      | Some k \<Rightarrow>
          if k = [] then MissingKey
          else case sbind (get_dict (search_params query k)) (search_results to_str query) of
                 Inl e \<Rightarrow> SearchFailed e
               | Inr r \<Rightarrow> r)"

subsection \<open>Facts about the operations\<close>

lemma sbind_simps [simp]: "sbind (Inl e) k = Inl e" "sbind (Inr x) k = k x"
  by (simp_all add: sbind_def)

lemma sbind_cong [cong]: "r = r' \<Longrightarrow> sbind r k = sbind r' k"
  by simp

lemma sbind_Inr: "sbind r k = Inr y \<longleftrightarrow> (\<exists>x. r = Inr x \<and> k x = Inr y)"
  by (cases r) simp_all

lemma snippets_from_length: "snippets_from to_str i rs = Inr ss \<Longrightarrow> length ss = length rs"
  by (induction to_str i rs arbitrary: ss rule: snippets_from.induct) (auto simp: sbind_Inr)

lemma py_slice3_nonempty:
  "py_slice3 v = Inr rs \<Longrightarrow> py_truthy v \<Longrightarrow> rs \<noteq> [] \<and> length rs \<le> 3"
  by (cases v rule: py_slice3.cases) auto

lemma search_key:
  "k \<noteq> [] \<Longrightarrow> search (Some k) get_dict to_str query =
     (case sbind (get_dict (search_params query k)) (search_results to_str query) of
        Inl e \<Rightarrow> SearchFailed e | Inr r \<Rightarrow> r)"
  by (simp add: search_def)

lemma all_pystr_JStr: "all_pystr (map JStr ls) = Inr ls"
  by (induction ls) simp_all

lemma search_results_snippets:
  "search_results to_str q res = Inr (Snippets t) \<Longrightarrow>
     \<exists>org rs ss. py_getitem res (ustr ''organic_results'') = Inr org \<and> py_truthy org \<and>
       py_slice3 org = Inr rs \<and> snippets_from to_str 0 rs = Inr ss \<and> t = py_join [10, 10] ss"
  unfolding search_results_def by (auto simp: sbind_Inr split: if_splits)

lemmas search_run = search_results_def has_nested_def snippet_def fmt_value_def

subsection \<open>Properties of \<open>search\<close>\<close>

text \<open>
  C12: a list of strings under \<open>answer_box_list\<close> is answered first, joined by
  newlines, whatever else the result holds.
\<close>

theorem search_answer_list_first:
  assumes "k \<noteq> []" "get_dict (search_params query k) = Inr (JObj kvs)"
    and "map_of kvs (ustr ''answer_box_list'') = Some (JList (map JStr ls))"
  shows "search (Some k) get_dict to_str query = Joined (py_join [10] ls)"
proof -
  have "ustr ''answer_box_list'' \<in> set (map fst kvs)"
    using map_of_SomeD [OF assms(3)] by force
  then show ?thesis using assms by (simp add: search_key search_results_def all_pystr_JStr)
qed

lemma search_answer_list_first_witness:
  "search (Some (ustr ''key''))
     (\<lambda>p. Inr (JObj [(ustr ''organic_results'', JList []),
                     (ustr ''answer_box_list'', JList [JStr (ustr ''x''), JStr (ustr ''y'')])]))
     (\<lambda>v. []) (ustr ''q'') = Joined (py_join [10] [ustr ''x'', ustr ''y''])"
  by (rule search_answer_list_first [where ls = "[ustr ''x'', ustr ''y'']"
      and kvs = "[(ustr ''organic_results'', JList []),
                  (ustr ''answer_box_list'', JList [JStr (ustr ''x''), JStr (ustr ''y'')])]"]) simp_all

text \<open>
  C13: the organic results give at most three snippets, separated by blank lines, and
  at least one.
\<close>

theorem search_snippets_bound:
  "search api_key get_dict to_str query = Snippets t \<Longrightarrow>
     \<exists>ss. ss \<noteq> [] \<and> length ss \<le> 3 \<and> t = py_join [10, 10] ss"
proof -
  assume "search api_key get_dict to_str query = Snippets t"
  then obtain res where "search_results to_str query res = Inr (Snippets t)"
    by (auto simp: search_def sbind_def split: option.splits if_splits sum.splits)
  then obtain org rs ss where "py_truthy org" "py_slice3 org = Inr rs"
    "snippets_from to_str 0 rs = Inr ss" "t = py_join [10, 10] ss"
    by (blast dest: search_results_snippets)
  then show ?thesis by (metis py_slice3_nonempty snippets_from_length length_0_conv)
qed

lemma search_snippets_bound_witness:
  "\<exists>ss. ss \<noteq> [] \<and> length ss \<le> 3 \<and>
     py_join [10, 10] [ustr ''[1] T'' @ [10] @ ustr ''S''] = py_join [10, 10] ss"
proof -
  have "search (Some (ustr ''k''))
     (\<lambda>p. Inr (JObj [(ustr ''organic_results'',
        JList [JObj [(ustr ''title'', JStr (ustr ''T'')), (ustr ''snippet'', JStr (ustr ''S''))]])]))
     (\<lambda>v. []) (ustr ''q'') = Snippets (py_join [10, 10] [ustr ''[1] T'' @ [10] @ ustr ''S''])"
    by (simp add: search_def search_run)
  then show ?thesis by (rule search_snippets_bound)
qed

end
