(* ===== verification/Sandbox_Eval.thy ===== *)
theory Sandbox_Eval
  imports Eval
begin

text \<open>
  The evaluator's side of the sandbox argument. \<open>eval_expr\<close> leaves the modelled fragment
  (the result \<open>Outside\<close>) only when it calls a callable or reads an attribute it does not
  model. The predicate \<open>good\<close> describes expressions that cannot do so: every call and
  tuple is built from constants only (\<open>pure\<close>), and every attribute name ends in
  \<open>math\<close> or is read from an expression ending in \<open>math\<close>, i.e. from the module.
  \<open>good_eval\<close> shows that evaluating such an expression \<open>stays\<close> in the fragment; the
  values that arise are \<open>plain\<close> (no callable, no module) except the module itself.
\<close>

fun pure :: "expr \<Rightarrow> bool" and pure_arg :: "callarg \<Rightarrow> bool" where
  "pure (Constant c) = True"
| "pure (Name nm) = False"
| "pure (Attribute e nm) = False"
| "pure (BinOp a op b) = (pure a \<and> pure b)"
| "pure (UnaryOp u a) = pure a"
| "pure (Call f as ks) = (pure f \<and> list_all pure_arg as \<and> list_all pure ks)"
| "pure (Tuple es) = list_all pure es"
| "pure_arg (Arg e) = pure e"
| "pure_arg (StarArg e) = pure e"

fun ends_math :: "expr \<Rightarrow> bool" where
  "ends_math (Name x) = py_endswith x (ustr ''math'')"
| "ends_math (Attribute e x) = py_endswith x (ustr ''math'')"
| "ends_math _ = False"

fun good :: "expr \<Rightarrow> bool" where
  "good (Attribute e nm) = (good e \<and> (py_endswith nm (ustr ''math'') \<or> ends_math e))"
| "good (BinOp a op b) = (good a \<and> good b)"
| "good (UnaryOp u a) = good a"
| "good (Call f as ks) = pure (Call f as ks)"
| "good (Tuple es) = pure (Tuple es)"
| "good _ = True"

definition plain :: "'f pyval \<Rightarrow> bool" where
  "plain v \<longleftrightarrow> \<not> is_callable v \<and> (case v of PModule m \<Rightarrow> False | _ \<Rightarrow> True)"

definition val_in :: "('a \<Rightarrow> bool) \<Rightarrow> 'a eres \<Rightarrow> bool" where
  "val_in P r \<longleftrightarrow> (case r of Val v \<Rightarrow> P v | _ \<Rightarrow> True)"

definition stays :: "'a eres \<Rightarrow> bool" where
  "stays r \<longleftrightarrow> (case r of Outside w \<Rightarrow> False | _ \<Rightarrow> True)"

lemma math_attr_no_module: "math_attr ops nm \<noteq> Val (PModule m)"
  by (auto simp: math_attr_def math_dunders_def split: option.splits dest!: map_of_SomeD)

lemma math_attr_not_outside: "math_attr ops nm \<noteq> Outside w"
  by (simp add: math_attr_def split: option.splits)

lemma math_names_not_math:
  "\<forall>x\<in>set math_constants. \<not> py_endswith x (ustr ''math'')"
  "\<forall>x\<in>set math_functions. \<not> py_endswith x (ustr ''math'')"
  "\<forall>x\<in>set (map fst (math_dunders :: (pystr \<times> 'f pyval) list)). \<not> py_endswith x (ustr ''math'')"
  by (simp_all add: math_constants_def math_functions_def math_dunders_def py_endswith_def)

lemma math_attr_endswith:
  fixes ops :: "'f float_ops"
  assumes "py_endswith nm (ustr ''math'')"
  shows "math_attr ops nm = Raise AttributeError"
proof -
  have "nm \<notin> set math_constants" "nm \<notin> set math_functions"
    using assms math_names_not_math(1,2) by blast+
  moreover have "map_of (math_dunders :: (pystr \<times> 'f pyval) list) nm = None"
    using assms math_names_not_math(3) by (auto simp: map_of_eq_None_iff)
  ultimately show ?thesis by (simp add: math_attr_def)
qed

lemma val_in_simps [simp]:
  "val_in P (Val v) \<longleftrightarrow> P v" "val_in P (Raise e)" "val_in P (Outside w)"
  by (simp_all add: val_in_def)

lemma val_in_ebind [intro!]: "(\<And>x. val_in P (k x)) \<Longrightarrow> val_in P (ebind r k)"
  by (cases r) simp_all

lemma plain_simps [simp]:
  "plain (PInt i)" "plain (PFloat x)" "plain (PComplex a b)" "plain (PStr s)" "plain (PTuple t)"
  by (simp_all add: plain_def)

lemma binop_val_plain: "val_in plain (binop_val ops op v w)"
proof -
  have fp: "val_in plain (float_pow ops x y)" for x y
    by (simp add: float_pow_def complex_pow_def split: fpow.split sum.split prod.split)
  have cp: "val_in plain (complex_pow ops p q)" for p q
    by (simp add: complex_pow_def split: sum.split prod.split)
  have "val_in plain (arith_int ops op i j)" for i j
    by (cases op) (auto simp: fp)
  moreover have "val_in plain (arith_float ops op x y)" for x y
    by (cases op) (auto simp: fp)
  moreover have "val_in plain (arith_complex ops op p q)" for p q
    by (cases op; cases p; cases q) (auto simp: cp split: prod.split)
  ultimately have "val_in plain (arith_num ops op a b)" for a b
    by (auto simp: arith_num_def split: pynum.split)
  moreover have "val_in plain (seq_op op v w)"
    by (auto simp: seq_op_def seq_repeat_def str_repeat_def tuple_repeat_def split: option.split pyval.split)
  ultimately show ?thesis by (auto simp: binop_val_def split: option.split)
qed

lemma unop_val_plain: "val_in plain (unop_val ops op v)"
  by (cases "(ops, op, v)" rule: unop_val.cases) simp_all

lemma stays_simps [simp]: "stays (Val v)" "stays (Raise e)" "\<not> stays (Outside w)"
  by (simp_all add: stays_def)

lemma stays_ebind:
  "stays r \<Longrightarrow> (\<And>v. r = Val v \<Longrightarrow> stays (k v)) \<Longrightarrow> stays (ebind r k)"
  by (cases r) simp_all

lemma val_in_ValD: "val_in P r \<Longrightarrow> r = Val v \<Longrightarrow> P v"
  by (simp add: val_in_def)

lemma binop_val_stays: "stays (binop_val ops op v w)"
proof -
  have fp: "stays (float_pow ops x y)" for x y
    by (simp add: float_pow_def complex_pow_def split: fpow.split sum.split prod.split)
  have cp: "stays (complex_pow ops p q)" for p q
    by (simp add: complex_pow_def split: sum.split prod.split)
  have oo: "stays (of_option e x)" for e and x :: "'b option"
    by (simp add: of_option_def split: option.split)
  have tf: "stays (to_float ops a)" "stays (to_complex ops a)" for a
    by (cases a; simp add: oo stays_ebind)+
  have "stays (arith_int ops op i j)" for i j
    by (cases op) (auto simp: fp oo tf intro!: stays_ebind)
  moreover have "stays (arith_float ops op x y)" for x y
    by (cases op) (auto simp: fp)
  moreover have "stays (arith_complex ops op p q)" for p q
    by (cases op; cases p; cases q) (auto simp: cp split: prod.split)
  ultimately have "stays (arith_num ops op a b)" for a b
    by (auto simp: arith_num_def tf oo intro!: stays_ebind split: pynum.split)
  moreover have "stays (seq_op op v w)"
    by (auto simp: seq_op_def seq_repeat_def str_repeat_def tuple_repeat_def split: option.split pyval.split)
  ultimately show ?thesis by (auto simp: binop_val_def split: option.split)
qed

lemma unop_val_stays: "stays (unop_val ops op v)"
  by (cases "(ops, op, v)" rule: unop_val.cases) simp_all

lemma lookup_name_stays: "stays (lookup_name nm)"
  by (simp add: lookup_name_def split: option.split)

lemma math_attr_stays: "stays (math_attr ops nm)"
  by (simp add: math_attr_def split: option.split)

lemma eval_const_plain: "val_in plain (eval_expr ops (Constant c))"
proof (cases c)
  case (CNum l)
  then show ?thesis by (cases l) simp_all
qed (simp add: plain_def)

lemma eval_module: "eval_expr ops e = Val (PModule m) \<Longrightarrow> m = ustr ''math''"
proof (cases e)
  case (Name x)
  then show "eval_expr ops e = Val (PModule m) \<Longrightarrow> ?thesis"
    by (auto simp: lookup_name_def allowed_context_def split: option.splits if_splits)
next
  case (Attribute e' x)
  then show "eval_expr ops e = Val (PModule m) \<Longrightarrow> ?thesis"
    using math_attr_no_module by (cases "eval_expr ops e'") (auto simp: getattr_val_def split: pyval.splits if_splits)
next
  case (BinOp a op b)
  then show "eval_expr ops e = Val (PModule m) \<Longrightarrow> ?thesis"
    using binop_val_plain by (cases "eval_expr ops a"; cases "eval_expr ops b") (fastforce dest: val_in_ValD simp: plain_def)+
next
  case (UnaryOp u a)
  then show "eval_expr ops e = Val (PModule m) \<Longrightarrow> ?thesis"
    using unop_val_plain by (cases "eval_expr ops a") (fastforce dest: val_in_ValD simp: plain_def)+
next
  case (Call f as ks)
  then show "eval_expr ops e = Val (PModule m) \<Longrightarrow> ?thesis"
    by (cases "eval_expr ops f"; cases "eval_args ops as"; cases "eval_kwargs ops ks") (auto simp: call_val_def split: if_splits)
next
  case (Tuple es)
  then show "eval_expr ops e = Val (PModule m) \<Longrightarrow> ?thesis"
    by (cases "eval_list ops es") auto
next
  case (Constant c)
  then show "eval_expr ops e = Val (PModule m) \<Longrightarrow> ?thesis"
    using eval_const_plain [of ops c] by (auto dest: val_in_ValD simp: plain_def)
qed

lemma call_val_plain: "plain f \<Longrightarrow> call_val f = Raise TypeError"
  by (simp add: call_val_def plain_def)

lemma call_val_no_val [simp]: "val_in P (call_val f)"
  by (simp add: call_val_def)

lemma eval_const_stays [simp]: "stays (eval_expr ops (Constant c))"
proof (cases c)
  case (CNum l)
  then show ?thesis by (cases l) simp_all
qed simp

lemma pure_eval:
  "pure e \<Longrightarrow> stays (eval_expr ops e) \<and> val_in plain (eval_expr ops e)"
  "list_all pure_arg as \<Longrightarrow> stays (eval_args ops as)"
  "list_all pure ks \<Longrightarrow> stays (eval_kwargs ops ks)"
  "list_all pure es \<Longrightarrow> stays (eval_list ops es)"
proof (induction ops e and ops as and ops ks and ops es rule: eval_expr_eval_args_eval_kwargs_eval_list.induct)
  case (6 ops a op b)
  then show ?case
    by (auto intro!: stays_ebind simp: binop_val_stays binop_val_plain)
next
  case (7 ops op a)
  then show ?case
    by (auto intro!: stays_ebind simp: unop_val_stays unop_val_plain)
next
  case (8 ops f args kws)
  then show ?case
    by (auto intro!: stays_ebind simp: call_val_plain dest: val_in_ValD)
next
  case (9 ops es)
  then show ?case by (auto intro!: stays_ebind)
next
  case (11 ops e as)
  then show ?case by (auto intro!: stays_ebind)
next
  case (12 ops e as)
  then show ?case by (auto intro!: stays_ebind)
next
  case (14 ops e es)
  then show ?case by (auto intro!: stays_ebind)
next
  case (16 ops e es)
  then show ?case by (auto intro!: stays_ebind)
qed (simp_all add: plain_def)

lemma ends_math_val: "ends_math e \<Longrightarrow> eval_expr ops e = Val v \<Longrightarrow> v = PModule (ustr ''math'')"
proof (cases e)
  case (Name x)
  then show "ends_math e \<Longrightarrow> eval_expr ops e = Val v \<Longrightarrow> ?thesis"
    by (auto simp: lookup_name_def allowed_context_def py_endswith_def split: option.splits if_splits)
next
  case (Attribute e' x)
  assume em: "ends_math e" and ev: "eval_expr ops e = Val v"
  then obtain v' where v': "eval_expr ops e' = Val v'" and g: "getattr_val ops v' x = Val v"
    using Attribute by (cases "eval_expr ops e'") auto
  have x: "py_endswith x (ustr ''math'')" using em Attribute by simp
  show ?thesis
  proof (cases "\<exists>m. v' = PModule m")
    case True
    then have "v' = PModule (ustr ''math'')" using eval_module v' by blast
    then show ?thesis using g math_attr_endswith [OF x, of ops] by (simp add: getattr_val_def)
  next
    case False
    then show ?thesis using g x by (auto simp: getattr_val_def split: pyval.splits)
  qed
qed simp_all

lemma good_eval: "good e \<Longrightarrow> stays (eval_expr ops e)"
proof (induction e rule: good.induct)
  case (1 e nm)
  have "stays (getattr_val ops v nm)" if v: "eval_expr ops e = Val v" for v
  proof (cases "\<exists>m. v = PModule m")
    case True
    then have "v = PModule (ustr ''math'')" using eval_module v by blast
    then show ?thesis by (simp add: getattr_val_def math_attr_stays)
  next
    case False
    then have "\<not> ends_math e" using ends_math_val v by blast
    then have "py_endswith nm (ustr ''math'')" using "1.prems" by simp
    then show ?thesis using False by (auto simp: getattr_val_def split: pyval.splits)
  qed
  then show ?case using 1 by (auto intro!: stays_ebind)
next
  case (2 a op b)
  then show ?case by (auto intro!: stays_ebind simp: binop_val_stays)
next
  case (3 u a)
  then show ?case by (auto intro!: stays_ebind simp: unop_val_stays)
next
  case (4 f as ks)
  then show ?case using pure_eval(1) [of "Call f as ks" ops] by simp
next
  case (5 es)
  then show ?case using pure_eval(1) [of "Tuple es" ops] by simp
qed (simp_all add: lookup_name_stays)
end
