(* ===== verification/Sandbox_Parse.thy ===== *)
theory Sandbox_Parse
  imports Parser Sandbox_Eval
begin

text \<open>
  The parser's side of the sandbox argument. Two properties of a token list are enough
  for \<open>parse_eval\<close> to build a \<open>good\<close> expression: after the first name no parenthesis
  follows (\<open>names_last\<close>), so no call can follow a name; and every \<open>. name\<close> either
  names something ending in \<open>math\<close> or follows such a name (\<open>attr_triples\<close>).
  \<open>parse_nt_post\<close> shows, by induction on the fuel, that every grammar step keeps the
  invariant \<open>pre\<close> and yields a value with \<open>post\<close>; \<open>parse_eval_good\<close> concludes.
\<close>

fun is_name :: "token \<Rightarrow> bool" where
  "is_name (TName x) = True"
| "is_name _ = False"

fun is_paren :: "token \<Rightarrow> bool" where
  "is_paren TLPar = True"
| "is_paren TRPar = True"
| "is_paren _ = False"

definition paren_free :: "token list \<Rightarrow> bool" where
  "paren_free toks \<longleftrightarrow> list_all (\<lambda>t. \<not> is_paren t) toks"

fun names_last :: "token list \<Rightarrow> bool" where
  "names_last [] = True"
| "names_last (t # r) = (if is_name t then paren_free r else names_last r)"

fun ends_math_tok :: "token \<Rightarrow> bool" where
  "ends_math_tok (TName x) = py_endswith x (ustr ''math'')"
| "ends_math_tok _ = False"

fun attr_triples :: "token list \<Rightarrow> bool" where
  "attr_triples (x # TDot # TName n # r) =
     ((py_endswith n (ustr ''math'') \<or> ends_math_tok x) \<and> attr_triples (TDot # TName n # r))"
| "attr_triples (x # r) = attr_triples r"
| "attr_triples [] = True"

fun next_attr_ok :: "expr \<Rightarrow> token list \<Rightarrow> bool" where
  "next_attr_ok e (TDot # TName n # r) = (py_endswith n (ustr ''math'') \<or> ends_math e)"
| "next_attr_ok e _ = True"

fun pure_pv :: "pval \<Rightarrow> bool" where
  "pure_pv (PExpr e) = pure e"
| "pure_pv (PArgs as ks) = (list_all pure_arg as \<and> list_all pure ks)"

fun good_pv :: "pval \<Rightarrow> bool" where
  "good_pv (PExpr e) = good e"
| "good_pv (PArgs as ks) = pure_pv (PArgs as ks)"

fun next_ok :: "pval \<Rightarrow> token list \<Rightarrow> bool" where
  "next_ok (PExpr e) r = next_attr_ok e r"
| "next_ok (PArgs as ks) r = next_attr_ok (Tuple []) r"

definition loop_ok :: "expr \<Rightarrow> token list \<Rightarrow> bool" where
  "loop_ok acc toks \<longleftrightarrow> good acc \<and> (\<not> pure acc \<longrightarrow> paren_free toks)"

fun nt_pre :: "nt \<Rightarrow> token list \<Rightarrow> bool" where
  "nt_pre (NSumLoop acc) toks = loop_ok acc toks"
| "nt_pre (NTermLoop acc) toks = loop_ok acc toks"
| "nt_pre (NPrimaryLoop acc) toks = (loop_ok acc toks \<and> next_attr_ok acc toks)"
| "nt_pre _ toks = True"

definition pre :: "nt \<Rightarrow> token list \<Rightarrow> bool" where
  "pre nt toks \<longleftrightarrow> names_last toks \<and> attr_triples toks \<and> nt_pre nt toks"

definition core :: "token list \<Rightarrow> pval \<Rightarrow> token list \<Rightarrow> bool" where
  "core toks v r \<longleftrightarrow> (\<exists>c. toks = c @ r) \<and> good_pv v \<and> (\<not> pure_pv v \<longrightarrow> paren_free r)"

definition post :: "nt \<Rightarrow> token list \<Rightarrow> pval \<Rightarrow> token list \<Rightarrow> bool" where
  "post nt toks v r \<longleftrightarrow> core toks v r \<and> ((nt = NAtom \<or> nt = NCallArgs) \<longrightarrow> next_ok v r)"

lemma paren_free_simps [simp]:
  "paren_free []" "paren_free (t # r) \<longleftrightarrow> \<not> is_paren t \<and> paren_free r"
  "paren_free (c @ r) \<longleftrightarrow> paren_free c \<and> paren_free r"
  by (simp_all add: paren_free_def)

lemma paren_free_names_last: "paren_free r \<Longrightarrow> names_last r"
  by (induction r) auto

lemma names_last_suffix: "names_last (c @ r) \<Longrightarrow> names_last r"
  by (induction c) (auto split: if_splits intro: paren_free_names_last)

lemma attr_triples_Cons: "attr_triples (x # r) \<Longrightarrow> attr_triples r"
  by (cases "(x # r)" rule: attr_triples.cases) auto

lemma attr_triples_suffix: "attr_triples (c @ r) \<Longrightarrow> attr_triples r"
  by (induction c) (auto dest: attr_triples_Cons)

lemma pre_suffix: "pre nt (c @ r) \<Longrightarrow> nt_pre nt' r \<Longrightarrow> pre nt' r"
  by (auto simp: pre_def dest: names_last_suffix attr_triples_suffix)

lemma next_after: "attr_triples (x # r) \<Longrightarrow> \<not> ends_math_tok x \<Longrightarrow> next_attr_ok e r"
  by (cases "(e, r)" rule: next_attr_ok.cases) auto

lemma next_after_name:
  "attr_triples (TName x # r) \<Longrightarrow> next_attr_ok (Name x) r \<and> next_attr_ok (Attribute a x) r"
  by (cases "(Name x, r)" rule: next_attr_ok.cases) auto

lemma next_attr_ok_plain: "\<not> ends_math e \<Longrightarrow> next_attr_ok e r = next_attr_ok (Tuple []) r"
  by (cases "(e, r)" rule: next_attr_ok.cases) auto

lemma core_trans: "toks = c @ r0 \<Longrightarrow> core r0 v r \<Longrightarrow> core toks v r"
  by (auto simp: core_def)

lemma then_expr_POk:
  "then_expr res k = POk v r \<Longrightarrow> \<exists>e r0. res = POk (PExpr e) r0 \<and> k e r0 = POk v r"
  by (auto simp: then_expr_def split: presult.splits pval.splits)

lemma or_keep_POk:
  "or_keep res k fb = POk v r \<Longrightarrow> (\<exists>e r0. res = POk (PExpr e) r0 \<and> k e r0 = POk v r) \<or> fb = POk v r"
  by (auto simp: or_keep_def split: presult.splits pval.splits)

lemma close_paren_POk:
  "close_paren res f = POk v r \<Longrightarrow> \<exists>e. res = POk (PExpr e) (TRPar # r) \<and> v = f e"
  by (auto simp: close_paren_def neq_Nil_conv split: presult.splits pval.splits if_splits)


lemma acc_post: "pre nt toks \<Longrightarrow> loop_ok acc toks \<Longrightarrow> nt \<noteq> NAtom \<Longrightarrow> nt \<noteq> NCallArgs \<Longrightarrow>
    post nt toks (PExpr acc) toks"
  by (auto simp: post_def core_def loop_ok_def)

lemma seq_post:
  assumes IH: "\<And>nt' toks' v' r'. pre nt' toks' \<Longrightarrow> p nt' toks' = POk v' r' \<Longrightarrow> post nt' toks' v' r'"
    and pre: "pre nt toks" and A: "nt_pre A toks"
    and res: "then_expr (p A toks) (\<lambda>e r. p (L e) r) = POk v r"
    and L: "\<And>e r0. post A toks (PExpr e) r0 \<Longrightarrow> nt_pre (L e) r0"
    and nt: "nt \<noteq> NAtom" "nt \<noteq> NCallArgs"
  shows "post nt toks v r"
proof -
  obtain e r0 where a: "p A toks = POk (PExpr e) r0" and l: "p (L e) r0 = POk v r"
    using then_expr_POk [OF res] by blast
  have pa: "post A toks (PExpr e) r0" using IH [OF _ a] pre A by (simp add: pre_def)
  then obtain c where c: "toks = c @ r0" by (auto simp: post_def core_def)
  have "pre (L e) r0" using pre_suffix [of nt c r0] pre c L [OF pa] by simp
  then have "core r0 v r" using IH [OF _ l] by (simp add: post_def)
  then show ?thesis using c nt by (simp add: post_def core_trans)
qed

lemma loop_post:
  assumes IH: "\<And>nt' toks' v' r'. pre nt' toks' \<Longrightarrow> p nt' toks' = POk v' r' \<Longrightarrow> post nt' toks' v' r'"
    and pre: "pre (L acc) toks" and A: "\<And>r. nt_pre A r"
    and Lpre: "\<And>x r. nt_pre (L x) r = loop_ok x r" and nt: "L acc \<noteq> NAtom" "L acc \<noteq> NCallArgs"
    and res: "(case toks of [] \<Rightarrow> POk (PExpr acc) []
              | t # r1 \<Rightarrow> (case f t of None \<Rightarrow> POk (PExpr acc) toks
                  | Some op \<Rightarrow> or_keep (p A r1) (\<lambda>e r'. p (L (BinOp acc op e)) r') (POk (PExpr acc) toks)))
             = POk v r"
  shows "post (L acc) toks v r"
proof -
  have acc: "loop_ok acc toks" using pre Lpre by (simp add: pre_def)
  show ?thesis
  proof (cases toks)
    case Nil
    then show ?thesis using res acc by (auto simp: post_def core_def loop_ok_def)
  next
    case (Cons t r1)
    show ?thesis
    proof (cases "f t")
      case None
      then show ?thesis using res Cons acc_post [OF pre acc nt] by simp
    next
      case (Some op)
      then have ok: "or_keep (p A r1) (\<lambda>e r'. p (L (BinOp acc op e)) r') (POk (PExpr acc) toks) = POk v r"
        using res Cons by simp
      show ?thesis
      proof (cases "POk (PExpr acc) toks = POk v r")
        case True
        then show ?thesis using acc_post [OF pre acc nt] by simp
      next
        case False
        then obtain e r0 where a: "p A r1 = POk (PExpr e) r0"
          and l: "p (L (BinOp acc op e)) r0 = POk v r"
          using or_keep_POk [OF ok] by blast
        have "pre A r1" using pre_suffix [of "L acc" "[t]" r1] pre Cons A by simp
        then have pa: "core r1 (PExpr e) r0" using IH [OF _ a] by (simp add: post_def)
        then obtain c where c: "r1 = c @ r0" by (auto simp: core_def)
        have "loop_ok (BinOp acc op e) r0"
          using acc pa c Cons by (auto simp: loop_ok_def core_def)
        then have "pre (L (BinOp acc op e)) r0"
          using pre_suffix [of "L acc" "t # c" r0] pre c Cons Lpre by simp
        then have "core r0 v r" using IH [OF _ l] by (simp add: post_def)
        then have "core toks v r" using c Cons core_trans [of toks "t # c" r0] by simp
        then show ?thesis using nt by (simp add: post_def)
      qed
    qed
  qed
qed

lemma step_NFactor:
  assumes IH: "\<And>nt' toks' v' r'. pre nt' toks' \<Longrightarrow> p nt' toks' = POk v' r' \<Longrightarrow> post nt' toks' v' r'"
    and pre: "pre NFactor toks" and res: "parse_step p NFactor toks = POk v r"
  shows "post NFactor toks v r"
proof -
  have pw: "post NFactor toks v r" if "p NPower toks = POk v r"
    using IH [OF _ that] pre by (simp add: pre_def post_def)
  show ?thesis
  proof (cases toks)
    case Nil
    then show ?thesis using res pw by (simp add: parse_step_def)
  next
    case (Cons t r1)
    show ?thesis
    proof (cases "unary_op t")
      case None
      then show ?thesis using res pw Cons by (simp add: parse_step_def)
    next
      case (Some op)
      then obtain e where f: "p NFactor r1 = POk (PExpr e) r" and v: "v = PExpr (UnaryOp op e)"
        using res Cons by (auto simp: parse_step_def dest!: then_expr_POk)
      have "pre NFactor r1" using pre_suffix [of NFactor "[t]" r1] pre Cons by simp
      then have "core r1 (PExpr e) r" using IH [OF _ f] by (simp add: post_def)
      then obtain c where "r1 = c @ r" "good e" "\<not> pure e \<longrightarrow> paren_free r" by (auto simp: core_def)
      then show ?thesis using Cons v by (auto simp: post_def core_def intro!: exI [of _ "t # c"])
    qed
  qed
qed

lemma step_NPower:
  assumes IH: "\<And>nt' toks' v' r'. pre nt' toks' \<Longrightarrow> p nt' toks' = POk v' r' \<Longrightarrow> post nt' toks' v' r'"
    and pre: "pre NPower toks" and res: "parse_step p NPower toks = POk v r"
  shows "post NPower toks v r"
proof -
  obtain e r0 where a: "p NPrimary toks = POk (PExpr e) r0"
    and k: "(if r0 \<noteq> [] \<and> hd r0 = TDoubleStar
             then or_keep (p NFactor (tl r0)) (\<lambda>e' r'. POk (PExpr (BinOp e PowOp e')) r') (POk (PExpr e) r0)
             else POk (PExpr e) r0) = POk v r"
    using res by (auto simp: parse_step_def dest!: then_expr_POk)
  have pa: "core toks (PExpr e) r0" using IH [OF _ a] pre by (simp add: pre_def post_def)
  then obtain c where c: "toks = c @ r0" by (auto simp: core_def)
  show ?thesis
  proof (cases "POk (PExpr e) r0 = POk v r")
    case True
    then show ?thesis using pa by (simp add: post_def)
  next
    case False
    then obtain e' where r0: "r0 = TDoubleStar # tl r0" and f: "p NFactor (tl r0) = POk (PExpr e') r"
      and v: "v = PExpr (BinOp e PowOp e')"
      using k by (auto split: if_splits dest!: or_keep_POk) (metis list.collapse)+
    have "pre NFactor (tl r0)" using pre_suffix [of NPower "c @ [TDoubleStar]" "tl r0"] pre c r0 by simp
    then have pf: "core (tl r0) (PExpr e') r" using IH [OF _ f] by (simp add: post_def)
    then obtain d where d: "tl r0 = d @ r" by (auto simp: core_def)
    have "core toks v r" using pa pf c d r0 v by (auto simp: core_def)
    then show ?thesis by (simp add: post_def)
  qed
qed

lemma closed_group:
  assumes IH: "\<And>nt' toks' v' r'. pre nt' toks' \<Longrightarrow> p nt' toks' = POk v' r' \<Longrightarrow> post nt' toks' v' r'"
    and pre: "pre nt toks" and c: "toks = c @ rs" and s: "p NSum rs = POk (PExpr e) (TRPar # r)"
  shows "pure e \<and> good e \<and> (\<exists>d. toks = d @ r) \<and> next_attr_ok e' r"
proof -
  have "pre NSum rs" using pre_suffix [of nt c rs] pre c by simp
  then have cr: "core rs (PExpr e) (TRPar # r)" using IH [OF _ s] by (simp add: post_def)
  then obtain d where d: "rs = d @ TRPar # r" by (auto simp: core_def)
  have "attr_triples (TRPar # r)"
    using pre c d attr_triples_suffix [of "c @ d" "TRPar # r"] by (simp add: pre_def)
  then show ?thesis using cr c d next_after [of TRPar r e'] by (auto simp: core_def)
qed

lemma step_NCallArgs:
  assumes IH: "\<And>nt' toks' v' r'. pre nt' toks' \<Longrightarrow> p nt' toks' = POk v' r' \<Longrightarrow> post nt' toks' v' r'"
    and pre: "pre NCallArgs toks" and res: "parse_step p NCallArgs toks = POk v r"
  shows "post NCallArgs toks v r"
proof (cases toks)
  case (Cons t r1)
  note grp = closed_group [OF IH pre]
  show ?thesis
  proof (cases "t = TRPar")
    case True
    then have "attr_triples (TRPar # r1)" using pre Cons by (simp add: pre_def)
    then show ?thesis using res Cons True next_after [of TRPar r1 "Tuple []"]
      by (auto simp: parse_step_def post_def core_def)
  next
    case notr: False
    show ?thesis
    proof (cases "t = TStar \<or> t = TDoubleStar")
      case True
      then obtain e where "p NSum r1 = POk (PExpr e) (TRPar # r)"
        and "v = PArgs [StarArg e] [] \<or> v = PArgs [] [e]"
        using res Cons notr by (auto simp: parse_step_def dest!: close_paren_POk)
      then show ?thesis using grp [where c = "[t]" and rs = r1 and e = e and r = r and e' = "Tuple []"] Cons
        by (auto simp: post_def core_def)
    next
      case False
      then obtain e where "p NSum toks = POk (PExpr e) (TRPar # r)" and "v = PArgs [Arg e] []"
        using res Cons notr by (auto simp: parse_step_def dest!: close_paren_POk)
      then show ?thesis using grp [where c = "[]" and rs = toks and e = e and r = r and e' = "Tuple []"]
        by (auto simp: post_def core_def)
    qed
  qed
qed (use res in \<open>simp add: parse_step_def\<close>)

lemma step_NAtom:
  assumes IH: "\<And>nt' toks' v' r'. pre nt' toks' \<Longrightarrow> p nt' toks' = POk v' r' \<Longrightarrow> post nt' toks' v' r'"
    and pre: "pre NAtom toks" and res: "parse_step p NAtom toks = POk v r"
  shows "post NAtom toks v r"
proof (cases toks)
  case (Cons t r1)
  have nl: "names_last (t # r1)" and at: "attr_triples (t # r1)" using pre Cons by (simp_all add: pre_def)
  show ?thesis
  proof (cases "t = TLPar")
    case True
    show ?thesis
    proof (cases "r1 \<noteq> [] \<and> hd r1 = TRPar")
      case empty: True
      then have r1: "r1 = TRPar # tl r1" by (cases r1) auto
      then have "attr_triples (TRPar # tl r1)" using at attr_triples_Cons by metis
      then show ?thesis using res Cons True empty r1 next_after [of TRPar "tl r1" "Tuple []"]
        by (auto simp: parse_step_def post_def core_def intro!: exI [of _ "[t, TRPar]"])
    next
      case False
      then obtain e where "p NSum r1 = POk (PExpr e) (TRPar # r)" and "v = PExpr e"
        using res Cons True by (auto simp: parse_step_def dest!: close_paren_POk)
      then show ?thesis using closed_group [OF IH pre, where c = "[t]" and rs = r1 and e = e and r = r and e' = e] Cons
        by (auto simp: post_def core_def)
    qed
  next
    case False
    then obtain e where a: "atom_tok t = Some e" and v: "v = PExpr e" and r: "r = r1"
      using res Cons by (auto simp: parse_step_def split: option.splits)
    show ?thesis
    proof (cases t)
      case (TName nm)
      then show ?thesis using a v r Cons nl next_after_name [of nm r1] at
        by (auto simp: post_def core_def split: if_splits)
    qed (use a v r Cons at next_after [of t r1 e] in \<open>auto simp: post_def core_def\<close>)
  qed
qed (use res in \<open>simp add: parse_step_def\<close>)

lemma step_NPrimaryLoop:
  assumes IH: "\<And>nt' toks' v' r'. pre nt' toks' \<Longrightarrow> p nt' toks' = POk v' r' \<Longrightarrow> post nt' toks' v' r'"
    and pre: "pre (NPrimaryLoop acc) toks" and res: "parse_step p (NPrimaryLoop acc) toks = POk v r"
  shows "post (NPrimaryLoop acc) toks v r"
proof -
  have acc: "loop_ok acc toks" and nx: "next_attr_ok acc toks" and nl: "names_last toks"
    and at: "attr_triples toks" using pre by (simp_all add: pre_def)
  have stop: "post (NPrimaryLoop acc) toks (PExpr acc) toks"
    using acc_post [OF pre acc] by simp
  show ?thesis
  proof (cases toks)
    case Nil
    then show ?thesis using res stop by (simp add: parse_step_def)
  next
    case (Cons t r1)
    show ?thesis
    proof (cases "t = TDot")
      case dot: True
      show ?thesis
      proof (cases "\<exists>nm r'. r1 = TName nm # r' \<and> \<not> is_keyword nm")
        case True
        then obtain nm r' where r1: "r1 = TName nm # r'" and kw: "\<not> is_keyword nm" by blast
        have l: "p (NPrimaryLoop (Attribute acc nm)) r' = POk v r"
          using res Cons dot r1 kw by (simp add: parse_step_def)
        have "good (Attribute acc nm)" using acc nx Cons dot r1 by (auto simp: loop_ok_def)
        moreover have "paren_free r'" using nl Cons dot r1 by simp
        moreover have "next_attr_ok (Attribute acc nm) r'"
          using at Cons dot r1 next_after_name [of nm r'] attr_triples_Cons by metis
        ultimately have "pre (NPrimaryLoop (Attribute acc nm)) r'"
          using pre_suffix [of "NPrimaryLoop acc" "[TDot, TName nm]" r'] pre Cons dot r1
          by (simp add: loop_ok_def)
        then have "core r' v r" using IH [OF _ l] by (simp add: post_def)
        then show ?thesis using Cons dot r1 core_trans [of toks "[TDot, TName nm]" r'] by (simp add: post_def)
      next
        case False
        then have "v = PExpr acc \<and> r = toks"
          using res Cons dot by (auto simp: parse_step_def split: list.splits option.splits if_splits
              elim!: name_tok.elims)
        then show ?thesis using stop by simp
      qed
    next
      case nodot: False
      show ?thesis
      proof (cases "t = TLPar \<and> (\<exists>args kws r'. p NCallArgs r1 = POk (PArgs args kws) r')")
        case True
        then obtain args kws r' where lp: "t = TLPar" and ca: "p NCallArgs r1 = POk (PArgs args kws) r'"
          by blast
        have l: "p (NPrimaryLoop (Call acc args kws)) r' = POk v r"
          using res Cons lp ca by (simp add: parse_step_def)
        have "pre NCallArgs r1" using pre_suffix [of "NPrimaryLoop acc" "[t]" r1] pre Cons by simp
        then have pc: "post NCallArgs r1 (PArgs args kws) r'" using IH [OF _ ca] by simp
        then obtain c where c: "r1 = c @ r'" by (auto simp: post_def core_def)
        have "pure acc" using acc Cons lp by (auto simp: loop_ok_def)
        then have "good (Call acc args kws) \<and> pure (Call acc args kws)"
          using pc by (simp add: post_def core_def)
        moreover have "next_attr_ok (Call acc args kws) r'"
          using pc next_attr_ok_plain [of "Call acc args kws" r'] by (simp add: post_def)
        ultimately have "pre (NPrimaryLoop (Call acc args kws)) r'"
          using pre_suffix [of "NPrimaryLoop acc" "t # c" r'] pre Cons c by (simp add: loop_ok_def)
        then have "core r' v r" using IH [OF _ l] by (simp add: post_def)
        then show ?thesis using Cons c core_trans [of toks "t # c" r'] by (simp add: post_def)
      next
        case False
        then have "v = PExpr acc \<and> r = toks"
          using res Cons nodot by (auto simp: parse_step_def split: presult.splits pval.splits if_splits)
        then show ?thesis using stop by simp
      qed
    qed
  qed
qed

lemma parse_step_post:
  assumes IH: "\<And>nt' toks' v' r'. pre nt' toks' \<Longrightarrow> p nt' toks' = POk v' r' \<Longrightarrow> post nt' toks' v' r'"
    and pre: "pre nt toks" and res: "parse_step p nt toks = POk v r"
  shows "post nt toks v r"
proof (cases nt)
  case NSum
  then show ?thesis using seq_post [OF IH, where nt = nt and toks = toks and A = NTerm and L = NSumLoop] pre res
    by (auto simp: parse_step_def post_def core_def loop_ok_def)
next
  case (NSumLoop acc)
  then show ?thesis using loop_post [OF IH, where L = NSumLoop and acc = acc and toks = toks and A = NTerm and f = sum_op] pre res
    by (simp add: parse_step_def)
next
  case NTerm
  then show ?thesis using seq_post [OF IH, where nt = nt and toks = toks and A = NFactor and L = NTermLoop] pre res
    by (auto simp: parse_step_def post_def core_def loop_ok_def)
next
  case (NTermLoop acc)
  then show ?thesis using loop_post [OF IH, where L = NTermLoop and acc = acc and toks = toks and A = NFactor and f = term_op] pre res
    by (simp add: parse_step_def)
next
  case NFactor
  then show ?thesis using step_NFactor [OF IH] pre res by simp
next
  case NPower
  then show ?thesis using step_NPower [OF IH] pre res by simp
next
  case NPrimary
  then show ?thesis using seq_post [OF IH, where nt = nt and toks = toks and A = NAtom and L = NPrimaryLoop] pre res
    by (auto simp: parse_step_def post_def core_def loop_ok_def)
next
  case (NPrimaryLoop acc)
  then show ?thesis using step_NPrimaryLoop [OF IH] pre res by simp
next
  case NCallArgs
  then show ?thesis using step_NCallArgs [OF IH] pre res by simp
next
  case NAtom
  then show ?thesis using step_NAtom [OF IH] pre res by simp
qed

lemma parse_nt_post: "pre nt toks \<Longrightarrow> parse_nt n nt toks = POk v r \<Longrightarrow> post nt toks v r"
proof (induction n arbitrary: nt toks v r)
  case (Suc n)
  then show ?case using parse_step_post [of "parse_nt n"] by (simp add: parse_nt.simps(2))
qed simp

lemma parse_eval_good:
  "parse_eval toks = Some e \<Longrightarrow> names_last toks \<Longrightarrow> attr_triples toks \<Longrightarrow> good e"
  using parse_nt_post [of NSum toks "parse_fuel toks" "PExpr e" "[]"]
  by (auto simp: parse_eval_def pre_def post_def core_def split: presult.splits pval.splits list.splits)
end
