(* ===== verification/Sandbox.thy ===== *)
theory Sandbox
  imports Calculator Sandbox_Parse
begin

text \<open>
  The calculator never leaves the modelled fragment of Python: no input that passes the
  allow-list of lines 67--69 makes \<open>eval\<close> call a callable or read an attribute other
  than those of the module \<open>math\<close>, so the result \<open>NotModelled\<close> never occurs. The
  allow-list forces the shape \<open>u @ chain_str ls\<close>: a part \<open>u\<close> without letters followed
  by \<open>math.w1math.w2...\<close>. The lemmas below show that the tokenizer keeps that shape
  (\<open>tok_prefix\<close>: letter-free tokens followed by \<open>chain_toks ls\<close>, no token crossing the
  border), that such token lists satisfy the two conditions of \<open>Sandbox_Parse\<close>, and
  combine this with \<open>parse_eval_good\<close> and \<open>good_eval\<close>.
\<close>

text \<open>The tokens of \<open>chain_str ls\<close>: each word but the last runs into the next \<open>math\<close>.\<close>

fun ctail :: "pystr \<Rightarrow> pystr list \<Rightarrow> token list" where
  "ctail l [] = [TName l]"
| "ctail l (l' # ls) = TName (l @ ustr ''math'') # TDot # ctail l' ls"

fun chain_toks :: "pystr list \<Rightarrow> token list" where
  "chain_toks [] = []"
| "chain_toks (l # ls) = TName (ustr ''math'') # TDot # ctail l ls"

definition chain_str :: "pystr list \<Rightarrow> pystr" where
  "chain_str ls = concat (map (\<lambda>l. math_dot @ l) ls)"

definition word_ok :: "pystr \<Rightarrow> bool" where
  "word_ok l \<longleftrightarrow> l \<noteq> [] \<and> (\<forall>c\<in>set l. ident_letter c)"

definition chain_head :: "pystr \<Rightarrow> bool" where
  "chain_head v \<longleftrightarrow> v = [] \<or> hd v = 109"

definition tok_next :: "token list \<Rightarrow> token list \<Rightarrow> bool" where
  "tok_next toks toks' \<longleftrightarrow> toks = toks' \<or> (\<exists>t. toks = t # toks' \<and> \<not> is_name t)"

lemma chain_lang_words: "chain_lang v \<Longrightarrow> \<exists>ls. v = chain_str ls \<and> (\<forall>l\<in>set ls. word_ok l)"
proof (induction rule: chain_lang.induct)
  case chain_empty
  then show ?case by (intro exI [of _ "[]"]) (simp add: chain_str_def)
next
  case (chain_step l r)
  then obtain ls where "r = chain_str ls" "\<forall>l\<in>set ls. word_ok l" by blast
  with chain_step.hyps show ?case
    by (intro exI [of _ "l # ls"]) (simp add: chain_str_def word_ok_def)
qed

lemma letters_id: "\<forall>c\<in>set l. ident_letter c \<Longrightarrow> takeWhile is_id_char (l @ 46 # r) = l \<and>
    dropWhile is_id_char (l @ 46 # r) = 46 # r"
  by (induction l) (auto simp: is_id_char_def is_digit_def ident_letter_def)

lemma letters_id_end: "\<forall>c\<in>set l. ident_letter c \<Longrightarrow> takeWhile is_id_char l = l \<and> dropWhile is_id_char l = []"
  by (induction l) (auto simp: is_id_char_def)

lemma tok_ident:
  "ident_letter c \<Longrightarrow> tokenize_from lvl (c # s) =
     map_option (Cons (TName (c # takeWhile is_id_char s))) (tokenize_from lvl (dropWhile is_id_char s))"
  by (subst tokenize_from.simps) (auto simp: ident_letter_def is_digit_def)

lemma tok_dot_letter:
  "ident_letter c \<Longrightarrow> tokenize_from lvl (46 # c # s) = map_option (Cons TDot) (tokenize_from lvl (c # s))"
  by (subst tokenize_from.simps) (auto simp: ident_letter_def is_digit_def)

lemma tok_Nil: "tokenize_from lvl [] = (if lvl = 0 then Some [] else None)"
  by simp

lemma tok_ctail:
  "word_ok l \<Longrightarrow> \<forall>l\<in>set ls. word_ok l \<Longrightarrow>
   tokenize_from lvl (l @ chain_str ls) = (if lvl = 0 then Some (ctail l ls) else None)"
proof (induction ls arbitrary: l)
  case Nil
  then obtain c l' where l: "l = c # l'" "ident_letter c" "\<forall>c\<in>set l'. ident_letter c"
    by (cases l) (auto simp: word_ok_def)
  have d: "dropWhile is_id_char l' = []" "takeWhile is_id_char l' = l'"
    using letters_id_end [OF l(3)] by simp_all
  have "tokenize_from lvl (l @ chain_str []) = map_option (Cons (TName l)) (tokenize_from lvl [])"
    using tok_ident [OF l(2), of lvl l'] l(1) d by (simp add: chain_str_def del: tokenize_from.simps)
  then show ?case by simp
next
  case (Cons l2 ls)
  obtain c l' where l: "l = c # l'" "ident_letter c" "\<forall>c\<in>set l'. ident_letter c"
    using Cons.prems by (cases l) (auto simp: word_ok_def)
  obtain c2 l2' where l2: "l2 = c2 # l2'" "ident_letter c2"
    using Cons.prems by (cases l2) (auto simp: word_ok_def)
  have m: "\<forall>c\<in>set (l' @ ustr ''math''). ident_letter c" using l(3) by (simp add: ident_letter_def)
  have "chain_str (l2 # ls) = ustr ''math'' @ 46 # l2 @ chain_str ls"
    by (simp add: chain_str_def)
  then have "l' @ chain_str (l2 # ls) = (l' @ ustr ''math'') @ 46 # l2 @ chain_str ls" by simp
  then show ?case using letters_id [OF m, of "l2 @ chain_str ls"] Cons.IH [of l2] Cons.prems l l2
    by (simp add: tok_ident tok_dot_letter del: tokenize_from.simps)
qed

lemma tok_chain:
  assumes "\<forall>l\<in>set ls. word_ok l"
  shows "tokenize_from lvl (chain_str ls) = (if lvl = 0 then Some (chain_toks ls) else None)"
proof (cases ls)
  case Nil
  then show ?thesis by (simp add: chain_str_def)
next
  case (Cons l ls')
  obtain c l' where l: "l = c # l'" "ident_letter c" "word_ok l"
    using assms Cons by (cases l) (auto simp: word_ok_def)
  let ?rest = "l @ chain_str ls'"
  have s: "chain_str ls = 109 # (ustr ''ath'' @ 46 # ?rest)" by (simp add: Cons chain_str_def)
  have tw: "takeWhile is_id_char (ustr ''ath'' @ 46 # ?rest) = ustr ''ath''"
    "dropWhile is_id_char (ustr ''ath'' @ 46 # ?rest) = 46 # ?rest"
    by (simp_all add: is_id_char_def ident_letter_def is_digit_def)
  have "tokenize_from lvl (chain_str ls) =
      map_option (Cons (TName (ustr ''math''))) (tokenize_from lvl (46 # ?rest))"
  proof -
    have "tokenize_from lvl (chain_str ls) =
        map_option (Cons (TName (109 # takeWhile is_id_char (ustr ''ath'' @ 46 # ?rest))))
          (tokenize_from lvl (dropWhile is_id_char (ustr ''ath'' @ 46 # ?rest)))"
      unfolding s by (rule tok_ident) (simp add: ident_letter_def)
    then show ?thesis unfolding tw by (simp del: tokenize_from.simps)
  qed
  also have "\<dots> = map_option (Cons (TName (ustr ''math''))) (map_option (Cons TDot) (tokenize_from lvl ?rest))"
    using tok_dot_letter [of c lvl "l' @ chain_str ls'"] l(1,2) by (simp del: tokenize_from.simps)
  finally show ?thesis using tok_ctail [of l ls' lvl] assms Cons l by simp
qed

lemma chain_head_not [simp]:
  "chain_head v \<Longrightarrow> v = [] \<or> \<not> is_digit (hd v)"
  "chain_head v \<Longrightarrow> v \<noteq> [] \<Longrightarrow> hd v \<noteq> 46 \<and> hd v \<noteq> 42 \<and> hd v \<noteq> 47 \<and> \<not> is_digit (hd v)"
  by (auto simp: chain_head_def is_digit_def)

lemma lex_fraction_app:
  assumes "chain_head v" "lex_fraction ip (u @ v) = Some (t, r)"
  shows "\<exists>u2. r = u2 @ v \<and> length u2 \<le> length u \<and> set u2 \<subseteq> set u \<and> \<not> is_name t"
proof -
  have "dropWhile is_digit (u @ v) = dropWhile is_digit u @ v"
    using assms(1) by (intro dropWhile_app) simp
  moreover have "r = dropWhile is_digit (u @ v)" "\<not> is_name t"
    using assms(2) by (auto simp: lex_fraction_def Let_def split: if_splits)
  ultimately show ?thesis
    by (auto simp: length_dropWhile_le dest: set_dropWhileD)
qed
lemma lex_number_app:
  assumes "chain_head v" "is_digit c" "lex_number (c # u @ v) = Some (t, r)"
  shows "\<exists>u2. r = u2 @ v \<and> length u2 \<le> length u \<and> set u2 \<subseteq> set u \<and> \<not> is_name t"
proof -
  let ?d = "dropWhile is_digit u"
  have dw: "dropWhile is_digit (c # u @ v) = ?d @ v"
    using assms(1,2) by (simp add: dropWhile_app)
  have d: "length ?d \<le> length u" "set ?d \<subseteq> set u"
    by (auto simp: length_dropWhile_le dest: set_dropWhileD)
  show ?thesis
  proof (cases "?d @ v \<noteq> [] \<and> hd (?d @ v) = 46")
    case True
    have ne: "?d \<noteq> [] \<and> hd ?d = 46"
    proof (cases "?d")
      case Nil
      then show ?thesis using True assms(1) by (simp add: chain_head_def del: dropWhile_eq_Nil_conv)
    next
      case (Cons x xs)
      then show ?thesis using True by (simp del: dropWhile_eq_Nil_conv)
    qed
    then have "lex_fraction (takeWhile is_digit (c # u @ v)) (tl ?d @ v) = Some (t, r)"
      using assms(3) dw True by (simp add: lex_number_def Let_def del: dropWhile.simps takeWhile.simps)
    then obtain u2 where "r = u2 @ v" "length u2 \<le> length (tl ?d)" "set u2 \<subseteq> set (tl ?d)" "\<not> is_name t"
      using lex_fraction_app [OF assms(1)] by blast
    moreover have "set (tl ?d) \<subseteq> set ?d" using ne by (cases ?d) auto
    ultimately show ?thesis using d ne by (intro exI [of _ u2]) (auto simp: length_tl)
  next
    case False
    then have "r = ?d @ v" "\<not> is_name t" using assms(3) dw
      by (auto simp: lex_number_def Let_def split: if_splits simp del: dropWhile.simps takeWhile.simps)
    with d show ?thesis by blast
  qed
qed

lemma chain_head_conds:
  assumes "chain_head v"
  shows "(u @ v \<noteq> [] \<and> hd (u @ v) = 42) \<longleftrightarrow> (u \<noteq> [] \<and> hd u = 42)"
    "(u @ v \<noteq> [] \<and> hd (u @ v) = 47) \<longleftrightarrow> (u \<noteq> [] \<and> hd u = 47)"
    "(u @ v \<noteq> [] \<and> is_digit (hd (u @ v))) \<longleftrightarrow> (u \<noteq> [] \<and> is_digit (hd u))"
    "take 2 (u @ v) = [46, 46] \<longleftrightarrow> 2 \<le> length u \<and> take 2 u = [46, 46]"
  using assms by (cases u; cases "tl u"; cases v; auto simp: chain_head_def is_digit_def)+

lemma set_tl_sub: "x \<in> set (tl u) \<Longrightarrow> x \<in> set u"
  by (cases u) auto

lemma tok_next_intros [intro]:
  "tok_next toks toks" "\<not> is_name t \<Longrightarrow> tok_next (t # toks) toks"
  by (auto simp: tok_next_def)

lemma tok_step_intro:
  "tokenize_from lvl' (u2 @ v) = Some toks' \<Longrightarrow> tok_next toks toks' \<Longrightarrow> length u2 \<le> length u \<Longrightarrow>
   set u2 \<subseteq> set u \<Longrightarrow> \<exists>u2 lvl' toks'. tok_next toks toks' \<and> length u2 \<le> length u \<and>
     set u2 \<subseteq> set u \<and> tokenize_from lvl' (u2 @ v) = Some toks'"
  by blast

lemma tok_step:
  assumes "chain_head v" "\<not> ident_letter c" "tokenize_from lvl (c # u @ v) = Some toks"
  shows "\<exists>u2 lvl' toks'. tok_next toks toks' \<and> length u2 \<le> length u \<and> set u2 \<subseteq> set u \<and>
     tokenize_from lvl' (u2 @ v) = Some toks'"
proof -
  note h = chain_head_conds [OF assms(1)]
  show ?thesis
    using assms(3,2)
    apply (subst (asm) tokenize_from.simps)
    apply (simp only: h)
    apply (simp del: tokenize_from.simps split: if_splits option.splits)
    apply (auto 0 3 intro: tok_step_intro simp: set_tl_sub dest!: lex_number_app [OF assms(1)] lex_fraction_app [OF assms(1)] in_set_dropD)
    done
qed

lemma chain_head_chain_str: "chain_head (chain_str ls)"
  by (cases ls) (simp_all add: chain_head_def chain_str_def)

lemma tok_prefix:
  assumes "\<forall>c\<in>set u. \<not> ident_letter c" "\<forall>l\<in>set ls. word_ok l"
    "tokenize_from lvl (u @ chain_str ls) = Some toks"
  shows "\<exists>t1. toks = t1 @ chain_toks ls \<and> list_all (\<lambda>t. \<not> is_name t) t1"
  using assms
proof (induction "length u" arbitrary: u lvl toks rule: less_induct)
  case less
  show ?case
  proof (cases u)
    case Nil
    then have "toks = chain_toks ls"
      using less.prems tok_chain [of ls lvl] by (simp split: if_splits)
    then show ?thesis by simp
  next
    case (Cons c u')
    obtain u2 lvl' toks' where n: "tok_next toks toks'" "length u2 \<le> length u'" "set u2 \<subseteq> set u'"
      "tokenize_from lvl' (u2 @ chain_str ls) = Some toks'"
      using tok_step [OF chain_head_chain_str [of ls], where c = c and u = u' and lvl = lvl and toks = toks] less.prems Cons by auto
    moreover have "length u2 < length u" "\<forall>c\<in>set u2. \<not> ident_letter c"
      using n(2,3) less.prems(1) Cons by auto
    ultimately obtain t1 where t1: "toks' = t1 @ chain_toks ls" "list_all (\<lambda>t. \<not> is_name t) t1"
      using less.hyps less.prems(2) by blast
    from n(1) show ?thesis unfolding tok_next_def
    proof (elim disjE exE conjE)
      fix t assume "toks = t # toks'" "\<not> is_name t"
      with t1 show ?thesis by (intro exI [of _ "t # t1"]) simp
    qed (use t1 in simp)
  qed
qed

lemma paren_free_ctail: "paren_free (ctail l ls)"
  by (induction ls arbitrary: l) auto

lemma names_last_prefix:
  "list_all (\<lambda>t. \<not> is_name t) t1 \<Longrightarrow> names_last (t1 @ chain_toks ls)"
  by (induction t1) (cases ls; simp add: paren_free_ctail)+

lemma py_endswith_refl [simp]: "py_endswith s s"
  using py_endswith_append [of "[]" s] by simp

lemma attr_triples_Cons_iff:
  "attr_triples (t # r) \<longleftrightarrow>
     (case r of TDot # TName n # _ \<Rightarrow> py_endswith n (ustr ''math'') \<or> ends_math_tok t | _ \<Rightarrow> True) \<and>
     attr_triples r"
  by (cases "t # r" rule: attr_triples.cases) (auto split: list.split token.split)

lemma attr_triples_ctail:
  "py_endswith x (ustr ''math'') \<Longrightarrow> attr_triples (TName x # TDot # ctail l ls)"
proof (induction ls arbitrary: l x)
  case Nil
  then show ?case by (simp add: attr_triples_Cons_iff)
next
  case (Cons l' ls)
  then show ?case by (simp add: attr_triples_Cons_iff)
qed

lemma attr_triples_prefix:
  "list_all (\<lambda>t. \<not> is_name t) t1 \<Longrightarrow> attr_triples (t1 @ chain_toks ls)"
proof (induction t1)
  case Nil
  then show ?case using attr_triples_ctail [of "ustr ''math''"] by (cases ls) auto
next
  case (Cons a t1)
  then show ?case
    by (cases t1; cases ls; cases "tl t1") (auto simp: attr_triples_Cons_iff split: list.split token.split)
qed

lemma chain_str_no_caret:
  assumes "\<forall>l\<in>set ls. word_ok l"
  shows "94 \<notin> set (chain_str ls)"
proof
  assume "94 \<in> set (chain_str ls)"
  then obtain l where l: "l \<in> set ls" "94 \<in> set l" by (auto simp: chain_str_def split: if_splits)
  then have "ident_letter 94" using assms by (auto simp: word_ok_def)
  then show False by (simp add: ident_letter_def)
qed

lemma power_rewrite_app: "94 \<notin> set v \<Longrightarrow> power_rewrite (u @ v) = power_rewrite u @ v"
proof -
  assume "94 \<notin> set v"
  then have "concat (map (\<lambda>c. if c = 94 then [42, 42] else [c]) v) = v" by (induction v) auto
  then show ?thesis by (simp add: power_rewrite_def py_replace_single)
qed

lemma power_rewrite_no_letters:
  assumes "\<forall>c\<in>set u. allowed_class c"
  shows "\<forall>c\<in>set (power_rewrite u). \<not> ident_letter c"
proof
  fix c assume "c \<in> set (power_rewrite u)"
  then have "c = 42 \<or> c \<in> set u" using set_py_replace_single [of 94 "[42, 42]" u]
    by (auto simp: power_rewrite_def simp del: py_replace_char)
  then show "\<not> ident_letter c" using assms by (auto simp: allowed_class_def ident_letter_def)
qed

lemma pattern_tokens:
  assumes "pattern_lang p" "tokenize (power_rewrite p) = Some toks"
  shows "names_last toks \<and> attr_triples toks"
proof -
  obtain u v where uv: "p = u @ v" "\<forall>c\<in>set u. allowed_class c" "chain_lang v"
    using assms(1) by (auto simp: pattern_lang_def)
  obtain ls where ls: "v = chain_str ls" "\<forall>l\<in>set ls. word_ok l"
    using chain_lang_words [OF uv(3)] by blast
  have "power_rewrite p = power_rewrite u @ chain_str ls"
    using uv(1) ls chain_str_no_caret power_rewrite_app by simp
  then have "tokenize_from 0 (power_rewrite u @ chain_str ls) = Some toks"
    using assms(2) by (simp add: tokenize_def split: if_splits del: tokenize_from.simps)
  then obtain t1 where "toks = t1 @ chain_toks ls" "list_all (\<lambda>t. \<not> is_name t) t1"
    using tok_prefix power_rewrite_no_letters [OF uv(2)] ls(2) by blast
  then show ?thesis using names_last_prefix attr_triples_prefix by simp
qed

section \<open>The calculator stays in the modelled fragment\<close>

text \<open>
  C2: for every input and every implementation of floating-point arithmetic, the
  calculator's evaluation never reaches a call of a callable or an attribute outside
  \<open>math\<close>: the outcome \<open>NotModelled\<close> is impossible, so the model of \<open>eval\<close> covers every
  evaluation the function performs.
\<close>

theorem calculator_sandboxed: "calculator ops s \<noteq> NotModelled w"
proof (cases "pattern_lang (py_strip (normalize_signs s))")
  case False
  then show ?thesis by (simp add: calculator_filtered)
next
  case True
  let ?safe = "power_rewrite (py_strip (normalize_signs s))"
  show ?thesis
  proof (cases "ast_parse ?safe")
    case None
    then show ?thesis using True by (simp add: calculator_passed)
  next
    case (Some tree)
    then obtain toks where "tokenize ?safe = Some toks" "parse_eval toks = Some tree"
      by (auto simp: ast_parse_def split: option.splits)
    then have "good tree" using pattern_tokens [OF True] parse_eval_good by blast
    then have "stays (eval_expr ops tree)" by (rule good_eval)
    then show ?thesis using True Some by (auto simp: calculator_passed stays_def split: eres.split)
  qed
qed

end
