(* ===== verification/NumTypes.thy ===== *)
theory NumTypes
  imports Eval
begin

text \<open>
  A static type system for the numeric expressions the calculator evaluates, in the
  style of a typed expression language: the numeric tower \<open>int < float < complex\<close>
  of Python as the ordered type \<open>numty\<close>, the static type \<open>num_type\<close> of an expression
  built from literals, the constants of \<open>math\<close>, the arithmetic operators and the
  signs, and the type \<open>val_type\<close> of a value. The lemmas show preservation (an evaluated
  value has at most its static type) and which exceptions a well-typed expression can
  raise.
\<close>

datatype numty = TyInt | TyFloat | TyComplex

fun numty_rank :: "numty \<Rightarrow> nat" where
  "numty_rank TyInt = 0"
| "numty_rank TyFloat = 1"
| "numty_rank TyComplex = 2"

instantiation numty :: linorder
begin

definition less_eq_numty :: "numty \<Rightarrow> numty \<Rightarrow> bool" where
  "x \<le> y \<longleftrightarrow> numty_rank x \<le> numty_rank y"

definition less_numty :: "numty \<Rightarrow> numty \<Rightarrow> bool" where
  "x < y \<longleftrightarrow> numty_rank x < numty_rank y"

instance
proof
  fix x y :: numty
  show "x \<le> y \<Longrightarrow> y \<le> x \<Longrightarrow> x = y"
    by (cases x; cases y) (simp_all add: less_eq_numty_def)
qed (auto simp: less_eq_numty_def less_numty_def)

end

text \<open>The type of a binary operation on operands of types \<open>s\<close> and \<open>t\<close>: \<open>/\<close> is at least
  \<open>float\<close>; \<open>**\<close> may give any number (a negative exponent gives a float, a negative base
  with a fractional exponent a complex).\<close>

definition binop_type :: "binop \<Rightarrow> numty \<Rightarrow> numty \<Rightarrow> numty" where
  "binop_type op s t =
     (if op = PowOp then TyComplex else if op = Div then max TyFloat (max s t) else max s t)"

fun num_type :: "expr \<Rightarrow> numty option" where
  "num_type (Constant (CNum (IntLit n))) = Some TyInt"
| "num_type (Constant (CNum (FloatLit q))) = Some TyFloat"
| "num_type (Attribute (Name m) x) =
     (if m = ustr ''math'' \<and> x \<in> set math_constants then Some TyFloat else None)"
| "num_type (BinOp a op b) =
     (case (num_type a, num_type b) of
        (Some s, Some t) \<Rightarrow> Some (binop_type op s t)
      | _ \<Rightarrow> None)"
| "num_type (UnaryOp u a) = num_type a"
| "num_type _ = None"

fun pynum_type :: "'f pynum \<Rightarrow> numty" where
  "pynum_type (NInt i) = TyInt"
| "pynum_type (NFloat x) = TyFloat"
| "pynum_type (NComplex a b) = TyComplex"

fun val_type :: "'f pyval \<Rightarrow> numty option" where
  "val_type (PInt i) = Some TyInt"
| "val_type (PFloat x) = Some TyFloat"
| "val_type (PComplex a b) = Some TyComplex"
| "val_type _ = None"

text \<open>What a well-typed expression evaluates to: a value of at most its type, or one of
  the exceptions of the number protocol.\<close>

definition typed_res :: "numty \<Rightarrow> 'f pyval eres \<Rightarrow> bool" where
  "typed_res \<tau> r =
     (case r of
        Val v \<Rightarrow> (case val_type v of Some \<sigma> \<Rightarrow> \<sigma> \<le> \<tau> | None \<Rightarrow> False)
      | Raise e \<Rightarrow> e = ZeroDivisionError \<or> e = OverflowError \<or> (e = TypeError \<and> \<tau> = TyComplex)
      | Outside w \<Rightarrow> False)"

lemma numty_le_simps [simp]:
  "TyInt \<le> t" "t \<le> TyComplex" "TyFloat \<le> t \<longleftrightarrow> t \<noteq> TyInt" "t \<le> TyInt \<longleftrightarrow> t = TyInt"
  "TyComplex \<le> t \<longleftrightarrow> t = TyComplex"
  by (cases t; simp add: less_eq_numty_def)+

lemma max_TyComplex [simp]: "max s TyComplex = TyComplex" "max TyComplex s = TyComplex"
  by (simp_all add: max_def)

lemma val_type_Some: "val_type v = Some s \<longleftrightarrow>
    (s = TyInt \<and> (\<exists>i. v = PInt i)) \<or> (s = TyFloat \<and> (\<exists>x. v = PFloat x)) \<or>
    (s = TyComplex \<and> (\<exists>a b. v = PComplex a b))"
  by (cases v) auto

lemma typed_res_simps [simp]:
  "typed_res \<tau> (Val v) \<longleftrightarrow> (case val_type v of Some \<sigma> \<Rightarrow> \<sigma> \<le> \<tau> | None \<Rightarrow> False)"
  "typed_res \<tau> (Raise e) \<longleftrightarrow> e = ZeroDivisionError \<or> e = OverflowError \<or> (e = TypeError \<and> \<tau> = TyComplex)"
  "\<not> typed_res \<tau> (Outside w)"
  by (simp_all add: typed_res_def)

lemma typed_res_mono: "typed_res s r \<Longrightarrow> s \<le> t \<Longrightarrow> typed_res t r"
  by (cases r) (auto simp: typed_res_def split: option.splits)

lemma binop_type_ge: "s \<le> binop_type op s t" "t \<le> binop_type op s t"
  by (auto simp: binop_type_def le_max_iff_disj)

lemma float_pow_typed: "typed_res TyComplex (float_pow ops x y)"
proof -
  have "exc_of_arith e = ZeroDivisionError \<or> exc_of_arith e = OverflowError" for e
    by (cases e) simp_all
  then show ?thesis
    by (auto simp: float_pow_def complex_pow_def split: fpow.split sum.split)
qed

lemma complex_pow_typed: "typed_res TyComplex (complex_pow ops p q)"
proof -
  have "exc_of_arith e = ZeroDivisionError \<or> exc_of_arith e = OverflowError" for e
    by (cases e) simp_all
  then show ?thesis by (auto simp: complex_pow_def split: sum.split)
qed

lemma of_option_ebind_typed:
  "(\<And>x. typed_res t (k x)) \<Longrightarrow> typed_res t (ebind (of_option OverflowError y) k)"
  by (cases y) (simp_all add: of_option_def)

lemma arith_int_typed: "typed_res (binop_type op TyInt TyInt) (arith_int ops op i j)"
  by (cases op) (auto simp: binop_type_def float_pow_typed intro!: of_option_ebind_typed)

lemma arith_float_typed: "typed_res (binop_type op TyFloat TyFloat) (arith_float ops op x y)"
  by (cases op) (auto simp: binop_type_def float_pow_typed)

lemma arith_complex_typed: "typed_res TyComplex (arith_complex ops op p q)"
  by (cases "(ops, op, p, q)" rule: arith_complex.cases) (auto simp: complex_pow_typed split: prod.split)

lemma to_complex_typed: "(\<And>p. typed_res t (k p)) \<Longrightarrow> typed_res t (ebind (to_complex ops a) k)"
  by (cases a) (auto simp: of_option_def split: option.split)

lemma to_float_typed:
  "\<not> is_complex a \<Longrightarrow> (\<And>x. typed_res t (k x)) \<Longrightarrow> typed_res t (ebind (to_float ops a) k)"
  by (cases a) (auto simp: of_option_def split: option.split)

lemma arith_num_typed:
  "typed_res (binop_type op (pynum_type a) (pynum_type b)) (arith_num ops op a b)"
proof (cases "\<exists>i j. a = NInt i \<and> b = NInt j")
  case True
  then show ?thesis by (auto simp: arith_num_def arith_int_typed)
next
  case False
  then have an: "arith_num ops op a b =
      (if is_complex a \<or> is_complex b then
         (if op = FloorDiv then Raise TypeError
          else ebind (to_complex ops a) (\<lambda>p. ebind (to_complex ops b) (\<lambda>q. arith_complex ops op p q)))
       else ebind (to_float ops a) (\<lambda>x. ebind (to_float ops b) (\<lambda>y. arith_float ops op x y)))"
    by (cases a; cases b) (simp_all add: arith_num_def)
  show ?thesis
  proof (cases "is_complex a \<or> is_complex b")
    case True
    then have "binop_type op (pynum_type a) (pynum_type b) = TyComplex"
      by (cases a; cases b) (auto simp: binop_type_def)
    with True show ?thesis
      by (simp add: an to_complex_typed arith_complex_typed)
  next
    case c: False
    with False have "binop_type op (pynum_type a) (pynum_type b) = binop_type op TyFloat TyFloat"
      by (cases a; cases b) (auto simp: binop_type_def)
    with c show ?thesis
      by (simp add: an to_float_typed arith_float_typed)
  qed
qed

lemma val_type_as_num: "val_type v = Some s \<Longrightarrow> \<exists>a. as_num v = Some a \<and> pynum_type a = s"
  by (cases v) auto

lemma binop_val_typed:
  "val_type v = Some s \<Longrightarrow> val_type w = Some t \<Longrightarrow> typed_res (binop_type op s t) (binop_val ops op v w)"
  by (auto simp: binop_val_def arith_num_typed dest!: val_type_as_num)

lemma unop_val_typed: "val_type v = Some s \<Longrightarrow> typed_res s (unop_val ops u v)"
  by (cases "(ops, u, v)" rule: unop_val.cases) auto

lemma typed_res_ebind:
  assumes "typed_res s r" "s \<le> \<tau>"
    "\<And>v \<sigma>. r = Val v \<Longrightarrow> val_type v = Some \<sigma> \<Longrightarrow> \<sigma> \<le> s \<Longrightarrow> typed_res \<tau> (k v)"
  shows "typed_res \<tau> (ebind r k)"
  using assms by (cases r) (auto simp: typed_res_mono split: option.splits)

lemma binop_type_mono: "s' \<le> s \<Longrightarrow> t' \<le> t \<Longrightarrow> binop_type op s' t' \<le> binop_type op s t"
  by (auto simp: binop_type_def max_def less_eq_numty_def)

lemma math_constant_eval:
  "x \<in> set math_constants \<Longrightarrow>
   eval_expr ops (Attribute (Name (ustr ''math'')) x) = Val (PFloat (fl_const ops x))"
  by (simp add: lookup_name_def allowed_context_def getattr_val_def math_attr_def)

section \<open>Type soundness\<close>

text \<open>
  C7: a numeric expression with static type \<open>\<tau>\<close> never leaves the modelled fragment;
  its value is a number of type at most \<open>\<tau>\<close> (an int, float or complex as the tower
  orders them), and the only exceptions it raises are \<open>ZeroDivisionError\<close>,
  \<open>OverflowError\<close>, and \<open>TypeError\<close> for \<open>//\<close> on a complex operand.
\<close>

theorem eval_num_type_sound:
  fixes ops :: "'f float_ops"
  shows "num_type e = Some \<tau> \<Longrightarrow> typed_res \<tau> (eval_expr ops e)"
proof (induction e arbitrary: \<tau> rule: num_type.induct)
  case (3 m x)
  then show ?case using math_constant_eval [of x ops] by (simp split: if_splits)
next
  case (4 a op b)
  then obtain s t where st: "num_type a = Some s" "num_type b = Some t" "\<tau> = binop_type op s t"
    by (auto split: option.splits)
  show ?case
    unfolding eval_expr.simps
  proof (rule typed_res_ebind [OF "4.IH"(1) [OF st(1)]])
    fix v :: "'f pyval" and \<sigma> assume v: "val_type v = Some \<sigma>" "\<sigma> \<le> s"
    show "typed_res \<tau> (ebind (eval_expr ops b) (\<lambda>w. binop_val ops op v w))"
    proof (rule typed_res_ebind [OF "4.IH"(2) [OF st(2)]])
      fix w :: "'f pyval" and \<sigma>' assume w: "val_type w = Some \<sigma>'" "\<sigma>' \<le> t"
      show "typed_res \<tau> (binop_val ops op v w)"
        using binop_val_typed [OF v(1) w(1), of op ops] binop_type_mono [OF v(2) w(2), of op] st(3)
        by (blast intro: typed_res_mono)
    qed (simp_all add: st(3) binop_type_ge)
  qed (simp_all add: st(3) binop_type_ge)
next
  case (5 u a)
  then show ?case
    by (auto intro!: typed_res_ebind [where s = \<tau>] intro: typed_res_mono unop_val_typed)
qed simp_all

lemma eval_num_type_sound_witness:
  "num_type (BinOp (BinOp (Constant (CNum (IntLit 1))) Div (Constant (CNum (IntLit 2)))) Add
      (Attribute (Name (ustr ''math'')) (ustr ''pi''))) = Some TyFloat \<and>
   (\<forall>ops :: unit float_ops. typed_res TyFloat (eval_expr ops
      (BinOp (BinOp (Constant (CNum (IntLit 1))) Div (Constant (CNum (IntLit 2)))) Add
        (Attribute (Name (ustr ''math'')) (ustr ''pi'')))))"
proof -
  have t: "num_type (BinOp (BinOp (Constant (CNum (IntLit 1))) Div (Constant (CNum (IntLit 2)))) Add
      (Attribute (Name (ustr ''math'')) (ustr ''pi''))) = Some TyFloat"
    by (simp add: binop_type_def math_constants_def)
  show ?thesis using t eval_num_type_sound [OF t] by blast
qed

end
