(* ===== verification/CalcArith.thy ===== *)
theory CalcArith
  imports Calculator
begin

text \<open>
  Functional correctness of \<open>calculator\<close> (tools.py, lines 56--105) on integer
  arithmetic, end to end: printing an expression fully parenthesised (\<open>print_str\<close>,
  with \<open>print_toks\<close> its tokens), the allow-list, \<open>strip\<close> and the \<open>^\<close> rewrite leave
  the text unchanged, the tokenizer returns exactly the printed tokens (up to CPython's
  200 nested parentheses), the parser inverts the printing, and evaluation computes the
  exact integer (\<open>int_value\<close>, with floor division). The parser part holds for all
  number literals and all six binary operators: a group \<open>(a op b)\<close> is parsed by
  descending from \<open>sum\<close> to the operator's level, and the loops of the other levels
  stop at the operator or the closing parenthesis (\<open>levels\<close>, \<open>group_binop\<close>). The
  fuel \<open>pfuel\<close> that one expression needs is at most ten per token, below
  \<open>parse_fuel\<close>.
\<close>

text \<open>Printing an expression: every operation in its own parentheses.\<close>

fun op_tok :: "binop \<Rightarrow> token" where
  "op_tok Add = TPlus" | "op_tok Sub = TMinus" | "op_tok Mult = TStar"
| "op_tok Div = TSlash" | "op_tok FloorDiv = TDoubleSlash" | "op_tok PowOp = TDoubleStar"

fun uop_tok :: "unop \<Rightarrow> token" where
  "uop_tok UAdd = TPlus" | "uop_tok USub = TMinus"

fun printable :: "expr \<Rightarrow> bool" where
  "printable (Constant (CNum l)) = True"
| "printable (BinOp a op b) = (printable a \<and> printable b)"
| "printable (UnaryOp u a) = printable a"
| "printable _ = False"

fun print_toks :: "expr \<Rightarrow> token list" where
  "print_toks (Constant (CNum l)) = [TNumber l]"
| "print_toks (BinOp a op b) = TLPar # print_toks a @ op_tok op # print_toks b @ [TRPar]"
| "print_toks (UnaryOp u a) = TLPar # uop_tok u # print_toks a @ [TRPar]"
| "print_toks _ = []"

text \<open>The decimal digits of a natural number, without leading zeros.\<close>

fun dec :: "nat \<Rightarrow> pystr" where
  "dec n = (if n < 10 then [48 + n] else dec (n div 10) @ [48 + n mod 10])"

declare dec.simps [simp del]

fun op_str :: "binop \<Rightarrow> pystr" where
  "op_str Add = [43]" | "op_str Sub = [45]" | "op_str Mult = [42]"
| "op_str Div = [47]" | "op_str FloorDiv = [47, 47]" | "op_str PowOp = [94]"

fun uop_str :: "unop \<Rightarrow> pystr" where
  "uop_str UAdd = [43]" | "uop_str USub = [45]"

fun print_str :: "expr \<Rightarrow> pystr" where
  "print_str (Constant (CNum (IntLit n))) = dec n"
| "print_str (BinOp a op b) = [40] @ print_str a @ op_str op @ print_str b @ [41]"
| "print_str (UnaryOp u a) = [40] @ uop_str u @ print_str a @ [41]"
| "print_str _ = []"

fun iprintable :: "expr \<Rightarrow> bool" where
  "iprintable (Constant (CNum (IntLit n))) = True"
| "iprintable (BinOp a op b) = (op \<noteq> PowOp \<and> iprintable a \<and> iprintable b)"
| "iprintable (UnaryOp u a) = iprintable a"
| "iprintable _ = False"

text \<open>The nesting depth of the parentheses, and the parser fuel an expression needs.\<close>

fun pdepth :: "expr \<Rightarrow> nat" where
  "pdepth (BinOp a op b) = Suc (max (pdepth a) (pdepth b))"
| "pdepth (UnaryOp u a) = Suc (pdepth a)"
| "pdepth _ = 0"

text \<open>Every integer literal within the 4300 digits \<open>ast.parse\<close> accepts.\<close>

fun lits_ok :: "expr \<Rightarrow> bool" where
  "lits_ok (Constant (CNum (IntLit n))) = (decimal_digits n \<le> int_max_str_digits)"
| "lits_ok (BinOp a op b) = (lits_ok a \<and> lits_ok b)"
| "lits_ok (UnaryOp u a) = lits_ok a"
| "lits_ok _ = True"

fun pfuel :: "expr \<Rightarrow> nat" where
  "pfuel (BinOp a op b) = max (pfuel a) (pfuel b) + 8"
| "pfuel (UnaryOp u a) = pfuel a + 8"
| "pfuel _ = 1"

text \<open>
  The tokens that end an expression at the levels \<open>primary\<close>, \<open>power\<close>, \<open>term\<close>,
  \<open>sum\<close> (no trailer, no \<open>**\<close>, no multiplicative, no additive operator).
\<close>

definition prim_stop :: "token list \<Rightarrow> bool" where
  "prim_stop r \<longleftrightarrow> r = [] \<or> (hd r \<noteq> TDot \<and> hd r \<noteq> TLPar)"

definition pow_stop :: "token list \<Rightarrow> bool" where
  "pow_stop r \<longleftrightarrow> prim_stop r \<and> (r = [] \<or> hd r \<noteq> TDoubleStar)"

definition term_stop :: "token list \<Rightarrow> bool" where
  "term_stop r \<longleftrightarrow> pow_stop r \<and> (r = [] \<or> term_op (hd r) = None)"

definition sum_stop :: "token list \<Rightarrow> bool" where
  "sum_stop r \<longleftrightarrow> term_stop r \<and> (r = [] \<or> sum_op (hd r) = None)"

text \<open>The characters that may follow a printed number: a parenthesis or an operator.\<close>

definition num_follow :: "pystr \<Rightarrow> bool" where
  "num_follow s \<longleftrightarrow> s = [] \<or> hd s \<in> {41, 42, 43, 45, 47}"

subsection \<open>Parsing printed tokens\<close>

lemma parse_nt_POk_pos: "parse_nt n nt ts = POk v r \<Longrightarrow> \<exists>m. n = Suc m"
  by (cases n) simp_all

lemma up_primary:
  assumes "parse_nt n NAtom ts = POk (PExpr e) r" "prim_stop r"
  shows "parse_nt (Suc n) NPrimary ts = POk (PExpr e) r"
proof -
  obtain m where "n = Suc m" using parse_nt_POk_pos [OF assms(1)] by blast
  then show ?thesis using assms by (cases r) (auto simp: prim_stop_def)
qed

lemma up_power:
  assumes "parse_nt n NPrimary ts = POk (PExpr e) r" "pow_stop r"
  shows "parse_nt (Suc n) NPower ts = POk (PExpr e) r"
  using assms by (auto simp: pow_stop_def)

lemma up_factor:
  assumes "parse_nt n NPower ts = POk (PExpr e) r" "ts \<noteq> []" "unary_op (hd ts) = None"
  shows "parse_nt (Suc n) NFactor ts = POk (PExpr e) r"
  using assms by (cases ts) simp_all

lemma up_term:
  assumes "parse_nt n NFactor ts = POk (PExpr e) r" "term_stop r"
  shows "parse_nt (Suc n) NTerm ts = POk (PExpr e) r"
proof -
  obtain m where "n = Suc m" using parse_nt_POk_pos [OF assms(1)] by blast
  then show ?thesis using assms by (cases r) (auto simp: term_stop_def)
qed

lemma up_sum:
  assumes "parse_nt n NTerm ts = POk (PExpr e) r" "sum_stop r"
  shows "parse_nt (Suc n) NSum ts = POk (PExpr e) r"
proof -
  obtain m where "n = Suc m" using parse_nt_POk_pos [OF assms(1)] by blast
  then show ?thesis using assms by (cases r) (auto simp: sum_stop_def)
qed

lemma stop_chain: "sum_stop r \<Longrightarrow> term_stop r" "term_stop r \<Longrightarrow> pow_stop r" "pow_stop r \<Longrightarrow> prim_stop r"
  by (simp_all add: sum_stop_def term_stop_def pow_stop_def)

lemma levels:
  assumes atom: "\<And>n r. K \<le> n \<Longrightarrow> parse_nt n NAtom (ts @ r) = POk (PExpr e) r"
    and ts: "ts \<noteq> []" "unary_op (hd ts) = None"
  shows "K + 1 \<le> n \<Longrightarrow> prim_stop r \<Longrightarrow> parse_nt n NPrimary (ts @ r) = POk (PExpr e) r"
    and "K + 2 \<le> n \<Longrightarrow> pow_stop r \<Longrightarrow> parse_nt n NPower (ts @ r) = POk (PExpr e) r"
    and "K + 3 \<le> n \<Longrightarrow> pow_stop r \<Longrightarrow> parse_nt n NFactor (ts @ r) = POk (PExpr e) r"
    and "K + 4 \<le> n \<Longrightarrow> term_stop r \<Longrightarrow> parse_nt n NTerm (ts @ r) = POk (PExpr e) r"
    and "K + 5 \<le> n \<Longrightarrow> sum_stop r \<Longrightarrow> parse_nt n NSum (ts @ r) = POk (PExpr e) r"
proof -
  have p: "parse_nt n NPrimary (ts @ r) = POk (PExpr e) r" if "K + 1 \<le> n" "prim_stop r" for n r
    using up_primary [OF atom [of "n - 1"]] that by (cases n) simp_all
  have w: "parse_nt n NPower (ts @ r) = POk (PExpr e) r" if "K + 2 \<le> n" "pow_stop r" for n r
    using up_power [OF p [of "n - 1"]] that stop_chain by (cases n) simp_all
  have f: "parse_nt n NFactor (ts @ r) = POk (PExpr e) r" if "K + 3 \<le> n" "pow_stop r" for n r
    using up_factor [OF w [of "n - 1"]] that ts by (cases n) simp_all
  have t: "parse_nt n NTerm (ts @ r) = POk (PExpr e) r" if "K + 4 \<le> n" "term_stop r" for n r
    using up_term [OF f [of "n - 1"]] that stop_chain by (cases n) simp_all
  have s: "parse_nt n NSum (ts @ r) = POk (PExpr e) r" if "K + 5 \<le> n" "sum_stop r" for n r
    using up_sum [OF t [of "n - 1"]] that stop_chain by (cases n) simp_all
  show "K + 1 \<le> n \<Longrightarrow> prim_stop r \<Longrightarrow> parse_nt n NPrimary (ts @ r) = POk (PExpr e) r"
    and "K + 2 \<le> n \<Longrightarrow> pow_stop r \<Longrightarrow> parse_nt n NPower (ts @ r) = POk (PExpr e) r"
    and "K + 3 \<le> n \<Longrightarrow> pow_stop r \<Longrightarrow> parse_nt n NFactor (ts @ r) = POk (PExpr e) r"
    and "K + 4 \<le> n \<Longrightarrow> term_stop r \<Longrightarrow> parse_nt n NTerm (ts @ r) = POk (PExpr e) r"
    and "K + 5 \<le> n \<Longrightarrow> sum_stop r \<Longrightarrow> parse_nt n NSum (ts @ r) = POk (PExpr e) r"
    by (fact p w f t s)+
qed

lemma print_toks_hd:
  "printable e \<Longrightarrow> print_toks e \<noteq> [] \<and> unary_op (hd (print_toks e)) = None \<and>
     hd (print_toks e) \<noteq> TRPar"
  by (cases e rule: print_toks.cases) simp_all

lemma stops_simps [simp]:
  "sum_stop (TRPar # r)" "sum_stop []" "term_stop (TRPar # r)" "pow_stop (TRPar # r)" "prim_stop (TRPar # r)"
  "term_stop (TPlus # r)" "term_stop (TMinus # r)"
  "pow_stop (TStar # r)" "pow_stop (TSlash # r)" "pow_stop (TDoubleSlash # r)"
  "prim_stop (TDoubleStar # r)"
  by (simp_all add: sum_stop_def term_stop_def pow_stop_def prim_stop_def)

text \<open>The group \<open>(a op b)\<close> after its parenthesis, by the class of the operator.\<close>

lemma group_binop:
  assumes a: "\<And>n r. pfuel a \<le> n \<Longrightarrow> parse_nt n NAtom (print_toks a @ r) = POk (PExpr a) r"
    and b: "\<And>n r. pfuel b \<le> n \<Longrightarrow> parse_nt n NAtom (print_toks b @ r) = POk (PExpr b) r"
    and pr: "printable a" "printable b"
    and m: "max (pfuel a) (pfuel b) + 7 \<le> m"
  shows "parse_nt m NSum (print_toks a @ op_tok op # print_toks b @ TRPar # r) =
    POk (PExpr (BinOp a op b)) (TRPar # r)"
proof -
  note la = levels [where K = "pfuel a", OF a print_toks_hd [OF pr(1), THEN conjunct1] print_toks_hd [OF pr(1), THEN conjunct2, THEN conjunct1]]
  note lb = levels [where K = "pfuel b", OF b print_toks_hd [OF pr(2), THEN conjunct1] print_toks_hd [OF pr(2), THEN conjunct2, THEN conjunct1]]
  let ?rest = "print_toks b @ TRPar # r"
  define k where "k = m - 5"
  have mk: "m = Suc (Suc (Suc (Suc (Suc k))))" and fa: "pfuel a + 2 \<le> k" and fb: "pfuel b + 2 \<le> k"
    using m by (simp_all add: k_def)
  show ?thesis
  proof (cases op)
    case Add
    then show ?thesis
      using la(4) [where n = "Suc (Suc (Suc (Suc k)))" and r = "TPlus # ?rest"] lb(4) [where n = "Suc (Suc (Suc k))" and r = "TRPar # r"] fa fb
      by (simp add: mk del: parse_nt_Suc(4))
  next
    case Sub
    then show ?thesis
      using la(4) [where n = "Suc (Suc (Suc (Suc k)))" and r = "TMinus # ?rest"] lb(4) [where n = "Suc (Suc (Suc k))" and r = "TRPar # r"] fa fb
      by (simp add: mk del: parse_nt_Suc(4))
  next
    case Mult
    then show ?thesis
      using la(3) [where n = "Suc (Suc (Suc k))" and r = "TStar # ?rest"] lb(3) [where n = "Suc (Suc k)" and r = "TRPar # r"] fa fb
      by (simp add: mk del: parse_nt_Suc(7,8))
  next
    case Div
    then show ?thesis
      using la(3) [where n = "Suc (Suc (Suc k))" and r = "TSlash # ?rest"] lb(3) [where n = "Suc (Suc k)" and r = "TRPar # r"] fa fb
      by (simp add: mk del: parse_nt_Suc(7,8))
  next
    case FloorDiv
    then show ?thesis
      using la(3) [where n = "Suc (Suc (Suc k))" and r = "TDoubleSlash # ?rest"] lb(3) [where n = "Suc (Suc k)" and r = "TRPar # r"] fa fb
      by (simp add: mk del: parse_nt_Suc(7,8))
  next
    case PowOp
    have h: "print_toks a \<noteq> []" "unary_op (hd (print_toks a)) = None"
      using print_toks_hd [OF pr(1)] by simp_all
    then show ?thesis
      using PowOp la(1) [where n = "Suc k" and r = "TDoubleStar # ?rest"] lb(3) [where n = "Suc k" and r = "TRPar # r"] fa fb
      by (cases "print_toks a") (simp_all add: mk del: parse_nt_Suc(10))
  qed
qed

lemma group_unop:
  assumes a: "\<And>n r. pfuel a \<le> n \<Longrightarrow> parse_nt n NAtom (print_toks a @ r) = POk (PExpr a) r"
    and pr: "printable a" and m: "pfuel a + 7 \<le> m"
  shows "parse_nt m NSum (uop_tok u # print_toks a @ TRPar # r) = POk (PExpr (UnaryOp u a)) (TRPar # r)"
proof -
  note la = levels [where K = "pfuel a", OF a print_toks_hd [OF pr, THEN conjunct1] print_toks_hd [OF pr, THEN conjunct2, THEN conjunct1]]
  define k where "k = m - 3"
  have mk: "m = Suc (Suc (Suc k))" and fa: "pfuel a + 3 \<le> k"
    using m by (simp_all add: k_def)
  have "unary_op (uop_tok u) = Some u" by (cases u) simp_all
  then show ?thesis
    using la(3) [where n = k and r = "TRPar # r"] fa
    by (simp add: mk)
qed

lemma parse_print_atom:
  "printable e \<Longrightarrow> pfuel e \<le> n \<Longrightarrow> parse_nt n NAtom (print_toks e @ r) = POk (PExpr e) r"
proof (induction e arbitrary: n r rule: print_toks.induct)
  case (1 l)
  then show ?case by (cases n) simp_all
next
  case (2 a op b)
  then obtain m where n: "n = Suc m" and m: "max (pfuel a) (pfuel b) + 7 \<le> m"
    by (cases n) auto
  have "parse_nt m NSum (print_toks a @ op_tok op # print_toks b @ TRPar # r) =
      POk (PExpr (BinOp a op b)) (TRPar # r)"
    using 2 m by (intro group_binop) simp_all
  then show ?case using print_toks_hd [of a] 2(3) by (simp add: n)
next
  case (3 u a)
  then obtain m where n: "n = Suc m" and m: "pfuel a + 7 \<le> m"
    by (cases n) auto
  have "parse_nt m NSum (uop_tok u # print_toks a @ TRPar # r) = POk (PExpr (UnaryOp u a)) (TRPar # r)"
    using 3 m by (intro group_unop) simp_all
  moreover have "uop_tok u \<noteq> TRPar" by (cases u) simp_all
  ultimately show ?case by (simp add: n)
qed simp_all

lemma pfuel_length: "printable e \<Longrightarrow> pfuel e \<le> 10 * length (print_toks e)"
  by (induction e rule: print_toks.induct) auto

lemma parse_nt_print:
  "printable e \<Longrightarrow> parse_nt (parse_fuel (print_toks e)) NSum (print_toks e) = POk (PExpr e) []"
proof -
  assume pr: "printable e"
  have "\<And>n r. pfuel e \<le> n \<Longrightarrow> parse_nt n NAtom (print_toks e @ r) = POk (PExpr e) r"
    using parse_print_atom [OF pr] .
  note le = levels [where K = "pfuel e", OF this print_toks_hd [OF pr, THEN conjunct1]
      print_toks_hd [OF pr, THEN conjunct2, THEN conjunct1]]
  have "parse_nt (parse_fuel (print_toks e)) NSum (print_toks e @ []) = POk (PExpr e) []"
    using pfuel_length [OF pr] by (intro le(5)) (simp_all add: parse_fuel_def)
  then show ?thesis by simp
qed

subsection \<open>Tokenizing printed text\<close>

lemma dec_digits: "\<forall>c\<in>set (dec n). is_digit c"
  by (induction n rule: dec.induct) (subst dec.simps, auto simp: is_digit_def)

lemma dec_ne: "dec n \<noteq> []"
  by (subst dec.simps) simp

lemma digits_nat_snoc: "digits_nat (ds @ [d]) = 10 * digits_nat ds + (d - 48)"
  by (simp add: digits_nat_def)

lemma digits_nat_dec: "digits_nat (dec n) = n"
  by (induction n rule: dec.induct) (subst dec.simps, auto simp: digits_nat_snoc digits_nat_def)

lemma dec_hd: "hd (dec n) = 48 \<Longrightarrow> n = 0"
proof (induction n rule: dec.induct)
  case (1 n)
  then show ?case using dec_ne [of "n div 10"] by (subst (asm) dec.simps) (auto split: if_splits)
qed

lemma tok_chars:
  "tokenize_from lvl (40 # s) = (if 200 \<le> lvl then None else map_option (Cons TLPar) (tokenize_from (Suc lvl) s))"
  "tokenize_from lvl (41 # s) = (if lvl = 0 then None else map_option (Cons TRPar) (tokenize_from (lvl - 1) s))"
  "tokenize_from lvl (43 # s) = map_option (Cons TPlus) (tokenize_from lvl s)"
  "tokenize_from lvl (45 # s) = map_option (Cons TMinus) (tokenize_from lvl s)"
  "s = [] \<or> hd s \<noteq> 42 \<Longrightarrow> tokenize_from lvl (42 # s) = map_option (Cons TStar) (tokenize_from lvl s)"
  "s = [] \<or> hd s \<noteq> 47 \<Longrightarrow> tokenize_from lvl (47 # s) = map_option (Cons TSlash) (tokenize_from lvl s)"
  "tokenize_from lvl (47 # 47 # s) = map_option (Cons TDoubleSlash) (tokenize_from lvl s)"
  by (subst tokenize_from.simps; auto simp: is_digit_def ident_letter_def)+

lemma dec_length: "length (dec n) = decimal_digits n"
  by (induction n rule: dec.induct) (subst dec.simps, subst decimal_digits.simps, simp)

lemma tok_dec:
  assumes "num_follow s" "decimal_digits n \<le> int_max_str_digits"
  shows "tokenize_from lvl (dec n @ s) = map_option (Cons (TNumber (IntLit n))) (tokenize_from lvl s)"
proof -
  obtain c ds where c: "dec n = c # ds" using dec_ne [of n] by (cases "dec n") auto
  have dig: "is_digit c" using dec_digits [of n] c by simp
  have s: "s = [] \<or> \<not> is_digit (hd s)" "s = [] \<or> hd s \<noteq> 46" "number_end_ok s"
    using assms by (auto simp: num_follow_def is_digit_def number_end_ok_def ident_letter_def)
  have tw: "takeWhile is_digit (dec n @ s) = dec n" "dropWhile is_digit (dec n @ s) = s"
    using dec_digits [of n] s(1) by (cases s; simp)+
  have z: "\<not> (hd (dec n) = 48 \<and> list_ex (\<lambda>d. d \<noteq> 48) (dec n))"
  proof
    assume "hd (dec n) = 48 \<and> list_ex (\<lambda>d. d \<noteq> 48) (dec n)"
    moreover have "dec 0 = [48]" by (subst dec.simps) simp
    ultimately show False using dec_hd [of n] by auto
  qed
  have "lex_number (dec n @ s) = Some (TNumber (IntLit n), s)"
    using tw z s dec_ne [of n] assms(2) by (auto simp: lex_number_def digits_nat_dec dec_length)
  then have l: "lex_number (c # ds @ s) = Some (TNumber (IntLit n), s)" using c by simp
  show ?thesis
    unfolding c append_Cons using dig l by (subst tokenize_from.simps) (simp add: is_digit_def)
qed

lemma print_str_hd:
  "iprintable e \<Longrightarrow> print_str e \<noteq> [] \<and> hd (print_str e) \<noteq> 42 \<and> hd (print_str e) \<noteq> 47"
proof (induction e rule: print_str.induct)
  case (1 n)
  then show ?case using dec_ne [of n] dec_digits [of n] by (cases "dec n") (auto simp: is_digit_def)
qed simp_all

lemma op_tok_str:
  assumes "op \<noteq> PowOp" "t \<noteq> []" "hd t \<noteq> 42" "hd t \<noteq> 47"
  shows "tokenize_from lvl (op_str op @ t) = map_option (Cons (op_tok op)) (tokenize_from lvl t)"
  using assms by (cases op) (simp_all add: tok_chars del: tokenize_from.simps)

lemma num_follow_simps [simp]: "num_follow []" "num_follow (41 # s)"
  by (simp_all add: num_follow_def)

lemma num_follow_op [simp]: "op \<noteq> PowOp \<Longrightarrow> num_follow (op_str op @ s)"
  by (cases op) (simp_all add: num_follow_def)

lemma num_follow_uop [simp]: "num_follow (uop_str u @ s)"
  by (cases u) (simp_all add: num_follow_def)

lemma tok_print:
  "iprintable e \<Longrightarrow> lits_ok e \<Longrightarrow> pdepth e + lvl \<le> 200 \<Longrightarrow> num_follow s \<Longrightarrow>
   tokenize_from lvl (print_str e @ s) = map_option (\<lambda>t. print_toks e @ t) (tokenize_from lvl s)"
proof (induction e arbitrary: lvl s rule: print_str.induct)
  case (1 n)
  then show ?case by (simp add: tok_dec del: tokenize_from.simps)
next
  case (2 a op b)
  have b: "tokenize_from (Suc lvl) (print_str b @ 41 # s) =
      map_option (\<lambda>t. print_toks b @ t) (tokenize_from (Suc lvl) (41 # s))"
    using 2 by (intro "2.IH"(2)) auto
  have o: "tokenize_from (Suc lvl) (op_str op @ print_str b @ 41 # s) =
      map_option (Cons (op_tok op)) (tokenize_from (Suc lvl) (print_str b @ 41 # s))"
    using 2 print_str_hd [of b] by (intro op_tok_str) auto
  have a: "tokenize_from (Suc lvl) (print_str a @ op_str op @ print_str b @ 41 # s) =
      map_option (\<lambda>t. print_toks a @ t) (tokenize_from (Suc lvl) (op_str op @ print_str b @ 41 # s))"
    using 2 by (intro "2.IH"(1)) auto
  show ?case
    using "2.prems" by (simp add: a o b tok_chars option.map_comp comp_def del: tokenize_from.simps)
next
  case (3 u a)
  have a: "tokenize_from (Suc lvl) (print_str a @ 41 # s) =
      map_option (\<lambda>t. print_toks a @ t) (tokenize_from (Suc lvl) (41 # s))"
    using 3 by (intro "3.IH") auto
  have "tokenize_from (Suc lvl) (uop_str u @ print_str a @ 41 # s) =
      map_option (Cons (uop_tok u)) (tokenize_from (Suc lvl) (print_str a @ 41 # s))"
    by (cases u) (simp_all add: tok_chars del: tokenize_from.simps)
  then show ?case
    using "3.prems" by (simp add: a tok_chars option.map_comp comp_def del: tokenize_from.simps)
qed simp_all

subsection \<open>The pipeline of \<open>calculator\<close> on printed text\<close>

lemma print_str_chars:
  "iprintable e \<Longrightarrow> \<forall>c\<in>set (print_str e). is_digit c \<or> c \<in> {40, 41, 42, 43, 45, 47}"
proof (induction e rule: print_str.induct)
  case (1 n)
  then show ?case using dec_digits [of n] by auto
next
  case (2 a op b)
  then show ?case by (cases op) auto
next
  case (3 u a)
  then show ?case by (cases u) auto
qed simp_all

lemma int_only_iprintable: "int_only e \<Longrightarrow> iprintable e"
  by (induction e rule: int_only.induct) auto

lemma iprintable_printable: "iprintable e \<Longrightarrow> printable e"
  by (induction e rule: iprintable.induct) auto

lemma eval_int_only:
  "int_only e \<Longrightarrow>
   eval_expr ops e = (case int_value e of Some i \<Rightarrow> Val (PInt i) | None \<Rightarrow> Raise ZeroDivisionError)"
proof (induction e rule: int_value.induct)
  case (2 a op b)
  then show ?case by (auto simp: binop_val_def arith_num_def split: option.split)
qed (auto split: option.split)

lemma print_str_passes:
  assumes "iprintable e"
  shows "py_strip (normalize_signs (print_str e)) = print_str e"
    and "pattern_lang (print_str e)"
    and "power_rewrite (print_str e) = print_str e"
proof -
  note ch = print_str_chars [OF assms]
  have sp: "\<forall>c\<in>set (print_str e). \<not> py_isspace c" using ch by (auto simp: is_digit_def py_isspace_def)
  have "dropWhile py_isspace (print_str e) = print_str e" "dropWhile py_isspace (rev (print_str e)) = rev (print_str e)"
    using sp by (simp_all add: dropWhile_eq_self_iff hd_rev print_str_hd [OF assms] last_in_set hd_in_set)
  moreover have "normalize_signs (print_str e) = print_str e"
    using ch by (auto simp: normalize_signs_def is_digit_def intro!: map_idI)
  ultimately show "py_strip (normalize_signs (print_str e)) = print_str e" by (simp add: py_strip_def)
  show "pattern_lang (print_str e)"
    unfolding pattern_lang_def using ch print_str_hd [OF assms]
    by (intro exI [of _ "print_str e"] exI [of _ "[]"]) (auto simp: allowed_class_def is_digit_def chain_lang.chain_empty)
  show "power_rewrite (print_str e) = print_str e"
  proof -
    have "94 \<notin> set (print_str e)" using ch by (auto simp: is_digit_def)
    then show ?thesis by (simp add: power_rewrite_def py_replace_absent)
  qed
qed

lemma ast_parse_print:
  "iprintable e \<Longrightarrow> lits_ok e \<Longrightarrow> pdepth e \<le> 200 \<Longrightarrow> ast_parse (print_str e) = Some e"
proof -
  assume pr: "iprintable e" and l: "lits_ok e" and d: "pdepth e \<le> 200"
  have "tokenize_from 0 (print_str e @ []) = map_option (\<lambda>t. print_toks e @ t) (tokenize_from 0 [])"
    using pr l d by (intro tok_print) simp_all
  moreover have "hd (print_str e) \<in> set (print_str e)" using print_str_hd [OF pr] by simp
  then have "is_digit (hd (print_str e)) \<or> hd (print_str e) \<in> {40, 41, 42, 43, 45, 47}"
    using print_str_chars [OF pr] by blast
  then have "hd (print_str e) \<noteq> 32 \<and> hd (print_str e) \<noteq> 9" by (auto simp: is_digit_def)
  ultimately have "tokenize (print_str e) = Some (print_toks e)"
    by (simp add: tokenize_def del: tokenize_from.simps(2))
  then show ?thesis
    by (simp add: ast_parse_def parse_eval_def parse_nt_print iprintable_printable [OF pr])
qed

section \<open>Integer arithmetic end to end\<close>

text \<open>
  C3: the calculator computes integer arithmetic exactly: on the fully parenthesised
  text of any expression of integer literals (of at most 4300 digits) with
  \<open>+ - * //\<close> and the signs, nested at most 200 deep, it returns the exact value with floor division (and echoes the input
  and the executed text), \<open>DivByZero\<close> when a divisor is zero, and the \<open>ValueError\<close>
  message when the value has more than 4300 digits.
\<close>

theorem calculator_int_arith:
  assumes "int_only e" "lits_ok e" "pdepth e \<le> 200"
  shows "calculator ops (print_str e) =
    (case int_value e of
       None \<Rightarrow> DivByZero
     | Some v \<Rightarrow>
         if int_max_str_digits < decimal_digits (nat \<bar>v\<bar>) then CalcError ValueError
         else ResultValue (print_str e) (PInt v) (print_str e))"
proof -
  note pr = int_only_iprintable [OF assms(1)]
  note pass = print_str_passes [OF pr]
  show ?thesis
    using calculator_passed [of "print_str e" ops] pass ast_parse_print [OF pr assms(2,3)]
      eval_int_only [OF assms(1), of ops]
    by (simp add: format_result_def split: option.split)
qed

lemma calculator_int_arith_witness:
  "\<forall>ops :: unit float_ops.
     calculator ops (print_str (BinOp (Constant (CNum (IntLit 7))) FloorDiv
        (UnaryOp USub (BinOp (Constant (CNum (IntLit 1))) Add (Constant (CNum (IntLit 1))))))) =
     ResultValue (ustr ''(7//(-(1+1)))'') (PInt (-4)) (ustr ''(7//(-(1+1)))'')"
proof
  fix ops :: "unit float_ops"
  show "calculator ops (print_str (BinOp (Constant (CNum (IntLit 7))) FloorDiv
        (UnaryOp USub (BinOp (Constant (CNum (IntLit 1))) Add (Constant (CNum (IntLit 1))))))) =
     ResultValue (ustr ''(7//(-(1+1)))'') (PInt (-4)) (ustr ''(7//(-(1+1)))'')"
    using calculator_int_arith [of "BinOp (Constant (CNum (IntLit 7))) FloorDiv
        (UnaryOp USub (BinOp (Constant (CNum (IntLit 1))) Add (Constant (CNum (IntLit 1)))))" ops]
    by (simp add: dec.simps int_max_str_digits_def)
qed

section \<open>The parser inverts printing\<close>

text \<open>
  C8: the parser inverts printing: the tokens of any expression of number literals,
  the six binary operators and the signs, fully parenthesised, parse back to that
  expression (with the fuel \<open>parse_fuel\<close>).
\<close>

theorem parse_eval_print: "printable e \<Longrightarrow> parse_eval (print_toks e) = Some e"
  by (simp add: parse_eval_def parse_nt_print)

lemma parse_eval_print_witness:
  "parse_eval [TLPar, TNumber (FloatLit (1 / 2)), TDoubleStar, TLPar, TMinus, TNumber (IntLit 2), TRPar, TRPar] =
   Some (BinOp (Constant (CNum (FloatLit (1 / 2)))) PowOp (UnaryOp USub (Constant (CNum (IntLit 2)))))"
  using parse_eval_print [of "BinOp (Constant (CNum (FloatLit (1 / 2)))) PowOp (UnaryOp USub (Constant (CNum (IntLit 2))))"]
  by simp

end
