(* ===== verification/Spec2Isabelle.thy ===== *)
theory Spec2Isabelle
  imports Calculator ToolExecutor Graph Search Sandbox NumTypes CalcArith
begin

text \<open>
  A verification model of the Python sources of the repository: the tools of
  src/code/chapter4/tools.py (the calculator, the search tool, the tool registry
  \<open>ToolExecutor\<close> and the demo of its \<open>__main__\<close> block) and the LangGraph demo
  src/code/chapter6/Langgraph/simple_graph.py. Every function is a shallow embedding:
  Python strings are lists of code points (\<open>pystr\<close>), dictionaries are association
  lists in insertion order, exceptions are values, and every \<open>return\<close> of a function
  is a constructor of its result type.

  \<^bold>\<open>Theories.\<close>
  \<^item> \<open>Prelude\<close>: code-point strings, the \<open>str\<close> methods the code calls (\<open>isspace\<close>,
    \<open>strip\<close>, \<open>replace\<close>, \<open>join\<close>, \<open>endswith\<close>) and list lemmas the components share.
  \<^item> \<open>AllowList\<close>: the regular expression of \<open>calculator\<close> (tools.py lines 67--69)
    as a language (\<open>pattern_lang\<close>, \<open>allowed_pattern_spec\<close>) and as a backtracking
    matcher (\<open>allowed_pattern_match\<close>).
  \<^item> \<open>Tokenizer\<close> and \<open>Parser\<close>: \<open>ast.parse(safe_expr, mode='eval')\<close> (line 77), i.e.
    CPython 3.11's tokenizer and PEG grammar on the characters the filter admits,
    including the limits of 200 nested parentheses and of 4300 digits in an integer
    literal. The parser \<open>parse_nt\<close> iterates one grammar step \<open>parse_step\<close> with fuel;
    \<open>parse_fuel toks = 10 * length toks + 8\<close> is always enough (each call consumes a
    token or descends one of at most ten levels of the grammar).
  \<^item> \<open>Eval\<close>: \<open>eval(safe_expr, {"__builtins__": None}, allowed_context)\<close> (lines 82--91):
    Python's number protocol on \<open>int\<close>, \<open>float\<close>, \<open>complex\<close>, the sequence slots,
    name lookup (an unknown name raises \<open>TypeError\<close>), the attributes of the module
    \<open>math\<close>. IEEE arithmetic is the parameter \<open>float_ops\<close>; every theorem holds for
    any implementation of it.
  \<^item> \<open>Calculator\<close>: \<open>calculator\<close> (lines 56--105) composed of the pieces above, with the
    result formatting (lines 93--98) and the \<open>except\<close> clauses (100--105).
  \<^item> \<open>Sandbox_Eval\<close>, \<open>Sandbox_Parse\<close>, \<open>Sandbox\<close>: why the calculator never reaches
    the unmodelled part of \<open>eval\<close> (calling a callable, attributes of other objects).
    \<open>Sandbox_Eval\<close> characterises the expressions that evaluate inside the model
    (\<open>good\<close>); \<open>Sandbox_Parse\<close> shows by induction on the parser's fuel that two
    conditions on the tokens (\<open>names_last\<close>, \<open>attr_triples\<close>) make the parser build only
    such expressions; \<open>Sandbox\<close> shows that the tokens of every allow-listed input meet
    them, because a run of \<open>math.\<close>-words can only come last and no token crosses into it.
  \<^item> \<open>CalcArith\<close>: the calculator on integer arithmetic end to end, through a printer
    \<open>print_str\<close> of expressions that the tokenizer and the parser invert.
  \<^item> \<open>NumTypes\<close>: Python's numeric tower \<open>int < float < complex\<close> as a \<open>linorder\<close>
    instance, a static type for numeric expressions, and type soundness of \<open>eval_expr\<close>.
  \<^item> \<open>Search\<close>: the tool \<open>search\<close> (lines 13--53). The client and the environment are
    parameters; the parsing of the JSON result with Python's \<open>in\<close>, indexing, truth
    value, iteration, slicing and \<open>get\<close>, and the \<open>except\<close> clause, are modelled.
  \<^item> \<open>ToolExecutor\<close>: the class \<open>ToolExecutor\<close> (lines 110--140) over an association
    list (\<open>AList.update\<close> keeps a re-registered name in place, as a \<open>dict\<close> does).
  \<^item> \<open>Graph\<close>: \<open>simple_graph.py\<close> with the part of LangGraph it uses, modelled from the
    library's documentation: building, checking and running a graph by supersteps, as a
    function with the recursion limit 25 and as the step relation \<open>gstep\<close>.
  \<^item> This theory: the \<open>__main__\<close> demo of tools.py (lines 143--168).

  \<^bold>\<open>What is proved.\<close> The calculator refuses exactly the inputs outside the
  language of its regular expression (\<open>calculator_rejects\<close>), and the matcher equals
  that language (\<open>allowed_pattern_correct\<close>). No input makes the evaluator call a
  callable or read an attribute it does not model (\<open>calculator_sandboxed\<close>). On the
  fully parenthesised text of any integer expression with \<open>+ - * //\<close> and signs the
  calculator returns the exact value, \<open>DivByZero\<close>, or the 4300-digit \<open>ValueError\<close>
  (\<open>calculator_int_arith\<close>); the parser inverts printing for all six operators
  (\<open>parse_eval_print\<close>) and its fuel always suffices (\<open>parse_fuel_enough\<close>). The
  \<open>except NameError\<close> branch is dead (\<open>calculator_no_unknown_name\<close>). Integer
  evaluation refines exact arithmetic with floor division (\<open>eval_int_refines\<close>) and
  numeric evaluation is type sound (\<open>eval_num_type_sound\<close>). The graph demo appends
  \<open>ab\<close> to every initial text and always reaches its final configuration. The search
  tool answers the answer list first and gives at most three snippets.

  \<^bold>\<open>Bounds and fuel.\<close> The parser's fuel is \<open>parse_fuel\<close> (proved sufficient); the
  graph runner's is LangGraph's recursion limit 25 (the demo needs two supersteps);
  the printed expressions of \<open>CalcArith\<close> need at most ten units per token.

  \<^bold>\<open>Not modelled.\<close> Output by \<open>print\<close> other than the registry's messages; the
  network client of \<open>search\<close> (a parameter) and environment loading;
  src/code/chapter6/Langgraph/model_test.py, which only calls a remote model; IEEE
  rounding (a parameter); CPython's stack and memory limits during parsing and
  evaluation (the parser's \<open>MAXSTACK\<close>, \<open>RecursionError\<close>, \<open>MemoryError\<close> for huge
  repetitions); the attribute \<open>math.__file__\<close> of builds where \<open>math\<close> is an extension
  module (the model is a build with \<open>math\<close> built in); calling a callable and the
  attributes of objects other than \<open>math\<close>, which the evaluator reports as
  \<open>Outside\<close> and which no input reaches (\<open>calculator_sandboxed\<close>).
\<close>

section \<open>The demo of tools.py\<close>

text \<open>Line 149: the description the demo registers the search tool with.\<close>

definition search_description :: pystr where
  "search_description =
     [19968, 20010, 32593, 39029, 25628, 32034, 24341, 25806, 12290, 24403, 20320, 38656,
      35201, 22238, 31572, 20851, 20110, 26102, 20107, 12289, 20107, 23454, 20197, 21450,
      22312, 20320, 30340, 30693, 35782, 24211, 20013, 25214, 19981, 21040, 30340, 20449,
      24687, 26102, 65292, 24212, 20351, 29992, 27492, 24037, 20855, 12290]"

text \<open>Line 159: the query of the demo.\<close>

definition tool_input :: pystr where
  "tool_input = [33521, 20255, 36798, 26368, 26032, 30340, 71, 80, 85, 22411, 21495, 26159,
     20160, 20040]"

datatype 'r demo_event =
    RegMsg reg_msg | Listing pystr | Observation 'r | NotFound pystr

text \<open>
  Lines 144--167: register the search tool, print the listing, look the tool up and
  call it on the query. The search function is a parameter (it calls the network).
\<close>

definition main_demo :: "(pystr \<Rightarrow> 'r) \<Rightarrow> 'r demo_event list" where
  "main_demo search_fn =
     (let (tool_executor, msgs) = registerTool init_executor (ustr ''Search'') search_description search_fn;
          tool_name = ustr ''Search''
      in map RegMsg msgs @ [Listing (getAvailableTools tool_executor)] @
         (case getTool tool_executor tool_name of
            Some tool_function \<Rightarrow> [Observation (tool_function tool_input)]
          | None \<Rightarrow> [NotFound tool_name]))"

end
